(* ===== verification/Prelude.thy ===== *)
theory Prelude
  imports Main "HOL-Library.Word"
begin

text \<open>
  Shared vocabulary of the development: the names of the C integer types, arrays as total
  functions with \<open>memcpy\<close>-like reads and writes, the interface of a circular buffer that
  the bit queue, the PCM ring and the RTP playout queue all rely on, and the theorem
  collections the component theories feed.
\<close>

unbundle bit_operations_syntax

type_synonym u8 = "8 word"
type_synonym u16 = "16 word"
type_synonym u32 = "32 word"
type_synonym u64 = "64 word"

named_theorems mem_simps \<open>reading and writing arrays\<close>
named_theorems inv_intros \<open>operations keep their component's invariant\<close>

subsection \<open>Arrays and block copies\<close>

text \<open>
  A C array is a total function from indices. \<open>mem_write a off xs\<close> is
  \<open>memcpy (a + off, xs, length xs)\<close>; \<open>mem_read a off n\<close> lists \<open>n\<close> elements from \<open>off\<close>.
\<close>

definition mem_write :: "(nat \<Rightarrow> 'a) \<Rightarrow> nat \<Rightarrow> 'a list \<Rightarrow> nat \<Rightarrow> 'a" where
  "mem_write a off xs = (\<lambda>i. if off \<le> i \<and> i < off + length xs then xs ! (i - off) else a i)"

definition mem_read :: "(nat \<Rightarrow> 'a) \<Rightarrow> nat \<Rightarrow> nat \<Rightarrow> 'a list" where
  "mem_read a off n = map (\<lambda>i. a (off + i)) [0..<n]"

lemma length_mem_read [simp, mem_simps]: "length (mem_read a off n) = n"
  by (simp add: mem_read_def)

lemma mem_read_0 [simp, mem_simps]: "mem_read a off 0 = []"
  by (simp add: mem_read_def)

lemma nth_mem_read [mem_simps]: "i < n \<Longrightarrow> mem_read a off n ! i = a (off + i)"
  by (simp add: mem_read_def)

lemma mem_read_write_append [mem_simps]:
  "mem_read (mem_write a n xs) 0 (n + length xs) = mem_read a 0 n @ xs"
  by (rule nth_equalityI) (auto simp: mem_read_def mem_write_def nth_append)

lemma mem_read_write_below [mem_simps]:
  "off + n \<le> k \<Longrightarrow> mem_read (mem_write a k xs) off n = mem_read a off n"
  by (auto simp: mem_read_def mem_write_def)

lemma take_mem_read [mem_simps]: "take k (mem_read a off n) = mem_read a off (min k n)"
  by (rule nth_equalityI) (auto simp: mem_read_def)

lemma mem_read_cong:
  "(\<And>i. i < n \<Longrightarrow> a (off + i) = b (off + i)) \<Longrightarrow> mem_read a off n = mem_read b off n"
  by (simp add: mem_read_def)

subsection \<open>Circular buffers\<close>

text \<open>
  The interface of a circular buffer. A position \<open>p\<close> is where reading starts;
  \<open>slot p i\<close> is the array index of the \<open>i\<close>-th element after it and \<open>adv p k\<close> the position
  \<open>k\<close> elements later. The provider promises that the first \<open>cap p\<close> slots are distinct.
  The clients' contents is the window \<open>map (buf \<circ> slot p) [0..<n]\<close>.
\<close>

text \<open>The loop that stores a block element by element, starting at slot \<open>n\<close>.\<close>

fun slot_store :: "('i \<Rightarrow> 'a) \<Rightarrow> (nat \<Rightarrow> 'i) \<Rightarrow> nat \<Rightarrow> 'a list \<Rightarrow> 'i \<Rightarrow> 'a" where
  "slot_store buf sl n [] = buf"
| "slot_store buf sl n (x # xs) = slot_store (buf(sl n := x)) sl (Suc n) xs"

locale circular =
  fixes cap :: "'p \<Rightarrow> nat"
    and valid :: "'p \<Rightarrow> bool"
    and slot :: "'p \<Rightarrow> nat \<Rightarrow> 'i"
    and adv :: "'p \<Rightarrow> nat \<Rightarrow> 'p"
  assumes slot_inj: "valid p \<Longrightarrow> i < cap p \<Longrightarrow> j < cap p \<Longrightarrow> slot p i = slot p j \<Longrightarrow> i = j"
    and slot_adv: "valid p \<Longrightarrow> slot (adv p k) i = slot p (k + i)"
    and valid_adv: "valid p \<Longrightarrow> valid (adv p k)"
    and cap_adv: "cap (adv p k) = cap p"
begin

lemma window_write_other:
  assumes "valid p" and "n \<le> m" and "m < cap p"
  shows "map (\<lambda>i. (buf(slot p m := x)) (slot p i)) [0..<n] = map (\<lambda>i. buf (slot p i)) [0..<n]"
proof (rule map_cong [OF refl])
  fix i assume "i \<in> set [0..<n]"
  then have "i < n" by simp
  with assms slot_inj [of p i m] show "(buf(slot p m := x)) (slot p i) = buf (slot p i)"
    by (auto simp: fun_upd_def)
qed

lemma window_snoc:
  assumes "valid p" and "n < cap p"
  shows "map (\<lambda>i. (buf(slot p n := x)) (slot p i)) [0..<Suc n]
           = map (\<lambda>i. buf (slot p i)) [0..<n] @ [x]"
  using window_write_other [of p n n buf x] assms by simp

lemma window_drop:
  assumes "valid p" and "k \<le> n"
  shows "map (\<lambda>i. buf (slot (adv p k) i)) [0..<n - k] = drop k (map (\<lambda>i. buf (slot p i)) [0..<n])"
  by (rule nth_equalityI) (auto simp: slot_adv [OF assms(1)])

lemma window_cons:
  assumes "valid p" and "0 < n"
  shows "map (\<lambda>i. buf (slot p i)) [0..<n]
           = buf (slot p 0) # map (\<lambda>i. buf (slot (adv p 1) i)) [0..<n - 1]"
proof -
  have "map (\<lambda>i. buf (slot (adv p 1) i)) [0..<n - 1] = tl (map (\<lambda>i. buf (slot p i)) [0..<n])"
    using window_drop [OF assms(1), of 1 n buf] assms(2) by (simp add: drop_Suc)
  moreover have "hd (map (\<lambda>i. buf (slot p i)) [0..<n]) = buf (slot p 0)"
    using assms(2) by (simp add: hd_map)
  ultimately show ?thesis
    using assms(2) list.collapse [of "map (\<lambda>i. buf (slot p i)) [0..<n]"] by simp
qed

lemma window_store:
  assumes "valid p" and "n + length xs \<le> cap p"
  shows "map (\<lambda>i. slot_store buf (slot p) n xs (slot p i)) [0..<n + length xs]
          = map (\<lambda>i. buf (slot p i)) [0..<n] @ xs"
  using assms
proof (induction xs arbitrary: n buf)
  case Nil
  then show ?case by simp
next
  case (Cons x xs)
  have "map (\<lambda>i. slot_store (buf(slot p n := x)) (slot p) (Suc n) xs (slot p i)) [0..<Suc n + length xs]
          = map (\<lambda>i. (buf(slot p n := x)) (slot p i)) [0..<Suc n] @ xs"
    using Cons.prems by (intro Cons.IH) simp_all
  also have "\<dots> = map (\<lambda>i. buf (slot p i)) [0..<n] @ x # xs"
    using window_snoc [of p n buf x] Cons.prems by (simp del: fun_upd_apply)
  finally show ?case by (simp del: fun_upd_apply)
qed

end

subsection \<open>Masked counters\<close>

lemma window_mod_inj:
  fixes a :: nat
  assumes "i < n" and "j < n" and "(a + i) mod n = (a + j) mod n"
  shows "i = j"
proof -
  have *: "x = y" if "x \<le> y" and "y < n" and "(a + x) mod n = (a + y) mod n" for x y
  proof -
    from that have "n dvd (a + y) - (a + x)"
      using mod_eq_dvd_iff_nat [of "a + x" "a + y" n] by simp
    then have "n dvd y - x" by simp
    with that show ?thesis by (auto dest: dvd_imp_le)
  qed
  show ?thesis
    using *[of i j] *[of j i] assms by (cases "i \<le> j") auto
qed

lemma unat_and_mask_add:
  fixes t :: "'a::len word"
  assumes "k \<le> LENGTH('a)"
  shows "unat ((t + of_nat i) AND mask k) = (unat t + i) mod 2 ^ k"
proof -
  have "unat ((t + of_nat i) AND mask k) = unat (t + of_nat i) mod 2 ^ k"
    by (metis take_bit_eq_mask take_bit_eq_mod unsigned_take_bit_eq)
  also have "unat (t + of_nat i) = (unat t + i) mod 2 ^ LENGTH('a)"
    by (simp add: unat_word_ariths unat_of_nat mod_add_right_eq)
  also have "(unat t + i) mod 2 ^ LENGTH('a) mod 2 ^ k = (unat t + i) mod 2 ^ k"
    using assms by (simp add: mod_mod_cancel le_imp_power_dvd)
  finally show ?thesis .
qed

lemma masked_slot_inj:
  fixes t :: "'a::len word"
  assumes "k \<le> LENGTH('a)" and "i < 2 ^ k" and "j < 2 ^ k"
    and "(t + of_nat i) AND mask k = (t + of_nat j) AND mask k"
  shows "i = j"
proof -
  from assms(4) have "unat ((t + of_nat i) AND mask k) = unat ((t + of_nat j) AND mask k)"
    by simp
  then have "(unat t + i) mod 2 ^ k = (unat t + j) mod 2 ^ k"
    using assms(1) by (simp add: unat_and_mask_add)
  with assms(2,3) show ?thesis by (rule window_mod_inj)
qed

lemma unat_pow2:
  assumes "k < LENGTH('a)"
  shows "unat (2 ^ k :: 'a::len word) = 2 ^ k"
proof -
  have "unat (of_nat (2 ^ k) :: 'a word) = 2 ^ k mod 2 ^ LENGTH('a)" by (rule unat_of_nat)
  with assms show ?thesis by simp
qed

lemma unat_word_incr: "unat (d :: 'a::len word) + 1 < 2 ^ LENGTH('a) \<Longrightarrow> unat (d + 1) = Suc (unat d)"
  by (simp add: unat_word_ariths)

text \<open>C's signed division rounds towards zero.\<close>

definition c_div :: "int \<Rightarrow> int \<Rightarrow> int" where
  "c_div a b = sgn a * sgn b * (\<bar>a\<bar> div \<bar>b\<bar>)"

definition c_mod :: "int \<Rightarrow> int \<Rightarrow> int" where
  "c_mod a b = a - b * c_div a b"

lemma c_div_nonneg: "0 \<le> a \<Longrightarrow> 0 < b \<Longrightarrow> c_div a b = a div b"
  by (cases "a = 0") (auto simp: c_div_def)

lemma c_mod_nonneg: "0 \<le> a \<Longrightarrow> 0 < b \<Longrightarrow> c_mod a b = a mod b"
  by (simp add: c_mod_def c_div_nonneg minus_mult_div_eq_mod)

end
