(* ===== verification/Serial.thy ===== *)
theory Serial
  imports Prelude
begin

text \<open>
  Asynchronous serial framing, \<open>src/src/serial/sm_async.c\<close>: the bit queue the modem's
  transmitter pulls from (\<open>bitq\<close>, one record field per C field, the array as a function on
  its \<open>uint32_t\<close> index) and the deframer the receiver pushes into (\<open>deframer\<close>; \<open>df_out\<close>
  is \<open>out[0 .. out_len)\<close>, so \<open>out_len\<close> is its length).
  C's \<open>int\<close> is \<open>int\<close>; the counters keep their width and wrap.
\<close>

subsection \<open>The bit queue\<close>

record bitq =
  bq_bits :: "u32 \<Rightarrow> u8"
  bq_head :: u32
  bq_tail :: u32

definition SM_BITQ_SIZE :: u32 where
  "SM_BITQ_SIZE = 65536"

definition sm_bitq_init :: bitq where
  "sm_bitq_init = \<lparr>bq_bits = (\<lambda>_. 0), bq_head = 0, bq_tail = 0\<rparr>"

definition sm_bitq_count :: "bitq \<Rightarrow> nat" where
  "sm_bitq_count q = unat (bq_head q - bq_tail q)"

definition sm_bitq_push :: "bitq \<Rightarrow> int \<Rightarrow> int \<times> bitq" where
  "sm_bitq_push q bt =
     (if bq_head q - bq_tail q \<ge> SM_BITQ_SIZE then (-1, q)
      else (0, q\<lparr>bq_bits := (bq_bits q)(bq_head q AND (SM_BITQ_SIZE - 1) := word_of_int (bt AND 1)),
                 bq_head := bq_head q + 1\<rparr>))"

definition sm_bitq_bytes :: "bitq \<Rightarrow> nat" where
  "sm_bitq_bytes q = sm_bitq_count q div 10"

text \<open>The ten bits of one framed byte, in the order the code pushes them.\<close>

definition frame_bits :: "u8 \<Rightarrow> int list" where
  "frame_bits byte = [0] @ map (\<lambda>i. uint (drop_bit i byte AND 1)) [0..<8] @ [1]"

definition sm_bitq_push_byte :: "bitq \<Rightarrow> u8 \<Rightarrow> int \<times> bitq" where
  "sm_bitq_push_byte q byte =
     (if bq_head q - bq_tail q + 10 > SM_BITQ_SIZE then (-1, q)
      else (let q1 = snd (sm_bitq_push q 0);
                q2 = foldl (\<lambda>q i. snd (sm_bitq_push q (uint (drop_bit i byte AND 1)))) q1 [0..<8]
            in (0, snd (sm_bitq_push q2 1))))"

definition sm_bitq_pop :: "bitq \<Rightarrow> int \<times> bitq" where
  "sm_bitq_pop q =
     (if bq_head q = bq_tail q then (-1, q)
      else (uint (bq_bits q (bq_tail q AND (SM_BITQ_SIZE - 1))), q\<lparr>bq_tail := bq_tail q + 1\<rparr>))"

subsection \<open>The deframer\<close>

record deframer =
  df_state :: int
  df_nbits :: int
  df_byte :: int
  df_prev :: int
  df_out :: "u8 list"
  df_framing_errors :: u64
  df_bytes_out :: u64

definition DF_OUT_SIZE :: nat where
  "DF_OUT_SIZE = 4096"

definition sm_deframer_init :: deframer where
  "sm_deframer_init = \<lparr>df_state = 0, df_nbits = 0, df_byte = 0, df_prev = 1, df_out = [],
     df_framing_errors = 0, df_bytes_out = 0\<rparr>"

definition sm_deframer_bit :: "deframer \<Rightarrow> int \<Rightarrow> deframer" where
  "sm_deframer_bit d0 bt0 =
     (let bt = bt0 AND 1;
          d = (if length (df_out d0) \<ge> DF_OUT_SIZE then d0\<lparr>df_out := []\<rparr> else d0)
      in if df_state d = 0 then
           (let d1 = (if df_prev d = 1 \<and> bt = 0
                      then d\<lparr>df_state := 1, df_nbits := 0, df_byte := 0\<rparr> else d)
            in d1\<lparr>df_prev := bt\<rparr>)
         else if df_state d = 2 then
           (let d1 = d\<lparr>df_prev := bt\<rparr>;
                d2 = (if bt = 1 then
                        (let d3 = (if length (df_out d1) < DF_OUT_SIZE
                                   then d1\<lparr>df_out := df_out d1 @ [word_of_int (df_byte d1)]\<rparr> else d1)
                         in d3\<lparr>df_bytes_out := df_bytes_out d3 + 1\<rparr>)
                      else d1\<lparr>df_framing_errors := df_framing_errors d1 + 1\<rparr>)
            in d2\<lparr>df_state := 0\<rparr>)
         else
           (let d1 = d\<lparr>df_byte := df_byte d OR push_bit (nat (df_nbits d)) bt,
                       df_nbits := df_nbits d + 1\<rparr>;
                d2 = (if df_nbits d1 \<ge> 8 then d1\<lparr>df_state := 2\<rparr> else d1)
            in d2\<lparr>df_prev := bt\<rparr>))"

definition sm_deframer_take :: "deframer \<Rightarrow> int \<Rightarrow> (int \<times> u8 list) \<times> deframer" where
  "sm_deframer_take d len0 =
     (let len = (if len0 > int (length (df_out d)) then int (length (df_out d)) else len0)
      in if len > 0
         then ((len, take (nat len) (df_out d)), d\<lparr>df_out := drop (nat len) (df_out d)\<rparr>)
         else ((len, []), d))"

subsection \<open>The queue as a bounded FIFO of bits\<close>

definition bitq_items :: "bitq \<Rightarrow> u8 list" where
  "bitq_items q = map (\<lambda>i. bq_bits q ((bq_tail q + of_nat i) AND mask 16)) [0..<sm_bitq_count q]"

definition bitq_inv :: "bitq \<Rightarrow> bool" where
  "bitq_inv q \<longleftrightarrow> sm_bitq_count q \<le> 65536 \<and> (\<forall>i. bq_bits q i \<le> 1)"

text \<open>What every user of a bit queue relies on.\<close>

locale bit_fifo =
  fixes items :: "'s \<Rightarrow> u8 list"
    and inv :: "'s \<Rightarrow> bool"
    and room :: nat
    and push :: "'s \<Rightarrow> int \<Rightarrow> int \<times> 's"
    and pop :: "'s \<Rightarrow> int \<times> 's"
  assumes bits_are_bits: "inv q \<Longrightarrow> c \<in> set (items q) \<Longrightarrow> c \<le> 1"
    and bounded: "inv q \<Longrightarrow> length (items q) \<le> room"
    and inv_push: "inv q \<Longrightarrow> inv (snd (push q b))"
    and inv_pop: "inv q \<Longrightarrow> inv (snd (pop q))"
    and push_ok: "inv q \<Longrightarrow> length (items q) < room \<Longrightarrow>
           fst (push q b) = 0 \<and> items (snd (push q b)) = items q @ [word_of_int (b AND 1)]"
    and push_full: "inv q \<Longrightarrow> length (items q) = room \<Longrightarrow> push q b = (-1, q)"
    and pop_empty: "inv q \<Longrightarrow> items q = [] \<Longrightarrow> pop q = (-1, q)"
    and pop_cons: "inv q \<Longrightarrow> items q = c # cs \<Longrightarrow>
           fst (pop q) = uint c \<and> items (snd (pop q)) = cs"
begin

lemma push_list:
  assumes "inv q" and "length (items q) + length bs \<le> room"
  shows "inv (foldl (\<lambda>q b. snd (push q b)) q bs)
       \<and> items (foldl (\<lambda>q b. snd (push q b)) q bs) = items q @ map (\<lambda>b. word_of_int (b AND 1)) bs"
  using assms
proof (induction bs arbitrary: q)
  case Nil
  then show ?case by simp
next
  case (Cons b bs)
  then have "inv (snd (push q b))" "items (snd (push q b)) = items q @ [word_of_int (b AND 1)]"
    using inv_push push_ok by auto
  with Cons.IH [of "snd (push q b)"] Cons.prems show ?case by simp
qed

lemma pop_in_order:
  assumes "inv q" and "n \<le> length (items q)"
  shows "items (((\<lambda>q. snd (pop q)) ^^ n) q) = drop n (items q) \<and> inv (((\<lambda>q. snd (pop q)) ^^ n) q)"
  using assms(2)
proof (induction n)
  case 0
  with assms(1) show ?case by simp
next
  case (Suc n)
  let ?q = "((\<lambda>q. snd (pop q)) ^^ n) q"
  from Suc have *: "items ?q = drop n (items q)" "inv ?q" by auto
  with Suc.prems have "items ?q = items q ! n # drop (Suc n) (items q)"
    by (simp add: Cons_nth_drop_Suc)
  with *(2) pop_cons [of ?q] inv_pop [of ?q] show ?case by simp
qed

lemma pop_never_negative:
  assumes "inv q" and "items q \<noteq> []"
  shows "fst (pop q) \<in> {0, 1}"
proof -
  from assms(2) obtain b bs where eq: "items q = b # bs" by (cases "items q") auto
  with assms(1) have "b \<le> 1" using bits_are_bits by simp
  then have "uint b \<le> 1" by (simp add: word_le_def)
  moreover have "0 \<le> uint b" by simp
  ultimately have "uint b = 0 \<or> uint b = 1" by linarith
  then have "uint b \<in> {0, 1}" by simp
  with eq assms(1) pop_cons show ?thesis by simp
qed

end

interpretation bitq_window: circular "\<lambda>_::u32. 65536" "\<lambda>_. True"
    "\<lambda>t i. (t + of_nat i) AND mask 16" "\<lambda>t k. t + of_nat k"
proof unfold_locales
  show "i = j" if "i < 65536" "j < 65536" "(p + of_nat i) AND mask 16 = (p + of_nat j) AND mask 16"
    for p :: u32 and i j
    using masked_slot_inj [of 16 i j p] that by simp
qed (simp_all add: add.assoc)

lemma bitq_size_mask: "SM_BITQ_SIZE - 1 = mask 16"
  by (simp add: SM_BITQ_SIZE_def mask_eq_exp_minus_1)

lemma bitq_size_unat: "unat SM_BITQ_SIZE = 65536"
  by (simp add: SM_BITQ_SIZE_def)

lemma length_bitq_items [simp]: "length (bitq_items q) = sm_bitq_count q"
  by (simp add: bitq_items_def)

lemma count_push:
  assumes "bq_head q - bq_tail q < SM_BITQ_SIZE"
  shows "unat (bq_head q + 1 - bq_tail q) = Suc (sm_bitq_count q)"
proof -
  from assms have "unat (bq_head q - bq_tail q) + 1 < 2 ^ 32"
    by (simp add: word_less_nat_alt bitq_size_unat)
  then have "unat ((bq_head q - bq_tail q) + 1) = Suc (sm_bitq_count q)"
    unfolding sm_bitq_count_def by (intro unat_word_incr) simp
  moreover have "bq_head q + 1 - bq_tail q = (bq_head q - bq_tail q) + 1"
    by (rule diff_add_eq [symmetric])
  ultimately show ?thesis by (simp only:)
qed

lemma count_pop:
  assumes "bq_head q \<noteq> bq_tail q"
  shows "unat (bq_head q - (bq_tail q + 1)) = sm_bitq_count q - 1 \<and> 0 < sm_bitq_count q"
proof -
  from assms have ne: "bq_head q - bq_tail q \<noteq> 0" by simp
  then have "unat ((bq_head q - bq_tail q) - 1) = sm_bitq_count q - 1"
    unfolding sm_bitq_count_def by (rule unat_minus_one)
  moreover have "bq_head q - (bq_tail q + 1) = (bq_head q - bq_tail q) - 1"
    by (rule diff_diff_eq [symmetric])
  moreover from ne have "0 < sm_bitq_count q"
    by (simp add: sm_bitq_count_def unat_gt_0)
  ultimately show ?thesis by (simp only: simp_thms)
qed

lemma bitq_push_room:
  assumes "bq_head q - bq_tail q < SM_BITQ_SIZE"
  shows "sm_bitq_count (snd (sm_bitq_push q b)) = Suc (sm_bitq_count q)"
    and "bitq_items (snd (sm_bitq_push q b)) = bitq_items q @ [word_of_int (b AND 1)]"
proof -
  from assms have room: "\<not> SM_BITQ_SIZE \<le> bq_head q - bq_tail q" by (simp add: not_le)
  show c: "sm_bitq_count (snd (sm_bitq_push q b)) = Suc (sm_bitq_count q)"
    using assms count_push [OF assms] by (simp add: sm_bitq_push_def sm_bitq_count_def)
  have n: "sm_bitq_count q < 65536"
    using assms by (simp add: sm_bitq_count_def word_less_nat_alt bitq_size_unat)
  have slot: "bq_head q AND (SM_BITQ_SIZE - 1) = (bq_tail q + of_nat (sm_bitq_count q)) AND mask 16"
    by (simp add: sm_bitq_count_def bitq_size_mask)
  have q': "bq_tail (snd (sm_bitq_push q b)) = bq_tail q"
    "bq_bits (snd (sm_bitq_push q b))
       = (bq_bits q)((bq_tail q + of_nat (sm_bitq_count q)) AND mask 16 := word_of_int (b AND 1))"
    using room slot by (simp_all add: sm_bitq_push_def del: fun_upd_apply)
  show "bitq_items (snd (sm_bitq_push q b)) = bitq_items q @ [word_of_int (b AND 1)]"
    unfolding bitq_items_def c q' by (rule bitq_window.window_snoc) (use n in simp_all)
qed

lemma bitq_pop_nonempty:
  assumes "bq_head q \<noteq> bq_tail q"
  shows "bitq_items q = word_of_int (fst (sm_bitq_pop q)) # bitq_items (snd (sm_bitq_pop q))"
    and "sm_bitq_count (snd (sm_bitq_pop q)) = sm_bitq_count q - 1"
    and "fst (sm_bitq_pop q) = uint (hd (bitq_items q))"
proof -
  note c = count_pop [OF assms]
  show "bitq_items q = word_of_int (fst (sm_bitq_pop q)) # bitq_items (snd (sm_bitq_pop q))"
    using assms c bitq_window.window_cons [where p = "bq_tail q" and n = "sm_bitq_count q" and buf = "bq_bits q"]
    by (simp add: sm_bitq_pop_def bitq_items_def bitq_size_mask sm_bitq_count_def)
  then show "fst (sm_bitq_pop q) = uint (hd (bitq_items q))"
    using assms by (simp add: sm_bitq_pop_def)
  show "sm_bitq_count (snd (sm_bitq_pop q)) = sm_bitq_count q - 1"
    using assms c by (simp add: sm_bitq_pop_def sm_bitq_count_def)
qed

lemma int_and_1_word_le: "(word_of_int (b AND 1) :: u8) \<le> 1"
  by (simp add: and_one_eq mod_2_eq_odd)

lemma bitq_empty_iff: "bq_head q = bq_tail q \<longleftrightarrow> bitq_items q = []"
  by (simp add: bitq_items_def sm_bitq_count_def unat_eq_zero)

interpretation bitq: bit_fifo bitq_items bitq_inv 65536 sm_bitq_push sm_bitq_pop
proof unfold_locales
  fix q b
  assume inv: "bitq_inv q"
  have lt: "bq_head q - bq_tail q < SM_BITQ_SIZE \<longleftrightarrow> length (bitq_items q) < 65536"
    by (simp add: word_less_nat_alt bitq_size_unat sm_bitq_count_def)
  show "bitq_inv (snd (sm_bitq_push q b))"
  proof (cases "bq_head q - bq_tail q < SM_BITQ_SIZE")
    case True
    with inv lt show ?thesis
      unfolding bitq_inv_def bitq_push_room(1) [OF True]
      by (simp add: sm_bitq_push_def int_and_1_word_le)
  next
    case False
    with inv show ?thesis by (simp add: sm_bitq_push_def not_less)
  qed
  show "bitq_inv (snd (sm_bitq_pop q))"
  proof (cases "bq_head q = bq_tail q")
    case False
    with inv show ?thesis
      unfolding bitq_inv_def bitq_pop_nonempty(2) [OF False] by (auto simp: sm_bitq_pop_def)
  qed (use inv in \<open>simp add: sm_bitq_pop_def\<close>)
  show "length (bitq_items q) \<le> 65536"
    using inv by (simp add: bitq_inv_def)
  show "b' \<le> 1" if "b' \<in> set (bitq_items q)" for b'
    using inv that by (auto simp: bitq_inv_def bitq_items_def)
  show "fst (sm_bitq_push q b) = 0 \<and> bitq_items (snd (sm_bitq_push q b)) = bitq_items q @ [word_of_int (b AND 1)]"
    if "length (bitq_items q) < 65536"
    using that lt bitq_push_room(2) [of q b] by (simp add: sm_bitq_push_def)
  show "sm_bitq_push q b = (-1, q)" if "length (bitq_items q) = 65536"
    using that lt by (simp add: sm_bitq_push_def)
  show "sm_bitq_pop q = (-1, q)" if "bitq_items q = []"
    using that bitq_empty_iff [of q] by (simp add: sm_bitq_pop_def)
  show "fst (sm_bitq_pop q) = uint c \<and> bitq_items (snd (sm_bitq_pop q)) = bs"
    if "bitq_items q = c # bs" for c bs
    using that bitq_empty_iff [of q] bitq_pop_nonempty [of q] by auto
qed

subsection \<open>Framing a byte\<close>

lemma uint_bit_extract: "uint (drop_bit i w AND 1) = of_bool (bit (uint w) i)" for w :: u8
proof (cases "bit w i")
  case True
  then have "odd (drop_bit i w)" "i < 8"
    using bit_imp_le_length [OF True] by (simp_all add: bit_iff_odd_drop_bit)
  moreover from this have "drop_bit i w AND 1 = 1"
    by (simp add: and_one_eq odd_iff_mod_2_eq_one)
  ultimately show ?thesis using True by (simp add: bit_uint_iff)
next
  case False
  then have "even (drop_bit i w)" by (simp add: bit_iff_odd_drop_bit)
  then have "drop_bit i w AND 1 = 0"
    by (simp add: and_one_eq even_iff_mod_2_eq_zero)
  then show ?thesis using False by (simp add: bit_uint_iff)
qed

lemma frame_bits_bits: "b \<in> set (frame_bits w) \<Longrightarrow> b = 0 \<or> b = 1"
  by (auto simp: frame_bits_def uint_bit_extract)

lemma length_frame_bits [simp]: "length (frame_bits w) = 10"
  by (simp add: frame_bits_def)

lemma word_of_bit_back:
  assumes "\<And>b. b \<in> set bs \<Longrightarrow> b = 0 \<or> b = 1"
  shows "map uint (map (\<lambda>b. word_of_int (b AND 1) :: u8) bs) = bs"
proof -
  have "uint (word_of_int (b AND 1) :: u8) = b" if "b \<in> set bs" for b
    using assms [OF that] by auto
  then show ?thesis by (auto intro: map_idI)
qed

lemma push_byte_as_pushes:
  assumes "bitq_inv q" and "sm_bitq_count q + 10 \<le> 65536"
  shows "sm_bitq_push_byte q w = (0, foldl (\<lambda>q b. snd (sm_bitq_push q b)) q (frame_bits w))"
proof -
  have "unat (bq_head q - bq_tail q + 10) = sm_bitq_count q + 10"
    using assms(2) unfolding sm_bitq_count_def by (simp add: unat_word_ariths)
  then have "\<not> bq_head q - bq_tail q + 10 > SM_BITQ_SIZE"
    using assms(2) by (simp add: word_less_nat_alt bitq_size_unat)
  then show ?thesis
    by (simp add: sm_bitq_push_byte_def frame_bits_def Let_def foldl_map)
qed

lemma push_byte_refused:
  assumes "bitq_inv q" and "65536 < sm_bitq_count q + 10"
  shows "sm_bitq_push_byte q w = (-1, q)"
proof -
  from assms(1) have "sm_bitq_count q \<le> 65536" by (simp add: bitq_inv_def)
  then have "unat (bq_head q - bq_tail q + 10) = sm_bitq_count q + 10"
    unfolding sm_bitq_count_def by (simp add: unat_word_ariths)
  then have "bq_head q - bq_tail q + 10 > SM_BITQ_SIZE"
    using assms(2) by (simp add: word_less_nat_alt bitq_size_unat)
  then show ?thesis by (simp add: sm_bitq_push_byte_def)
qed

text \<open>Queueing a whole buffer byte by byte, as the BBS, echo and pppd paths do.\<close>

definition push_bytes :: "bitq \<Rightarrow> u8 list \<Rightarrow> bitq" where
  "push_bytes q bs = foldl (\<lambda>q w. snd (sm_bitq_push_byte q w)) q bs"

lemma push_bytes_items:
  assumes "bitq_inv q" and "sm_bitq_count q + 10 * length bs \<le> 65536"
  shows "bitq_inv (push_bytes q bs)
       \<and> bitq_items (push_bytes q bs)
           = bitq_items q @ map (\<lambda>b. word_of_int (b AND 1)) (concat (map frame_bits bs))"
  using assms
proof (induction bs arbitrary: q)
  case Nil
  then show ?case by (simp add: push_bytes_def)
next
  case (Cons w bs)
  let ?q = "snd (sm_bitq_push_byte q w)"
  have *: "bitq_inv ?q" "bitq_items ?q = bitq_items q @ map (\<lambda>b. word_of_int (b AND 1)) (frame_bits w)"
    using bitq.push_list [of q "frame_bits w"] Cons.prems by (simp_all add: push_byte_as_pushes)
  then have "sm_bitq_count ?q = sm_bitq_count q + 10"
    using length_bitq_items [of ?q] by simp
  with Cons.IH [of ?q] Cons.prems * show ?case by (simp add: push_bytes_def)
qed

subsection \<open>The deframer\<close>

lemma deframer_data_step:
  assumes "df_state d = 1" and "length (df_out d) < 4096"
  shows "sm_deframer_bit d b = d\<lparr>df_state := (if df_nbits d + 1 \<ge> 8 then 2 else 1),
     df_nbits := df_nbits d + 1,
     df_byte := df_byte d OR push_bit (nat (df_nbits d)) (b AND 1), df_prev := b AND 1\<rparr>"
  using assms by (simp add: sm_deframer_bit_def DF_OUT_SIZE_def)

lemma deframer_data_bits:
  fixes w :: u8
  assumes "df_state d = 1" and "df_nbits d = 0" and "df_byte d = 0" and "length (df_out d) < 4096" and "n \<le> 8"
  shows "\<exists>p. foldl sm_deframer_bit d (map (\<lambda>i. uint (drop_bit i w AND 1)) [0..<n])
           = d\<lparr>df_state := (if n = 8 then 2 else 1), df_nbits := int n, df_byte := take_bit n (uint w), df_prev := p\<rparr>"
  using assms(5)
proof (induction n)
  case 0
  then show ?case using assms by (intro exI [of _ "df_prev d"]) simp
next
  case (Suc n)
  let ?f = "foldl sm_deframer_bit d (map (\<lambda>i. uint (drop_bit i w AND 1)) [0..<n])"
  from Suc obtain p where p: "?f = d\<lparr>df_state := (if n = 8 then 2 else 1), df_nbits := int n,
      df_byte := take_bit n (uint w), df_prev := p\<rparr>" by auto
  note b = uint_bit_extract [of n w]
  have acc: "take_bit n (uint w) OR push_bit n (of_bool (bit (uint w) n)) = take_bit (Suc n) (uint w)"
    by (rule bit_eqI) (auto simp: bit_simps less_Suc_eq)
  have "foldl sm_deframer_bit d (map (\<lambda>i. uint (drop_bit i w AND 1)) [0..<Suc n])
      = sm_deframer_bit ?f (of_bool (bit (uint w) n))"
    by (simp add: b)
  also have "\<dots> = d\<lparr>df_state := (if Suc n = 8 then 2 else 1), df_nbits := int (Suc n),
      df_byte := take_bit (Suc n) (uint w), df_prev := of_bool (bit (uint w) n) AND 1\<rparr>"
    unfolding p using Suc.prems assms(4) acc by (subst deframer_data_step) auto
  finally show ?case by blast
qed

text \<open>From the idle state a whole frame yields exactly its byte.\<close>

lemma deframer_frame:
  assumes "df_state d = 0" and "df_prev d = 1" and "length (df_out d) < 4096"
  shows "df_state (foldl sm_deframer_bit d (frame_bits w)) = 0"
    and "df_prev (foldl sm_deframer_bit d (frame_bits w)) = 1"
    and "df_out (foldl sm_deframer_bit d (frame_bits w)) = df_out d @ [w]"
    and "df_framing_errors (foldl sm_deframer_bit d (frame_bits w)) = df_framing_errors d"
    and "df_bytes_out (foldl sm_deframer_bit d (frame_bits w)) = df_bytes_out d + 1"
proof -
  let ?d1 = "sm_deframer_bit d 0"
  have d1: "?d1 = d\<lparr>df_state := 1, df_nbits := 0, df_byte := 0, df_prev := 0\<rparr>"
    using assms by (simp add: sm_deframer_bit_def DF_OUT_SIZE_def)
  obtain p where "foldl sm_deframer_bit ?d1 (map (\<lambda>i. uint (drop_bit i w AND 1)) [0..<8])
      = ?d1\<lparr>df_state := 2, df_nbits := 8, df_byte := take_bit 8 (uint w), df_prev := p\<rparr>"
    using deframer_data_bits [of ?d1 8 w] d1 assms(3) by auto
  moreover have "word_of_int (take_bit 8 (uint w)) = w"
    by (subst take_bit_int_eq_self) (use uint_lt2p [of w] in auto)
  ultimately have "foldl sm_deframer_bit d (frame_bits w)
      = ?d1\<lparr>df_state := 0, df_nbits := 8, df_byte := take_bit 8 (uint w), df_prev := 1,
            df_out := df_out d @ [w], df_bytes_out := df_bytes_out d + 1\<rparr>"
    using assms(3) d1 by (simp add: frame_bits_def sm_deframer_bit_def DF_OUT_SIZE_def)
  then show "df_state (foldl sm_deframer_bit d (frame_bits w)) = 0"
    "df_prev (foldl sm_deframer_bit d (frame_bits w)) = 1"
    "df_out (foldl sm_deframer_bit d (frame_bits w)) = df_out d @ [w]"
    "df_framing_errors (foldl sm_deframer_bit d (frame_bits w)) = df_framing_errors d"
    "df_bytes_out (foldl sm_deframer_bit d (frame_bits w)) = df_bytes_out d + 1"
    by (simp_all add: d1)
qed

lemma deframer_stream:
  assumes "df_state d = 0" and "df_prev d = 1" and "length (df_out d) + length bs \<le> 4096"
  shows "df_out (foldl sm_deframer_bit d (concat (map frame_bits bs))) = df_out d @ bs
       \<and> df_framing_errors (foldl sm_deframer_bit d (concat (map frame_bits bs))) = df_framing_errors d"
  using assms
proof (induction bs arbitrary: d)
  case Nil
  then show ?case by simp
next
  case (Cons w bs)
  note f = deframer_frame [of d w]
  show ?case using Cons.IH [of "foldl sm_deframer_bit d (frame_bits w)"] Cons.prems f by simp
qed

definition deframer_inv :: "deframer \<Rightarrow> bool" where
  "deframer_inv d \<longleftrightarrow>
     (df_state d = 0 \<or> df_state d = 1 \<and> 0 \<le> df_nbits d \<and> df_nbits d < 8 \<and> df_byte d < 2 ^ nat (df_nbits d)
        \<or> df_state d = 2 \<and> df_byte d < 256)
     \<and> 0 \<le> df_byte d \<and> (df_prev d = 0 \<or> df_prev d = 1) \<and> length (df_out d) \<le> 4096"

lemma deframer_inv_init [inv_intros]: "deframer_inv sm_deframer_init"
  by (simp add: deframer_inv_def sm_deframer_init_def)

lemma shift_in_bound:
  fixes x b :: int
  assumes "0 \<le> x" and "x < 2 ^ k" and "b = 0 \<or> b = 1"
  shows "x OR push_bit k b < 2 ^ Suc k \<and> 0 \<le> x OR push_bit k b"
proof -
  have "take_bit (Suc k) (x OR push_bit k b) = x OR push_bit k b"
    using assms
    by (auto simp: take_bit_or take_bit_push_bit take_bit_int_eq_self push_bit_eq_mult)
  then show ?thesis
    by (metis take_bit_int_less_exp take_bit_nonnegative)
qed

lemma and_1_cases: "(b AND 1 :: int) = 0 \<or> (b AND 1 :: int) = 1"
  by (auto simp: and_one_eq)

lemma deframer_data_inv:
  assumes d: "deframer_inv d" and st: "df_state d = 1" and room: "length (df_out d) < 4096"
  shows "deframer_inv (sm_deframer_bit d b)"
proof -
  from d st have n: "0 \<le> df_nbits d" "df_nbits d < 8" "0 \<le> df_byte d" "df_byte d < 2 ^ nat (df_nbits d)"
    by (auto simp: deframer_inv_def)
  note sh = shift_in_bound [OF n(3,4) and_1_cases [of b]]
  have e: "(2::int) ^ Suc (nat (df_nbits d)) = 2 ^ nat (df_nbits d + 1)"
    using n by (simp add: nat_add_distrib)
  show ?thesis
  proof (cases "df_nbits d + 1 \<ge> 8")
    case True
    with n have "nat (df_nbits d) = 7" by simp
    with sh True n room and_1_cases [of b] show ?thesis
      unfolding deframer_data_step [OF st room] deframer_inv_def by simp
  next
    case False
    with sh e n room and_1_cases [of b] show ?thesis
      unfolding deframer_data_step [OF st room] deframer_inv_def by simp
  qed
qed

lemma deframer_bit_inv [inv_intros]:
  assumes "deframer_inv d"
  shows "deframer_inv (sm_deframer_bit d b)"
proof -
  define d' where "d' = (if length (df_out d) \<ge> DF_OUT_SIZE then d\<lparr>df_out := []\<rparr> else d)"
  have d: "deframer_inv d'" and room: "length (df_out d') < 4096"
    using assms by (auto simp: d'_def deframer_inv_def DF_OUT_SIZE_def)
  have "sm_deframer_bit d b = sm_deframer_bit d' b"
    by (simp add: d'_def sm_deframer_bit_def DF_OUT_SIZE_def)
  moreover consider "df_state d' = 0" | "df_state d' = 1" | "df_state d' = 2"
    using d by (auto simp: deframer_inv_def)
  then have "deframer_inv (sm_deframer_bit d' b)"
  proof cases
    case 1
    with d room and_1_cases [of b] show ?thesis
      by (auto simp: sm_deframer_bit_def deframer_inv_def DF_OUT_SIZE_def Let_def)
  next
    case 2
    with d room show ?thesis by (intro deframer_data_inv)
  next
    case 3
    with d room and_1_cases [of b] show ?thesis
      by (auto simp: sm_deframer_bit_def deframer_inv_def DF_OUT_SIZE_def Let_def)
  qed
  ultimately show ?thesis by simp
qed

lemma deframer_take_inv [inv_intros]: "deframer_inv d \<Longrightarrow> deframer_inv (snd (sm_deframer_take d n))"
  by (auto simp: deframer_inv_def sm_deframer_take_def Let_def)

lemma deframer_bits_inv: "deframer_inv d \<Longrightarrow> deframer_inv (foldl sm_deframer_bit d bs)"
  by (induction bs arbitrary: d) (auto intro: inv_intros)

text \<open>\<open>k\<close> ones complete a partial byte and its stop bit, whatever was being received.\<close>

lemma deframer_idle_step:
  assumes "deframer_inv d"
  shows "df_state d = 0 \<Longrightarrow> df_state (sm_deframer_bit d 1) = 0 \<and> df_prev (sm_deframer_bit d 1) = 1"
    and "df_state d = 2 \<Longrightarrow> df_state (sm_deframer_bit d 1) = 0 \<and> df_prev (sm_deframer_bit d 1) = 1"
    and "df_state d = 1 \<Longrightarrow> df_nbits (sm_deframer_bit d 1) = df_nbits d + 1
           \<and> df_state (sm_deframer_bit d 1) = (if df_nbits d + 1 \<ge> 8 then 2 else 1)"
  by (simp_all add: sm_deframer_bit_def DF_OUT_SIZE_def Let_def)

lemma deframer_idle_stays:
  "deframer_inv d \<Longrightarrow> df_state d = 0 \<Longrightarrow> 0 < n \<Longrightarrow>
     df_state (foldl sm_deframer_bit d (replicate n 1)) = 0
     \<and> df_prev (foldl sm_deframer_bit d (replicate n 1)) = 1"
proof (induction n arbitrary: d)
  case (Suc n)
  with deframer_idle_step [of d] deframer_bit_inv [of d 1] Suc.IH [of "sm_deframer_bit d 1"]
  show ?case by (cases n) auto
qed simp

lemma deframer_data_ends:
  "deframer_inv d \<Longrightarrow> df_state d = 1 \<Longrightarrow> df_nbits d + int k = 8 \<Longrightarrow>
     df_state (foldl sm_deframer_bit d (replicate k 1)) = 2"
proof (induction k arbitrary: d)
  case 0
  then show ?case by (simp add: deframer_inv_def)
next
  case (Suc k)
  show ?case
  proof (cases k)
    case 0
    with Suc.prems deframer_idle_step [of d] show ?thesis by simp
  next
    case (Suc j)
    with Suc.prems deframer_idle_step [of d] deframer_bit_inv [of d 1] Suc.IH [of "sm_deframer_bit d 1"]
    show ?thesis by simp
  qed
qed

lemma deframer_idle_resync:
  assumes inv: "deframer_inv d" and n: "9 \<le> n"
  shows "df_state (foldl sm_deframer_bit d (replicate n 1)) = 0
       \<and> df_prev (foldl sm_deframer_bit d (replicate n 1)) = 1"
proof -
  consider "df_state d = 0" | "df_state d = 1" | "df_state d = 2"
    using inv by (auto simp: deframer_inv_def)
  then show ?thesis
  proof cases
    case 1
    with inv n show ?thesis by (intro deframer_idle_stays) auto
  next
    case 3
    obtain m where m: "n = Suc m" "0 < m" using n by (cases n) auto
    show ?thesis
      using deframer_idle_stays [of "sm_deframer_bit d 1" m] deframer_bit_inv [OF inv, of 1]
        deframer_idle_step(2) [OF inv 3] m by simp
  next
    case 2
    define k where "k = nat (8 - df_nbits d)"
    have k: "df_nbits d + int k = 8" "k \<le> 8"
      using inv 2 by (auto simp: deframer_inv_def k_def)
    define m where "m = n - Suc k"
    have m: "n = k + Suc m" using n k(2) by (simp add: m_def)
    let ?d = "foldl sm_deframer_bit d (replicate k 1)"
    have d: "df_state ?d = 2" "deframer_inv ?d"
      using deframer_data_ends [OF inv 2 k(1)] deframer_bits_inv [OF inv] by auto
    let ?e = "sm_deframer_bit ?d 1"
    have e: "df_state ?e = 0 \<and> df_prev ?e = 1" "deframer_inv ?e"
      using deframer_idle_step(2) [OF d(2,1)] deframer_bit_inv [OF d(2)] by auto
    have "foldl sm_deframer_bit d (replicate n 1) = foldl sm_deframer_bit ?e (replicate m 1)"
      unfolding m replicate_add foldl_append by simp
    with e deframer_idle_stays [OF e(2), of m] show ?thesis by (cases m) auto
  qed
qed

subsection \<open>Properties\<close>

lemma bitq_inv_init [inv_intros]: "bitq_inv sm_bitq_init"
  by (simp add: bitq_inv_def sm_bitq_init_def sm_bitq_count_def)

lemma bitq_items_init [simp]: "bitq_items sm_bitq_init = []"
  by (simp add: bitq_items_def sm_bitq_count_def sm_bitq_init_def)

text \<open>Popping \<open>n\<close> bits, as the modem transmitter does.\<close>

fun pop_bits :: "nat \<Rightarrow> bitq \<Rightarrow> int list \<times> bitq" where
  "pop_bits 0 q = ([], q)"
| "pop_bits (Suc n) q =
     (let (b, q1) = sm_bitq_pop q; (bs, q2) = pop_bits n q1 in (b # bs, q2))"

lemma pop_bits_items:
  "bitq_inv q \<Longrightarrow> n \<le> length (bitq_items q) \<Longrightarrow>
     fst (pop_bits n q) = map uint (take n (bitq_items q))
     \<and> bitq_items (snd (pop_bits n q)) = drop n (bitq_items q)"
proof (induction n arbitrary: q)
  case (Suc n)
  then obtain b bs where eq: "bitq_items q = b # bs"
    by (cases "bitq_items q") auto
  with Suc.prems bitq.pop_cons [of q b bs] bitq.inv_pop [of q] Suc.IH [of "snd (sm_bitq_pop q)"]
  have "length bs = sm_bitq_count q - 1" by (metis length_bitq_items length_Cons diff_Suc_1)
  with Suc.prems eq bitq.pop_cons [of q b bs] bitq.inv_pop [of q] Suc.IH [of "snd (sm_bitq_pop q)"]
  show ?case by (auto simp: case_prod_beta Let_def)
qed simp

text \<open>C15: the bit queue is a bounded first-in first-out queue of bits, for every value of its
  wrapping 32-bit counters: a push below capacity appends the low bit of its argument, a push at
  capacity returns -1 and changes nothing, a pop returns the oldest bit or -1 when empty.\<close>

theorem bitq_fifo:
  assumes "bitq_inv q"
  shows "bitq_inv (snd (sm_bitq_push q b)) \<and> bitq_inv (snd (sm_bitq_pop q))
    \<and> (if length (bitq_items q) < 65536
        then fst (sm_bitq_push q b) = 0
             \<and> bitq_items (snd (sm_bitq_push q b)) = bitq_items q @ [word_of_int (b AND 1)]
        else sm_bitq_push q b = (-1, q))
    \<and> (case bitq_items q of [] \<Rightarrow> sm_bitq_pop q = (-1, q)
        | c # cs \<Rightarrow> fst (sm_bitq_pop q) = uint c \<and> bitq_items (snd (sm_bitq_pop q)) = cs)"
proof -
  have "length (bitq_items q) = 65536" if "\<not> length (bitq_items q) < 65536"
    using that bitq.bounded [OF assms] by linarith
  then have "if length (bitq_items q) < 65536
      then fst (sm_bitq_push q b) = 0
           \<and> bitq_items (snd (sm_bitq_push q b)) = bitq_items q @ [word_of_int (b AND 1)]
      else sm_bitq_push q b = (-1, q)"
    using bitq.push_ok [OF assms] bitq.push_full [OF assms] by presburger
  moreover have "case bitq_items q of [] \<Rightarrow> sm_bitq_pop q = (-1, q)
      | c # cs \<Rightarrow> fst (sm_bitq_pop q) = uint c \<and> bitq_items (snd (sm_bitq_pop q)) = cs"
    using bitq.pop_empty [OF assms] bitq.pop_cons [OF assms] by (auto split: list.split)
  ultimately show ?thesis
    using bitq.inv_push [OF assms] bitq.inv_pop [OF assms] by blast
qed

theorem bitq_fifo_witness:
  "let q = \<lparr>bq_bits = (\<lambda>_. 1), bq_head = 1, bq_tail = 0xFFFFFFFF\<rparr>
   in bitq_inv q \<and> bitq_items (snd (sm_bitq_push q 6)) = [1, 1, 0]"
proof -
  let ?q = "\<lparr>bq_bits = (\<lambda>_. 1), bq_head = 1, bq_tail = 0xFFFFFFFF\<rparr>"
  have c: "sm_bitq_count ?q = 2" by (simp add: sm_bitq_count_def)
  then have inv: "bitq_inv ?q" and it: "bitq_items ?q = [1, 1]"
    by (simp_all add: bitq_inv_def bitq_items_def upt_rec)
  with bitq_fifo [OF inv, of 6] show ?thesis by (simp del: length_bitq_items)
qed

text \<open>C2: bytes framed into an empty queue, popped bit by bit and fed to a fresh deframer come
  out unchanged and in order, with no framing error, up to the deframer's 4096-byte buffer.\<close>

theorem serial_roundtrip:
  assumes "bitq_inv q" and "bitq_items q = []" and "length bs \<le> 4096"
  shows "let (line, q') = pop_bits (10 * length bs) (push_bytes q bs);
             d = foldl sm_deframer_bit sm_deframer_init line
         in df_out d = bs \<and> df_framing_errors d = 0 \<and> bitq_items q' = []"
proof -
  let ?line = "concat (map frame_bits bs)"
  have c: "sm_bitq_count q + 10 * length bs \<le> 65536"
    using assms length_bitq_items [of q] by simp
  note pushed = push_bytes_items [OF assms(1) c]
  have len: "length ?line = 10 * length bs"
    by (simp add: length_concat comp_def sum_list_triv)
  have "map uint (map (\<lambda>b. word_of_int (b AND 1) :: u8) ?line) = ?line"
    by (rule word_of_bit_back) (auto dest: frame_bits_bits)
  with pushed len pop_bits_items [of "push_bytes q bs" "10 * length bs"] assms(2)
  have "fst (pop_bits (10 * length bs) (push_bytes q bs)) = ?line"
    "bitq_items (snd (pop_bits (10 * length bs) (push_bytes q bs))) = []"
    by simp_all
  moreover have "df_out (foldl sm_deframer_bit sm_deframer_init ?line) = bs
      \<and> df_framing_errors (foldl sm_deframer_bit sm_deframer_init ?line) = 0"
    using deframer_stream [of sm_deframer_init bs] assms(3) by (simp add: sm_deframer_init_def)
  ultimately show ?thesis by (simp add: case_prod_beta Let_def)
qed

theorem serial_roundtrip_witness:
  "let (line, q') = pop_bits 20 (push_bytes sm_bitq_init [0x7E, 0xFF])
   in df_out (foldl sm_deframer_bit sm_deframer_init line) = [0x7E, 0xFF]"
  using serial_roundtrip [of sm_bitq_init "[0x7E, 0xFF]"]
  by (simp add: bitq_inv_init case_prod_beta Let_def)

text \<open>whatever the deframer was in the middle of, nine idle ones bring it back to hunting for
  a start bit, and the bytes framed after that are received intact at the end of its buffer.\<close>

theorem deframer_recovers:
  assumes "deframer_inv d" and "9 \<le> n" and "length (df_out d) + n + length bs \<le> 4096"
  shows "\<exists>pre. df_out (foldl sm_deframer_bit d (replicate n 1 @ concat (map frame_bits bs))) = pre @ bs"
proof -
  let ?d = "foldl sm_deframer_bit d (replicate n 1)"
  have grow: "length (df_out (foldl sm_deframer_bit e xs)) \<le> length (df_out e) + length xs" for e xs
  proof (induction xs arbitrary: e)
    case (Cons x xs)
    have "length (df_out (sm_deframer_bit e x)) \<le> Suc (length (df_out e))"
      by (simp add: sm_deframer_bit_def Let_def)
    with Cons.IH [of "sm_deframer_bit e x"] show ?case by simp
  qed simp
  have "df_state ?d = 0" "df_prev ?d = 1"
    using deframer_idle_resync [OF assms(1,2)] by simp_all
  moreover have "length (df_out ?d) + length bs \<le> 4096"
    using grow [of d "replicate n 1"] assms(3) by simp
  ultimately show ?thesis
    using deframer_stream [of ?d bs] by auto
qed

theorem deframer_recovers_witness:
  "\<exists>pre. df_out (foldl sm_deframer_bit (sm_deframer_init\<lparr>df_state := 1, df_nbits := 3, df_byte := 5\<rparr>)
           (replicate 9 1 @ concat (map frame_bits [0x41]))) = pre @ [0x41]"
  by (rule deframer_recovers) (simp_all add: deframer_inv_def sm_deframer_init_def)

text \<open>Every bit fed to the deframer keeps it well formed: a state it knows, at most eight bits
  collected into a byte below 256, and never more than 4096 buffered bytes.\<close>

theorem deframer_well_formed:
  assumes "deframer_inv d"
  shows "deframer_inv (foldl sm_deframer_bit d bs) \<and> deframer_inv (snd (sm_deframer_take d n))"
  by (intro conjI deframer_bits_inv deframer_take_inv assms)

theorem deframer_well_formed_witness:
  "deframer_inv (foldl sm_deframer_bit sm_deframer_init [0, 1, 7, -3, 0, 0])"
  using deframer_well_formed [OF deframer_inv_init] by blast

end
