(* ===== verification/Ring.thy ===== *)
theory Ring
  imports Prelude
begin

text \<open>
  The PCM ring of \<open>src/src/audio/sm_ring.c\<close>. Positions are 64-bit sequence numbers that
  wrap; the storage is \<open>None\<close> when \<open>malloc\<close> failed or after \<open>sm_ring_destroy\<close>. The mutex of
  the locked mode (\<open>spsc = 0\<close>) is a default, non-recursive one: locking it again in the same
  thread does not return, which is the fault \<open>Deadlock\<close>.
\<close>

record sm_ring =
  rg_buf :: "(u64 \<Rightarrow> u16) option"
  rg_capacity :: u64
  rg_head :: u64
  rg_tail :: u64
  rg_spsc :: int
  rg_locked :: bool

datatype ring_fault = Deadlock | NullBuffer

text \<open>The argument \<open>mem\<close> is what \<open>malloc\<close> returned: uninitialised storage or NULL.\<close>

definition sm_ring_init :: "(u64 \<Rightarrow> u16) option \<Rightarrow> u64 \<Rightarrow> int \<Rightarrow> sm_ring" where
  "sm_ring_init mem cap spsc = \<lparr>rg_buf = mem, rg_capacity = cap, rg_head = 0, rg_tail = 0,
     rg_spsc = spsc, rg_locked = False\<rparr>"

definition sm_ring_destroy :: "sm_ring \<Rightarrow> sm_ring" where
  "sm_ring_destroy r = r\<lparr>rg_buf := None\<rparr>"

definition ring_lock :: "sm_ring \<Rightarrow> ring_fault + sm_ring" where
  "ring_lock r = (if rg_spsc r = 0
     then (if rg_locked r then Inl Deadlock else Inr (r\<lparr>rg_locked := True\<rparr>)) else Inr r)"

definition ring_unlock :: "sm_ring \<Rightarrow> sm_ring" where
  "ring_unlock r = (if rg_spsc r = 0 then r\<lparr>rg_locked := False\<rparr> else r)"

definition ring_fill :: "sm_ring \<Rightarrow> u64" where
  "ring_fill r = (let n = rg_head r - rg_tail r in if n > rg_capacity r then rg_capacity r else n)"

definition sm_ring_readable :: "sm_ring \<Rightarrow> ring_fault + u64 \<times> sm_ring" where
  "sm_ring_readable r =
     (case ring_lock r of Inl e \<Rightarrow> Inl e | Inr r1 \<Rightarrow> Inr (ring_fill r1, ring_unlock r1))"

definition sm_ring_writable :: "sm_ring \<Rightarrow> ring_fault + u64 \<times> sm_ring" where
  "sm_ring_writable r =
     (case sm_ring_readable r of Inl e \<Rightarrow> Inl e | Inr (fill, r1) \<Rightarrow> Inr (rg_capacity r1 - fill, r1))"

definition sm_ring_write :: "sm_ring \<Rightarrow> u16 list \<Rightarrow> ring_fault + nat \<times> sm_ring" where
  "sm_ring_write r data =
     (case ring_lock r of Inl e \<Rightarrow> Inl e
      | Inr r1 \<Rightarrow>
        (case sm_ring_readable r1 of Inl e \<Rightarrow> Inl e
         | Inr (fill, r2) \<Rightarrow>
           (let space = unat (rg_capacity r2 - fill);
                len = (if length data > space then space else length data);
                mask = rg_capacity r2 - 1;
                r3 = r2\<lparr>rg_buf := map_option (\<lambda>b.
                        slot_store b (\<lambda>i. (rg_head r2 + of_nat i) AND mask) 0 (take len data)) (rg_buf r2),
                      rg_head := rg_head r2 + of_nat len\<rparr>
            in if 0 < len \<and> rg_buf r2 = None then Inl NullBuffer
               else Inr (len, ring_unlock r3))))"

text \<open>\<open>keep\<close> tells whether the caller passed a destination; without one the samples are dropped.\<close>

definition sm_ring_read :: "sm_ring \<Rightarrow> nat \<Rightarrow> bool \<Rightarrow> ring_fault + (nat \<times> u16 list) \<times> sm_ring" where
  "sm_ring_read r len0 keep =
     (case ring_lock r of Inl e \<Rightarrow> Inl e
      | Inr r1 \<Rightarrow>
        (case sm_ring_readable r1 of Inl e \<Rightarrow> Inl e
         | Inr (avail, r2) \<Rightarrow>
           (let len = (if len0 > unat avail then unat avail else len0);
                mask = rg_capacity r2 - 1;
                r3 = r2\<lparr>rg_tail := rg_tail r2 + of_nat len\<rparr>
            in case rg_buf r2 of
                 None \<Rightarrow> if keep \<and> 0 < len then Inl NullBuffer else Inr ((len, []), ring_unlock r3)
               | Some b \<Rightarrow>
                   Inr ((len, if keep then map (\<lambda>i. b ((rg_tail r2 + of_nat i) AND mask)) [0..<len] else []),
                        ring_unlock r3))))"

definition sm_ring_drop :: "sm_ring \<Rightarrow> nat \<Rightarrow> ring_fault + nat \<times> sm_ring" where
  "sm_ring_drop r len0 =
     (case sm_ring_readable r of Inl e \<Rightarrow> Inl e
      | Inr (avail, r1) \<Rightarrow>
        (let len = (if len0 > unat avail then unat avail else len0)
         in Inr (len, r1\<lparr>rg_tail := rg_tail r1 + of_nat len\<rparr>)))"

definition sm_ring_clear :: "sm_ring \<Rightarrow> ring_fault + sm_ring" where
  "sm_ring_clear r =
     (case ring_lock r of Inl e \<Rightarrow> Inl e | Inr r1 \<Rightarrow> Inr (ring_unlock (r1\<lparr>rg_tail := rg_head r1\<rparr>)))"

text \<open>The contiguous span at the read position: its offset into the storage and its length.\<close>

definition sm_ring_peek :: "sm_ring \<Rightarrow> ring_fault + (nat \<times> nat) \<times> sm_ring" where
  "sm_ring_peek r =
     (let mask = rg_capacity r - 1;
          off = rg_tail r AND mask;
          to_end = rg_capacity r - off
      in case sm_ring_readable r of Inl e \<Rightarrow> Inl e
         | Inr (fill, r1) \<Rightarrow> Inr ((unat off, if to_end < fill then unat to_end else unat fill), r1))"

subsection \<open>The ring as a bounded FIFO of samples\<close>

definition pow2_capacity :: "u64 \<Rightarrow> bool" where
  "pow2_capacity c \<longleftrightarrow> (\<exists>k < 64. c = 2 ^ k)"

definition ring_items :: "sm_ring \<Rightarrow> u16 list" where
  "ring_items r = map (\<lambda>i. the (rg_buf r) ((rg_tail r + of_nat i) AND (rg_capacity r - 1)))
     [0..<unat (rg_head r - rg_tail r)]"

definition ring_inv :: "sm_ring \<Rightarrow> bool" where
  "ring_inv r \<longleftrightarrow> pow2_capacity (rg_capacity r) \<and> rg_head r - rg_tail r \<le> rg_capacity r
     \<and> rg_buf r \<noteq> None \<and> \<not> rg_locked r"

interpretation ring_window: circular "\<lambda>(c :: u64, t :: u64). unat c" "\<lambda>(c, t). pow2_capacity c"
    "\<lambda>(c, t) i. (t + of_nat i) AND (c - 1)" "\<lambda>(c, t) k. (c, t + of_nat k)"
proof unfold_locales
  fix p :: "u64 \<times> u64" and i j :: nat
  obtain c t where p: "p = (c, t)" by (cases p)
  assume v: "case p of (c, t) \<Rightarrow> pow2_capacity c"
    and ij: "i < (case p of (c, t) \<Rightarrow> unat c)" "j < (case p of (c, t) \<Rightarrow> unat c)"
    and eq: "(case p of (c, t) \<Rightarrow> \<lambda>i. (t + of_nat i) AND (c - 1)) i
           = (case p of (c, t) \<Rightarrow> \<lambda>i. (t + of_nat i) AND (c - 1)) j"
  from v p obtain k where k: "k < 64" "c = 2 ^ k" by (auto simp: pow2_capacity_def)
  then have "c - 1 = mask k" by (simp add: mask_eq_exp_minus_1)
  moreover have "unat c = 2 ^ k"
    using k unat_pow2 [where ?'a = 64, of k] by simp
  moreover note k
  ultimately show "i = j"
    using masked_slot_inj [of k i j t] ij eq p by simp
qed (auto simp: add.assoc)

lemma length_ring_items [simp]: "length (ring_items r) = unat (rg_head r - rg_tail r)"
  by (simp add: ring_items_def)

lemma ring_fill_inv: "ring_inv r \<Longrightarrow> ring_fill r = rg_head r - rg_tail r"
  by (auto simp: ring_fill_def ring_inv_def Let_def)

lemma ring_items_write:
  assumes inv: "ring_inv r" and room: "length (ring_items r) + length xs \<le> unat (rg_capacity r)"
  shows "ring_items (r\<lparr>rg_buf := map_option (\<lambda>b. slot_store b (\<lambda>i. (rg_head r + of_nat i) AND (rg_capacity r - 1)) 0 xs) (rg_buf r),
            rg_head := rg_head r + of_nat (length xs)\<rparr>) = ring_items r @ xs"
    and "rg_head r + of_nat (length xs) - rg_tail r \<le> rg_capacity r"
proof -
  let ?n = "unat (rg_head r - rg_tail r)"
  obtain b where b: "rg_buf r = Some b" using inv by (auto simp: ring_inv_def)
  have shift: "slot_store b (\<lambda>i. (h + of_nat i) AND m) j ys = slot_store b (\<lambda>i. (t + of_nat i) AND m) (n + j) ys"
    if "h = t + of_nat n" for b :: "u64 \<Rightarrow> u16" and h t m n j ys
    using that by (induction ys arbitrary: b j) (auto simp: add.assoc)
  have h: "rg_head r = rg_tail r + of_nat ?n" by simp
  have lt: "?n + length xs < 2 ^ 64"
    using room unsigned_less [where ?'a = nat, of "rg_capacity r"] by simp
  have len: "unat (rg_head r + of_nat (length xs) - rg_tail r) = ?n + length xs"
  proof -
    have "rg_head r + of_nat (length xs) - rg_tail r = of_nat (?n + length xs)"
      by simp
    then show ?thesis using lt by (simp add: unsigned_of_nat take_bit_nat_eq_self del: of_nat_add)
  qed
  show "rg_head r + of_nat (length xs) - rg_tail r \<le> rg_capacity r"
    using len room by (simp add: word_le_nat_alt)
  have w: "map (\<lambda>i. slot_store b (\<lambda>i. (rg_tail r + of_nat i) AND (rg_capacity r - 1)) ?n xs
        ((rg_tail r + of_nat i) AND (rg_capacity r - 1))) [0..<?n + length xs]
      = map (\<lambda>i. b ((rg_tail r + of_nat i) AND (rg_capacity r - 1))) [0..<?n] @ xs"
    using ring_window.window_store [where p = "(rg_capacity r, rg_tail r)" and n = ?n and xs = xs and buf = b]
      inv room by (simp add: ring_inv_def)
  show "ring_items (r\<lparr>rg_buf := map_option (\<lambda>b. slot_store b (\<lambda>i. (rg_head r + of_nat i) AND (rg_capacity r - 1)) 0 xs) (rg_buf r),
            rg_head := rg_head r + of_nat (length xs)\<rparr>) = ring_items r @ xs"
    using w shift [OF h, of b "rg_capacity r - 1" 0 xs] b len by (simp add: ring_items_def)
qed

lemma ring_readable_lockfree:
  "ring_inv r \<Longrightarrow> rg_spsc r \<noteq> 0 \<Longrightarrow> sm_ring_readable r = Inr (rg_head r - rg_tail r, r)"
  by (simp add: sm_ring_readable_def ring_lock_def ring_unlock_def ring_fill_inv)

lemma ring_room:
  "ring_inv r \<Longrightarrow> unat (rg_capacity r - (rg_head r - rg_tail r)) = unat (rg_capacity r) - length (ring_items r)
     \<and> length (ring_items r) \<le> unat (rg_capacity r)"
  unfolding length_ring_items ring_inv_def by (simp add: unat_sub word_le_nat_alt)

lemma ring_write_lockfree:
  assumes inv: "ring_inv r" and "rg_spsc r \<noteq> 0"
    and n: "n = min (length xs) (unat (rg_capacity r) - length (ring_items r))"
  shows "\<exists>r'. sm_ring_write r xs = Inr (n, r') \<and> ring_inv r' \<and> rg_spsc r' = rg_spsc r
              \<and> ring_items r' = ring_items r @ take n xs"
proof -
  note room = ring_room [OF inv]
  obtain b where b: "rg_buf r = Some b" using inv by (auto simp: ring_inv_def)
  have len: "length (take n xs) = n" by (simp add: n)
  let ?r = "r\<lparr>rg_buf := map_option (\<lambda>b. slot_store b (\<lambda>i. (rg_head r + of_nat i) AND (rg_capacity r - 1)) 0 (take n xs)) (rg_buf r),
               rg_head := rg_head r + of_nat (length (take n xs))\<rparr>"
  have le: "length (ring_items r) + length (take n xs) \<le> unat (rg_capacity r)"
  proof -
    have "n \<le> unat (rg_capacity r) - length (ring_items r)" by (simp add: n)
    with room show ?thesis unfolding len by linarith
  qed
  note w = ring_items_write [OF inv le]
  have "ring_inv ?r" using w(2) inv by (simp add: ring_inv_def)
  moreover have "sm_ring_write r xs = Inr (n, ?r)"
    using assms b room
    by (simp add: sm_ring_write_def ring_lock_def ring_unlock_def ring_readable_lockfree Let_def len min_def)
  ultimately show ?thesis using w(1) by (intro exI [of _ ?r]) simp
qed

lemma ring_read_lockfree:
  assumes inv: "ring_inv r" and "rg_spsc r \<noteq> 0" and m: "m = min k (length (ring_items r))"
  shows "\<exists>r'. sm_ring_read r k True = Inr ((m, take m (ring_items r)), r') \<and> ring_inv r'
              \<and> rg_spsc r' = rg_spsc r \<and> ring_items r' = drop m (ring_items r)"
proof -
  let ?n = "unat (rg_head r - rg_tail r)"
  let ?r = "r\<lparr>rg_tail := rg_tail r + of_nat m\<rparr>"
  obtain b where b: "rg_buf r = Some b" using inv by (auto simp: ring_inv_def)
  have mle: "m \<le> ?n" by (simp add: m)
  have out: "map (\<lambda>i. b ((rg_tail r + of_nat i) AND (rg_capacity r - 1))) [0..<m] = take m (ring_items r)"
    unfolding ring_items_def using mle b by (simp add: take_map)
  have len: "(if k > ?n then ?n else k) = m" by (simp add: m min_def)
  have z: "(rg_spsc r = 0) = False" "(rg_spsc ?r = 0) = False" using assms(2) by simp_all
  have "sm_ring_read r k True = Inr ((m, take m (ring_items r)), ?r)"
    using ring_readable_lockfree [OF assms(1,2)] assms(2) b
    by (simp only: sm_ring_read_def ring_lock_def ring_unlock_def Let_def len if_False sum.case
        prod.case option.case if_True out z)
  moreover have sub: "unat (rg_head r - (rg_tail r + of_nat m)) = ?n - m"
  proof -
    have "unat (of_nat m :: u64) = m"
      using mle unsigned_less [where ?'a = nat, of "rg_head r - rg_tail r"] by (simp add: unat_of_nat)
    moreover have "rg_head r - (rg_tail r + of_nat m) = (rg_head r - rg_tail r) - of_nat m"
      by (rule diff_diff_eq [symmetric])
    ultimately show ?thesis
      using mle unat_sub [of "of_nat m" "rg_head r - rg_tail r"] by (simp only: word_le_nat_alt)
  qed
  moreover have "ring_inv ?r"
    using inv sub by (auto simp: ring_inv_def word_le_nat_alt intro: le_trans [OF diff_le_self])
  moreover have "map (\<lambda>i. the (rg_buf r) ((rg_tail r + of_nat m + of_nat i) AND (rg_capacity r - 1))) [0..<?n - m]
      = drop m (ring_items r)"
    unfolding ring_items_def
    using ring_window.window_drop [where p = "(rg_capacity r, rg_tail r)" and k = m and n = ?n
        and buf = "the (rg_buf r)"] mle inv by (simp add: ring_inv_def)
  ultimately show ?thesis by (intro exI [of _ ?r]) (simp add: ring_items_def)
qed

subsection \<open>Properties\<close>

text \<open>C23: without the lock, a write appends as many samples as fit and says how many, and a read
  hands out the oldest samples in order; a write followed by a read returns what was stored. This
  holds for every power-of-two capacity and every value of the wrapping positions.\<close>

theorem ring_write_read:
  assumes "ring_inv r" and "rg_spsc r \<noteq> 0"
  shows "\<exists>r' r''. let n = min (length xs) (unat (rg_capacity r) - length (ring_items r));
                       m = min k (length (ring_items r) + n)
     in sm_ring_write r xs = Inr (n, r')
      \<and> ring_inv r' \<and> ring_items r' = ring_items r @ take n xs
      \<and> sm_ring_read r' k True = Inr ((m, take m (ring_items r @ take n xs)), r'')
      \<and> ring_inv r'' \<and> ring_items r'' = drop m (ring_items r @ take n xs)"
proof -
  define n where "n = min (length xs) (unat (rg_capacity r) - length (ring_items r))"
  obtain r' where w: "sm_ring_write r xs = Inr (n, r')" "ring_inv r'" "rg_spsc r' = rg_spsc r"
    "ring_items r' = ring_items r @ take n xs"
    using ring_write_lockfree [OF assms n_def] by blast
  define m where "m = min k (length (ring_items r) + n)"
  have "m = min k (length (ring_items r'))"
    unfolding w(4) m_def by (simp add: n_def)
  then obtain r'' where "sm_ring_read r' k True = Inr ((m, take m (ring_items r')), r'')" "ring_inv r''"
    "ring_items r'' = drop m (ring_items r')"
    using ring_read_lockfree [OF w(2), of m k] assms(2) w(3) by auto
  with w show ?thesis
    unfolding Let_def n_def [symmetric] m_def [symmetric] by (intro exI [of _ r'] exI [of _ r'']) simp
qed

theorem ring_write_read_witness:
  "\<exists>r' r''. sm_ring_write (sm_ring_init (Some (\<lambda>_. 0)) 4 1) [7, 8, 9, 10, 11] = Inr (4, r')
     \<and> sm_ring_read r' 2 True = Inr ((2, [7, 8]), r'')"
proof -
  let ?r = "sm_ring_init (Some (\<lambda>_. 0)) 4 1"
  have "pow2_capacity 4" unfolding pow2_capacity_def by (rule exI [of _ 2]) simp
  then have inv: "ring_inv ?r" and s: "rg_spsc ?r \<noteq> 0" and it: "ring_items ?r = []" and c: "rg_capacity ?r = 4"
    by (simp_all add: ring_inv_def sm_ring_init_def ring_items_def)
  show ?thesis
    using ring_write_read [OF inv s, of "[7, 8, 9, 10, 11]" 2] unfolding it c Let_def by auto
qed

text \<open>In the locked mode every write and every read takes the mutex and then asks for the fill
  level, which takes the same mutex again: neither ever returns.\<close>

theorem ring_locked_mode_deadlocks:
  assumes "rg_spsc r = 0"
  shows "sm_ring_write r xs = Inl Deadlock \<and> sm_ring_read r k keep = Inl Deadlock"
  using assms by (auto simp: sm_ring_write_def sm_ring_read_def ring_lock_def sm_ring_readable_def)

theorem ring_locked_mode_deadlocks_witness:
  "sm_ring_write (sm_ring_init (Some (\<lambda>_. 0)) 1024 0) [1, 2] = Inl Deadlock"
  using ring_locked_mode_deadlocks [of "sm_ring_init (Some (\<lambda>_. 0)) 1024 0" "[1, 2]" 0 True]
  by (simp add: sm_ring_init_def)

text \<open>Nothing checks that the capacity is a power of two; with any other, samples overwrite each other.\<close>

lemma ring_capacity_three_corrupts:
  "case sm_ring_write (sm_ring_init (Some (\<lambda>_. 0)) 3 1) [1, 2, 3] of
     Inr (n, r) \<Rightarrow> n = 3 \<and> (case sm_ring_read r 3 True of Inr ((m, xs), _) \<Rightarrow> xs = [2, 2, 3] | _ \<Rightarrow> False)
   | Inl _ \<Rightarrow> False"
  by (simp add: sm_ring_write_def sm_ring_read_def sm_ring_init_def ring_lock_def ring_unlock_def
      sm_ring_readable_def ring_fill_def Let_def upt_rec)

end
