(* ===== verification/Ast_Socket.thy ===== *)
theory Ast_Socket
  imports Prelude
begin

text \<open>
  The AudioSocket transport of \<open>src/src/ast_socket/sm_ast_socket.c\<close>. The kernel is an
  explicit list of events: what successive \<open>poll\<close> and \<open>recv\<close> (or \<open>send\<close>) calls on the
  descriptor return. A list that has run out is a \<open>poll\<close> that times out, since every call
  of the code passes \<open>poll\<close> a finite, non-negative timeout. The connection wrapper is the
  record \<open>ast_socket\<close>, one field per C field.
\<close>

definition SM_AS_KIND_HANGUP :: u8 where "SM_AS_KIND_HANGUP = 0x00"
definition SM_AS_KIND_UUID :: u8 where "SM_AS_KIND_UUID = 0x01"
definition SM_AS_KIND_DTMF :: u8 where "SM_AS_KIND_DTMF = 0x03"
definition SM_AS_KIND_AUDIO :: u8 where "SM_AS_KIND_AUDIO = 0x10"
definition SM_AS_KIND_ERROR :: u8 where "SM_AS_KIND_ERROR = 0xFF"
definition SM_AS_MAX_PAYLOAD :: nat where "SM_AS_MAX_PAYLOAD = 4096"

lemmas as_consts = SM_AS_KIND_HANGUP_def SM_AS_KIND_UUID_def SM_AS_KIND_DTMF_def
  SM_AS_KIND_AUDIO_def SM_AS_KIND_ERROR_def SM_AS_MAX_PAYLOAD_def

subsection \<open>Opening and accepting\<close>

text \<open>Results of the system calls of one call to \<open>sm_ast_listen\<close> or \<open>sm_ast_connect\<close>.\<close>

record open_env =
  oe_socket :: int
  oe_pton :: int
  oe_bind :: int
  oe_listen :: int
  oe_connect :: int

text \<open>Each function returns its result and the descriptors it closed on the way out.\<close>

definition sm_ast_listen :: "string option \<Rightarrow> open_env \<Rightarrow> int \<times> int list" where
  "sm_ast_listen bind_addr e =
     (let fd = oe_socket e in
      if fd < 0 then (-1, [])
      else if \<not> (case bind_addr of None \<Rightarrow> True | Some a \<Rightarrow> a = [] \<or> a = ''*'') \<and> oe_pton e \<noteq> 1
      then (-1, [fd])
      else if oe_bind e < 0 \<or> oe_listen e < 0 then (-1, [fd])
      else (fd, []))"

definition sm_ast_listen_unix :: "open_env \<Rightarrow> int \<times> int list" where
  "sm_ast_listen_unix e =
     (let fd = oe_socket e in
      if fd < 0 then (-1, [])
      else if oe_bind e < 0 \<or> oe_listen e < 0 then (-1, [fd])
      else (fd, []))"

definition sm_ast_connect_unix :: "open_env \<Rightarrow> int \<times> int list" where
  "sm_ast_connect_unix e =
     (let fd = oe_socket e in
      if fd < 0 then (-1, [])
      else if oe_connect e < 0 then (-1, [fd])
      else (fd, []))"

definition sm_ast_connect :: "open_env \<Rightarrow> int \<times> int list" where
  "sm_ast_connect e =
     (let fd = oe_socket e in
      if fd < 0 then (-1, [])
      else if oe_pton e \<noteq> 1 then (-1, [fd])
      else if oe_connect e < 0 then (-1, [fd])
      else (fd, []))"

datatype accept_ev = AcceptFd nat | AcceptIntr | AcceptAborted | AcceptFail

text \<open>\<open>accept\<close> blocks, so an exhausted event list is a call that has not returned.\<close>

fun sm_ast_accept :: "accept_ev list \<Rightarrow> (int \<times> accept_ev list) option" where
  "sm_ast_accept [] = None"
| "sm_ast_accept (AcceptFd n # es) = Some (int n, es)"
| "sm_ast_accept (AcceptIntr # es) = Some (-2, es)"
| "sm_ast_accept (AcceptAborted # es) = sm_ast_accept es"
| "sm_ast_accept (AcceptFail # es) = Some (-1, es)"

subsection \<open>Receiving\<close>

text \<open>\<open>RecvData b bs\<close> is a segment of one or more bytes waiting to be read; \<open>recv\<close> takes as much of
  it as it was asked for and the rest stays.\<close>

datatype io_ev = PollIntr | PollFail | PollTimeout | RecvIntr | RecvAgain | RecvFail | RecvEof
  | RecvData u8 "u8 list"

datatype recv_res = RecvTimeout | RecvError | RecvGot "u8 list"

fun data_of :: "io_ev list \<Rightarrow> u8 list" where
  "data_of [] = []"
| "data_of (RecvData b bs # es) = b # bs @ data_of es"
| "data_of (_ # es) = data_of es"

fun recv_into :: "io_ev list \<Rightarrow> nat \<Rightarrow> recv_res \<times> io_ev list" where
  "recv_into [] want = (RecvTimeout, [])"
| "recv_into (PollIntr # es) want = recv_into es want"
| "recv_into (PollFail # es) want = (RecvError, es)"
| "recv_into (PollTimeout # es) want = (RecvTimeout, es)"
| "recv_into (RecvIntr # es) want = recv_into es want"
| "recv_into (RecvAgain # es) want = recv_into es want"
| "recv_into (RecvFail # es) want = (RecvError, es)"
| "recv_into (RecvEof # es) want = (RecvError, es)"
| "recv_into (RecvData b bs # es) want =
     (if want = 0 then (RecvError, RecvData b bs # es)
      else (RecvGot (take want (b # bs)),
            case drop want (b # bs) of [] \<Rightarrow> es | c # cs \<Rightarrow> RecvData c cs # es))"

lemma recv_into_got:
  assumes "recv_into es want = (RecvGot bs, es')"
  shows "data_of es = bs @ data_of es'" and "bs \<noteq> []" and "length bs \<le> want"
proof -
  have "data_of es = bs @ data_of es' \<and> bs \<noteq> [] \<and> length bs \<le> want"
    using assms
  proof (induction es want rule: recv_into.induct)
    case (9 b bs' es want)
    then have w: "want \<noteq> 0" and bs: "bs = take want (b # bs')"
      and es': "es' = (case drop want (b # bs') of [] \<Rightarrow> es | c # cs \<Rightarrow> RecvData c cs # es)"
      by (simp_all split: if_splits)
    have "(b # bs') @ data_of es = take want (b # bs') @ drop want (b # bs') @ data_of es"
      by simp
    moreover have "data_of es' = drop want (b # bs') @ data_of es"
      using es' by (simp split: list.split)
    ultimately show ?case using w bs by (cases want) simp_all
  qed auto
  then show "data_of es = bs @ data_of es'" "bs \<noteq> []" "length bs \<le> want" by blast+
qed

lemma recv_into_shrinks:
  "recv_into es want = (RecvGot bs, es') \<Longrightarrow> length (data_of es') < length (data_of es)"
  using recv_into_got [of es want bs es'] by simp

lemma recv_into_other:
  "recv_into es want = (r, es') \<Longrightarrow> (\<And>bs. r \<noteq> RecvGot bs) \<Longrightarrow> data_of es = data_of es'"
  by (induction es want rule: recv_into.induct) (auto split: if_splits)

text \<open>The events that make a call return without a message: the poll or the \<open>recv\<close> failed, timed out or
  found the connection closed.\<close>

fun stops :: "io_ev list \<Rightarrow> nat" where
  "stops [] = 0"
| "stops (e # es) = (if e \<in> {PollFail, PollTimeout, RecvFail, RecvEof} then Suc (stops es) else stops es)"

lemma recv_into_stops:
  "recv_into es want = (r, es') \<Longrightarrow> 0 < want \<Longrightarrow>
     stops es' \<le> stops es \<and> ((\<exists>bs. r = RecvGot bs) \<or> stops es' < stops es \<or> data_of es' = [])"
  by (induction es want rule: recv_into.induct) (auto split: list.splits)

record ast_socket =
  as_fd :: int
  as_rxbuf :: "nat \<Rightarrow> u8"
  as_rxlen :: nat
  as_rxhdr :: nat
  as_rxhead :: "nat \<Rightarrow> u8"
  as_rx_expected :: nat
  as_rx_kind :: u8
  as_rx_pending :: bool

definition sm_ast_init :: "int \<Rightarrow> ast_socket" where
  "sm_ast_init fd = \<lparr>as_fd = fd, as_rxbuf = (\<lambda>_. 0), as_rxlen = 0, as_rxhdr = 0,
     as_rxhead = (\<lambda>_. 0), as_rx_expected = 0, as_rx_kind = 0, as_rx_pending = False\<rparr>"

text \<open>The two accumulation loops of \<open>sm_ast_read\<close>: 1 when the loop ends, else what \<open>recv_into\<close>
  made the function return.\<close>

function read_header :: "ast_socket \<Rightarrow> io_ev list \<Rightarrow> int \<times> ast_socket \<times> io_ev list" where
  "read_header s es =
     (if as_rxhdr s < 3 then
        (case recv_into es (3 - as_rxhdr s) of
           (RecvTimeout, es') \<Rightarrow> (0, s, es')
         | (RecvError, es') \<Rightarrow> (-1, s, es')
         | (RecvGot bs, es') \<Rightarrow>
             read_header (s\<lparr>as_rxhead := mem_write (as_rxhead s) (as_rxhdr s) bs,
                            as_rxhdr := as_rxhdr s + length bs\<rparr>) es')
      else (1, s, es))"
  by pat_completeness auto
termination
  by (relation "measure (\<lambda>(s, es). length (data_of es))") (auto dest: recv_into_shrinks [OF sym])

declare read_header.simps [simp del]

function read_payload :: "ast_socket \<Rightarrow> io_ev list \<Rightarrow> int \<times> ast_socket \<times> io_ev list" where
  "read_payload s es =
     (if as_rxlen s < as_rx_expected s then
        (let remaining = as_rx_expected s - as_rxlen s
         in if as_rxlen s < SM_AS_MAX_PAYLOAD then
              (let room = SM_AS_MAX_PAYLOAD - as_rxlen s;
                   want = (if remaining < room then remaining else room)
               in case recv_into es want of
                    (RecvTimeout, es') \<Rightarrow> (0, s, es')
                  | (RecvError, es') \<Rightarrow> (-1, s, es')
                  | (RecvGot bs, es') \<Rightarrow>
                      read_payload (s\<lparr>as_rxbuf := mem_write (as_rxbuf s) (as_rxlen s) bs,
                                      as_rxlen := as_rxlen s + length bs\<rparr>) es')
            else
              (let chunk = (if remaining < 256 then remaining else 256)
               in case recv_into es chunk of
                    (RecvTimeout, es') \<Rightarrow> (0, s, es')
                  | (RecvError, es') \<Rightarrow> (-1, s, es')
                  | (RecvGot bs, es') \<Rightarrow> read_payload (s\<lparr>as_rxlen := as_rxlen s + length bs\<rparr>) es'))
      else (1, s, es))"
  by pat_completeness auto
termination
  by (relation "measure (\<lambda>(s, es). length (data_of es))") (auto dest: recv_into_shrinks [OF sym])

declare read_payload.simps [simp del]

text \<open>A complete message as \<open>sm_ast_read\<close> reports it: kind, bytes copied out, payload length.\<close>

record ast_msg =
  msg_kind :: u8
  msg_bytes :: "u8 list"
  msg_plen :: nat

text \<open>Phase 1: the header, unless a message is pending.\<close>

definition ast_read_header :: "ast_socket \<Rightarrow> io_ev list \<Rightarrow> int \<times> ast_socket \<times> io_ev list" where
  "ast_read_header s0 es0 =
     (if as_rx_pending s0 then (1, s0, es0)
      else (let (r, s, es) = read_header s0 es0
            in if r \<noteq> 1 then (r, s, es)
               else (1, s\<lparr>as_rx_kind := as_rxhead s 0,
                         as_rx_expected := push_bit 8 (unat (as_rxhead s 1)) OR unat (as_rxhead s 2),
                         as_rxlen := 0, as_rxhdr := 0, as_rx_pending := True\<rparr>, es)))"

text \<open>Phase 2: the payload, the copy to the caller and the reset for the next message.\<close>

definition ast_read_payload ::
  "ast_socket \<Rightarrow> nat \<Rightarrow> io_ev list \<Rightarrow> int \<times> ast_msg option \<times> ast_socket \<times> io_ev list" where
  "ast_read_payload s1 buf_len es1 =
     (let (r2, s2, es2) = read_payload s1 es1
      in if r2 \<noteq> 1 then (r2, None, s2, es2)
         else (let copy_len = (if as_rx_expected s2 < buf_len then as_rx_expected s2 else buf_len)
               in (1, Some \<lparr>msg_kind = as_rx_kind s2, msg_bytes = mem_read (as_rxbuf s2) 0 copy_len,
                            msg_plen = as_rx_expected s2\<rparr>,
                   s2\<lparr>as_rxhdr := 0, as_rxlen := 0, as_rx_expected := 0, as_rx_pending := False\<rparr>,
                   es2)))"

definition sm_ast_read ::
  "ast_socket \<Rightarrow> nat \<Rightarrow> io_ev list \<Rightarrow> int \<times> ast_msg option \<times> ast_socket \<times> io_ev list" where
  "sm_ast_read s0 buf_len es0 =
     (let (r1, s1, es1) = ast_read_header s0 es0
      in if r1 \<noteq> 1 then (r1, None, s1, es1) else ast_read_payload s1 buf_len es1)"

subsection \<open>Sending\<close>

datatype send_ev = SPollIntr | SPollFail | SPollTimeout | SendIntr | SendAgain | SendFail | SendOk nat

fun send_all :: "u8 list \<Rightarrow> send_ev list \<Rightarrow> int \<times> u8 list \<times> send_ev list" where
  "send_all [] es = (0, [], es)"
| "send_all buf [] = (-1, [], [])"
| "send_all buf (SPollIntr # es) = send_all buf es"
| "send_all buf (SPollFail # es) = (-1, [], es)"
| "send_all buf (SPollTimeout # es) = (-1, [], es)"
| "send_all buf (SendIntr # es) = send_all buf es"
| "send_all buf (SendAgain # es) = send_all buf es"
| "send_all buf (SendFail # es) = (-1, [], es)"
| "send_all buf (SendOk n # es) =
     (let (r, sent, es') = send_all (drop n buf) es in (r, take n buf @ sent, es'))"

definition ast_header :: "u8 \<Rightarrow> nat \<Rightarrow> u8 list" where
  "ast_header kind len = [kind, word_of_nat (drop_bit 8 len AND 0xFF), word_of_nat (len AND 0xFF)]"

definition sm_ast_write :: "u8 \<Rightarrow> u8 list \<Rightarrow> send_ev list \<Rightarrow> int \<times> u8 list \<times> send_ev list" where
  "sm_ast_write kind payload es =
     (if length payload > 0xFFFF then (-1, [], es)
      else (let (r1, out1, es1) = send_all (ast_header kind (length payload)) es
            in if r1 < 0 then (-1, out1, es1)
               else if length payload > 0
               then (let (r2, out2, es2) = send_all payload es1
                     in if r2 < 0 then (-1, out1 @ out2, es2) else (0, out1 @ out2, es2))
               else (0, out1, es1)))"

text \<open>PCM samples are sent as they lie in memory, little endian on this platform.\<close>

definition samples_bytes :: "u16 list \<Rightarrow> u8 list" where
  "samples_bytes xs = concat (map (\<lambda>x. [ucast x, ucast (drop_bit 8 x)]) xs)"

fun bytes_samples :: "u8 list \<Rightarrow> u16 list" where
  "bytes_samples (lo # hi # bs) = (ucast lo OR push_bit 8 (ucast hi)) # bytes_samples bs"
| "bytes_samples bs = []"

definition sm_ast_write_audio :: "u16 list \<Rightarrow> send_ev list \<Rightarrow> int \<times> u8 list \<times> send_ev list" where
  "sm_ast_write_audio samples es = sm_ast_write SM_AS_KIND_AUDIO (samples_bytes samples) es"

definition hex_digit :: "nat \<Rightarrow> char" where
  "hex_digit n = ''0123456789abcdef'' ! n"

definition hex2 :: "u8 \<Rightarrow> string" where
  "hex2 b = [hex_digit (unat b div 16), hex_digit (unat b mod 16)]"

definition sm_ast_uuid_string :: "u8 list \<Rightarrow> string" where
  "sm_ast_uuid_string u =
     concat (map hex2 (take 4 u)) @ ''-'' @ concat (map hex2 (take 2 (drop 4 u))) @ ''-''
     @ concat (map hex2 (take 2 (drop 6 u))) @ ''-'' @ concat (map hex2 (take 2 (drop 8 u))) @ ''-''
     @ concat (map hex2 (take 6 (drop 10 u)))"

subsection \<open>What a connection has consumed of the current message\<close>

definition be16 :: "u8 \<Rightarrow> u8 \<Rightarrow> nat" where
  "be16 hi lo = push_bit 8 (unat hi) OR unat lo"

lemma be16_sum: "be16 hi lo = 256 * unat hi + unat lo"
proof -
  have "push_bit 8 (unat hi) + unat lo = push_bit 8 (unat hi) OR unat lo"
    by (rule disjunctive_add) (auto simp: bit_push_bit_iff bit_unsigned_iff dest: bit_imp_le_length)
  then show ?thesis by (simp add: be16_def push_bit_eq_mult)
qed

lemma be16_bound: "be16 hi lo \<le> 65535"
  using unsigned_less [where ?'a = nat, of lo] unsigned_less [where ?'a = nat, of hi]
  by (simp add: be16_sum)

lemma be16_header:
  assumes "len \<le> 0xFFFF"
  shows "be16 (word_of_nat (drop_bit 8 len AND 0xFF)) (word_of_nat (len AND 0xFF)) = len"
proof -
  have and255: "x AND 0xFF = x mod 256" for x :: nat
    using take_bit_eq_mask [of 8 x] by (simp add: take_bit_eq_mod mask_eq_exp_minus_1)
  have "drop_bit 8 len AND 0xFF = len div 256" "len AND 0xFF = len mod 256"
    using assms by (simp_all add: and255 drop_bit_eq_div)
  moreover have "len div 256 < 256" using assms by simp
  ultimately show ?thesis by (simp add: be16_sum unat_of_nat)
qed

text \<open>\<open>holds s p\<close>: the connection \<open>s\<close> has consumed exactly the bytes \<open>p\<close> of a message that is not
  complete yet (none, part of the header, or the header and part of the payload, of which the
  first 4096 bytes are kept).\<close>

definition holds :: "ast_socket \<Rightarrow> u8 list \<Rightarrow> bool" where
  "holds s p \<longleftrightarrow>
     (if as_rx_pending s then
        3 \<le> length p \<and> as_rx_kind s = p ! 0 \<and> as_rx_expected s = be16 (p ! 1) (p ! 2)
        \<and> as_rxhdr s = 0 \<and> as_rxlen s = length p - 3 \<and> as_rxlen s < as_rx_expected s
        \<and> mem_read (as_rxbuf s) 0 (min (as_rxlen s) 4096) = take 4096 (drop 3 p)
      else as_rxhdr s = length p \<and> length p < 3 \<and> mem_read (as_rxhead s) 0 (length p) = p)"

lemma holds_init [inv_intros]: "holds (sm_ast_init fd) []"
  by (simp add: holds_def sm_ast_init_def)

lemma read_header_progress:
  assumes "read_header s es = (r, s', es')" and "as_rxhdr s = length p" and "length p \<le> 3"
    and "mem_read (as_rxhead s) 0 (length p) = p"
  shows "\<exists>q. data_of es = q @ data_of es' \<and> as_rxhdr s' = length (p @ q)
      \<and> mem_read (as_rxhead s') 0 (length (p @ q)) = p @ q \<and> as_rx_pending s' = as_rx_pending s
      \<and> (r = 1 \<and> length (p @ q) = 3 \<or> (r = 0 \<or> r = -1) \<and> length (p @ q) < 3)"
  using assms
proof (induction s es arbitrary: p rule: read_header.induct)
  case (1 s es)
  show ?case
  proof (cases "as_rxhdr s < 3")
    case False
    with 1 show ?thesis by (intro exI [of _ "[]"]) (auto simp: read_header.simps [of s es])
  next
    case lt: True
    obtain res es1 where rc: "recv_into es (3 - as_rxhdr s) = (res, es1)" by fastforce
    show ?thesis
    proof (cases res)
      case (RecvGot bs)
      note g = recv_into_got [OF rc [unfolded RecvGot]]
      let ?s = "s\<lparr>as_rxhead := mem_write (as_rxhead s) (as_rxhdr s) bs, as_rxhdr := as_rxhdr s + length bs\<rparr>"
      have "\<exists>q. data_of es1 = q @ data_of es' \<and> as_rxhdr s' = length ((p @ bs) @ q)
          \<and> mem_read (as_rxhead s') 0 (length ((p @ bs) @ q)) = (p @ bs) @ q
          \<and> as_rx_pending s' = as_rx_pending ?s
          \<and> (r = 1 \<and> length ((p @ bs) @ q) = 3 \<or> (r = 0 \<or> r = -1) \<and> length ((p @ bs) @ q) < 3)"
        using "1.prems" lt rc RecvGot g
        by (intro "1.IH") (auto simp: read_header.simps [of s es] mem_read_write_append)
      then obtain q where "data_of es1 = q @ data_of es'" "as_rxhdr s' = length ((p @ bs) @ q)"
          "mem_read (as_rxhead s') 0 (length ((p @ bs) @ q)) = (p @ bs) @ q"
          "as_rx_pending s' = as_rx_pending ?s"
          "r = 1 \<and> length ((p @ bs) @ q) = 3 \<or> (r = 0 \<or> r = -1) \<and> length ((p @ bs) @ q) < 3" by blast
      with g(1) show ?thesis by (intro exI [of _ "bs @ q"]) simp
    qed (use "1.prems" lt rc recv_into_other [OF rc] in
          \<open>auto simp: read_header.simps [of s es] intro!: exI [of _ "[]"]\<close>)
  qed
qed

lemma read_header_stops:
  "read_header s es = (r, s', es') \<Longrightarrow>
     stops es' \<le> stops es \<and> (r = 1 \<or> stops es' < stops es \<or> data_of es' = [])"
proof (induction s es rule: read_header.induct)
  case (1 s es)
  obtain res es1 where rc: "recv_into es (3 - as_rxhdr s) = (res, es1)" by fastforce
  show ?case
  proof (cases "as_rxhdr s < 3")
    case True
    then have st: "stops es1 \<le> stops es \<and> ((\<exists>bs. res = RecvGot bs) \<or> stops es1 < stops es \<or> data_of es1 = [])"
      by (intro recv_into_stops [OF rc]) simp
    show ?thesis
    proof (cases res)
      case (RecvGot bs)
      with "1.prems" True rc have "read_header (s\<lparr>as_rxhead := mem_write (as_rxhead s) (as_rxhdr s) bs,
          as_rxhdr := as_rxhdr s + length bs\<rparr>) es1 = (r, s', es')" by (simp add: read_header.simps [of s es])
      from "1.IH" [OF True rc [symmetric] RecvGot this] st show ?thesis by auto
    qed (use "1.prems" True rc st in \<open>auto simp: read_header.simps [of s es]\<close>)
  qed (use "1.prems" in \<open>auto simp: read_header.simps [of s es]\<close>)
qed

definition pay_holds :: "ast_socket \<Rightarrow> u8 list \<Rightarrow> bool" where
  "pay_holds s pl \<longleftrightarrow> as_rxlen s = length pl \<and> length pl \<le> as_rx_expected s
     \<and> mem_read (as_rxbuf s) 0 (min (length pl) 4096) = take 4096 pl"

lemma pay_holds_store:
  assumes "pay_holds s pl" and "length pl < 4096" and "length bs \<le> 4096 - length pl"
    and "length bs \<le> as_rx_expected s - length pl"
  shows "pay_holds (s\<lparr>as_rxbuf := mem_write (as_rxbuf s) (as_rxlen s) bs,
                      as_rxlen := as_rxlen s + length bs\<rparr>) (pl @ bs)"
proof -
  have "mem_read (mem_write (as_rxbuf s) (length pl) bs) 0 (length pl + length bs) = pl @ bs"
    using assms by (simp add: mem_read_write_append pay_holds_def min_def)
  with assms show ?thesis by (auto simp: pay_holds_def min_def)
qed

lemma pay_holds_discard:
  assumes "pay_holds s pl" and "4096 \<le> length pl" and "length bs \<le> as_rx_expected s - length pl"
  shows "pay_holds (s\<lparr>as_rxlen := as_rxlen s + length bs\<rparr>) (pl @ bs)"
proof -
  have "min (length pl) 4096 = 4096" "min (length (pl @ bs)) 4096 = 4096" using assms(2) by simp_all
  with assms show ?thesis by (auto simp: pay_holds_def)
qed

lemma read_payload_progress:
  assumes "read_payload s es = (r, s', es')" and "pay_holds s pl"
  shows "\<exists>q. data_of es = q @ data_of es' \<and> pay_holds s' (pl @ q)
      \<and> as_rx_kind s' = as_rx_kind s \<and> as_rx_expected s' = as_rx_expected s
      \<and> as_rxhdr s' = as_rxhdr s \<and> as_rx_pending s' = as_rx_pending s
      \<and> (r = 1 \<and> length (pl @ q) = as_rx_expected s \<or> r = 0 \<or> r = -1)"
  using assms
proof (induction s es arbitrary: pl rule: read_payload.induct)
  case (1 s es)
  have stop: "\<exists>q. data_of es = q @ data_of es1 \<and> pay_holds s (pl @ q) \<and> (r = 0 \<or> r = -1)
      \<and> as_rx_kind s = as_rx_kind s \<and> as_rx_expected s = as_rx_expected s"
    if "recv_into es w = (res, es1)" "\<And>bs. res \<noteq> RecvGot bs" "r = 0 \<or> r = -1" for w res es1
    using that recv_into_other [OF that(1,2)] "1.prems"(2) by (intro exI [of _ "[]"]) auto
  have go: "\<exists>q. data_of es = q @ data_of es' \<and> pay_holds s' (pl @ q)
      \<and> as_rx_kind s' = as_rx_kind s \<and> as_rx_expected s' = as_rx_expected s
      \<and> as_rxhdr s' = as_rxhdr s \<and> as_rx_pending s' = as_rx_pending s
      \<and> (r = 1 \<and> length (pl @ q) = as_rx_expected s \<or> r = 0 \<or> r = -1)"
    if g: "data_of es = bs @ data_of es1"
      and IH: "\<exists>q. data_of es1 = q @ data_of es' \<and> pay_holds s' ((pl @ bs) @ q)
      \<and> as_rx_kind s' = as_rx_kind s \<and> as_rx_expected s' = as_rx_expected s
      \<and> as_rxhdr s' = as_rxhdr s \<and> as_rx_pending s' = as_rx_pending s
      \<and> (r = 1 \<and> length ((pl @ bs) @ q) = as_rx_expected s \<or> r = 0 \<or> r = -1)" for bs es1
  proof -
    from IH obtain q where "data_of es1 = q @ data_of es'" "pay_holds s' ((pl @ bs) @ q)"
      "as_rx_kind s' = as_rx_kind s" "as_rx_expected s' = as_rx_expected s"
      "as_rxhdr s' = as_rxhdr s" "as_rx_pending s' = as_rx_pending s"
      "r = 1 \<and> length ((pl @ bs) @ q) = as_rx_expected s \<or> r = 0 \<or> r = -1" by blast
    with g show ?thesis by (intro exI [of _ "bs @ q"]) simp
  qed
  have len: "as_rxlen s = length pl" "length pl \<le> as_rx_expected s"
    using "1.prems"(2) by (simp_all add: pay_holds_def)
  let ?rem = "as_rx_expected s - as_rxlen s"
  consider (fin) "\<not> as_rxlen s < as_rx_expected s"
    | (store) "as_rxlen s < as_rx_expected s" "as_rxlen s < SM_AS_MAX_PAYLOAD"
    | (discard) "as_rxlen s < as_rx_expected s" "\<not> as_rxlen s < SM_AS_MAX_PAYLOAD" by blast
  then show ?case
  proof cases
    case fin
    with "1.prems" len show ?thesis
      by (intro exI [of _ "[]"]) (auto simp: read_payload.simps [of s es])
  next
    case store
    define w where "w = (if ?rem < SM_AS_MAX_PAYLOAD - as_rxlen s then ?rem else SM_AS_MAX_PAYLOAD - as_rxlen s)"
    obtain res es1 where rc: "recv_into es w = (res, es1)" by fastforce
    show ?thesis
    proof (cases res)
      case (RecvGot bs)
      note g = recv_into_got [OF rc [unfolded RecvGot]]
      let ?s = "s\<lparr>as_rxbuf := mem_write (as_rxbuf s) (as_rxlen s) bs, as_rxlen := as_rxlen s + length bs\<rparr>"
      have "pay_holds ?s (pl @ bs)"
        using "1.prems"(2) store len g(3)
        by (intro pay_holds_store) (auto simp: w_def SM_AS_MAX_PAYLOAD_def split: if_splits)
      moreover have "read_payload ?s es1 = (r, s', es')"
        using "1.prems"(1) store rc RecvGot by (simp add: read_payload.simps [of s es] w_def Let_def)
      ultimately show ?thesis
        using "1.IH"(1) [OF store(1) refl store(2) refl w_def rc [symmetric] RecvGot, of "pl @ bs"]
        by (intro go [OF g(1)]) (simp del: append_assoc length_append)
    qed (use "1.prems" store rc stop [OF rc] in
          \<open>auto simp: read_payload.simps [of s es] w_def Let_def intro!: exI [of _ "[]"] dest: recv_into_other\<close>)
  next
    case discard
    define w where "w = (if ?rem < 256 then ?rem else (256::nat))"
    obtain res es1 where rc: "recv_into es w = (res, es1)" by fastforce
    show ?thesis
    proof (cases res)
      case (RecvGot bs)
      note g = recv_into_got [OF rc [unfolded RecvGot]]
      let ?s = "s\<lparr>as_rxlen := as_rxlen s + length bs\<rparr>"
      have "pay_holds ?s (pl @ bs)"
        using "1.prems"(2) discard len g(3)
        by (intro pay_holds_discard) (auto simp: w_def SM_AS_MAX_PAYLOAD_def split: if_splits)
      moreover have "read_payload ?s es1 = (r, s', es')"
        using "1.prems"(1) discard rc RecvGot by (simp add: read_payload.simps [of s es] w_def Let_def)
      ultimately show ?thesis
        using "1.IH"(2) [OF discard(1) refl discard(2) w_def rc [symmetric] RecvGot, of "pl @ bs"]
        by (intro go [OF g(1)]) (simp del: append_assoc length_append)
    qed (use "1.prems" discard rc stop [OF rc] in
          \<open>auto simp: read_payload.simps [of s es] w_def Let_def intro!: exI [of _ "[]"] dest: recv_into_other\<close>)
  qed
qed

lemma read_payload_stops:
  "read_payload s es = (r, s', es') \<Longrightarrow>
     stops es' \<le> stops es \<and> (r = 1 \<or> as_rxlen s' < as_rx_expected s' \<and> (stops es' < stops es \<or> data_of es' = []))"
proof (induction s es rule: read_payload.induct)
  case (1 s es)
  let ?rem = "as_rx_expected s - as_rxlen s"
  consider (fin) "\<not> as_rxlen s < as_rx_expected s"
    | (store) "as_rxlen s < as_rx_expected s" "as_rxlen s < SM_AS_MAX_PAYLOAD"
    | (discard) "as_rxlen s < as_rx_expected s" "\<not> as_rxlen s < SM_AS_MAX_PAYLOAD" by blast
  then show ?case
  proof cases
    case fin
    with "1.prems" show ?thesis by (auto simp: read_payload.simps [of s es])
  next
    case store
    define w where "w = (if ?rem < SM_AS_MAX_PAYLOAD - as_rxlen s then ?rem else SM_AS_MAX_PAYLOAD - as_rxlen s)"
    obtain res es1 where rc: "recv_into es w = (res, es1)" by fastforce
    have st: "stops es1 \<le> stops es \<and> ((\<exists>bs. res = RecvGot bs) \<or> stops es1 < stops es \<or> data_of es1 = [])"
      using store by (intro recv_into_stops [OF rc]) (simp add: w_def)
    show ?thesis
    proof (cases res)
      case (RecvGot bs)
      then have "read_payload (s\<lparr>as_rxbuf := mem_write (as_rxbuf s) (as_rxlen s) bs, as_rxlen := as_rxlen s + length bs\<rparr>) es1
          = (r, s', es')"
        using "1.prems" store rc by (simp add: read_payload.simps [of s es] w_def Let_def)
      from "1.IH"(1) [OF store(1) refl store(2) refl w_def rc [symmetric] RecvGot this] st show ?thesis by auto
    qed (use "1.prems" store rc st in \<open>auto simp: read_payload.simps [of s es] w_def Let_def\<close>)
  next
    case discard
    define w where "w = (if ?rem < 256 then ?rem else (256::nat))"
    obtain res es1 where rc: "recv_into es w = (res, es1)" by fastforce
    have st: "stops es1 \<le> stops es \<and> ((\<exists>bs. res = RecvGot bs) \<or> stops es1 < stops es \<or> data_of es1 = [])"
      using discard by (intro recv_into_stops [OF rc]) (simp add: w_def)
    show ?thesis
    proof (cases res)
      case (RecvGot bs)
      then have "read_payload (s\<lparr>as_rxlen := as_rxlen s + length bs\<rparr>) es1 = (r, s', es')"
        using "1.prems" discard rc by (simp add: read_payload.simps [of s es] w_def Let_def)
      from "1.IH"(2) [OF discard(1) refl discard(2) w_def rc [symmetric] RecvGot this] st show ?thesis by auto
    qed (use "1.prems" discard rc st in \<open>auto simp: read_payload.simps [of s es] w_def Let_def\<close>)
  qed
qed

lemma payload_complete:
  assumes "pay_holds s pl" and "length pl = as_rx_expected s" and "n \<le> 4096"
  shows "mem_read (as_rxbuf s) 0 (if as_rx_expected s < n then as_rx_expected s else n) = take n pl"
proof -
  let ?k = "if as_rx_expected s < n then as_rx_expected s else n"
  have "mem_read (as_rxbuf s) 0 ?k = take ?k (mem_read (as_rxbuf s) 0 (min (length pl) 4096))"
    using assms by (auto simp: take_mem_read)
  also have "\<dots> = take n pl"
    using assms by (auto simp: pay_holds_def)
  finally show ?thesis .
qed

text \<open>A message on the wire, and how \<open>sm_ast_read\<close> reports it to a caller with an \<open>n\<close>-byte buffer.\<close>

definition ast_frame :: "u8 \<times> u8 list \<Rightarrow> u8 list" where
  "ast_frame f = ast_header (fst f) (length (snd f)) @ snd f"

definition msg_of :: "nat \<Rightarrow> u8 \<times> u8 list \<Rightarrow> ast_msg" where
  "msg_of n f = \<lparr>msg_kind = fst f, msg_bytes = take n (snd f), msg_plen = length (snd f)\<rparr>"

lemma header_of_three:
  assumes "length p = 3"
  shows "p = ast_header (p ! 0) (be16 (p ! 1) (p ! 2))"
proof -
  obtain a b c where p: "p = [a, b, c]"
    using assms by (auto simp: length_Suc_conv eval_nat_numeral)
  have and255: "x AND 0xFF = x mod 256" for x :: nat
    using take_bit_eq_mask [of 8 x] by (simp add: take_bit_eq_mod mask_eq_exp_minus_1)
  have lt: "unat b < 256" "unat c < 256"
    using unsigned_less [where ?'a = nat, of b] unsigned_less [where ?'a = nat, of c] by simp_all
  have "be16 b c div 256 = unat b" "be16 b c mod 256 = unat c"
    using lt by (simp_all add: be16_sum)
  with lt show ?thesis by (simp add: p ast_header_def and255 drop_bit_eq_div)
qed

text \<open>What one call may do to the bytes \<open>p\<close> consumed before it: the new bytes \<open>q\<close> complete exactly
  one frame and the state is fresh, or they are remembered.\<close>

definition read_outcome ::
  "nat \<Rightarrow> u8 list \<Rightarrow> int \<Rightarrow> ast_msg option \<Rightarrow> ast_socket \<Rightarrow> bool" where
  "read_outcome n p r m s' \<longleftrightarrow>
     (if r = 1 then holds s' [] \<and> (\<exists>f. length (snd f) \<le> 65535 \<and> p = ast_frame f \<and> m = Some (msg_of n f))
      else (r = 0 \<or> r = -1) \<and> m = None \<and> holds s' p)"

definition hdr_done :: "ast_socket \<Rightarrow> u8 list \<Rightarrow> u8 list \<Rightarrow> bool" where
  "hdr_done s h pl \<longleftrightarrow> length h = 3 \<and> as_rx_pending s \<and> as_rx_kind s = h ! 0
     \<and> as_rx_expected s = be16 (h ! 1) (h ! 2) \<and> as_rxhdr s = 0 \<and> pay_holds s pl"

lemma ast_read_payload_step:
  assumes rd: "ast_read_payload s n es = (r, m, s', es')" and h: "hdr_done s h pl" and n: "n \<le> 4096"
  shows "\<exists>q. data_of es = q @ data_of es' \<and> read_outcome n (h @ pl @ q) r m s'"
proof -
  obtain r2 s2 es2 where rp: "read_payload s es = (r2, s2, es2)" by (metis prod_cases3)
  from h have h3: "length h = 3" and s: "as_rx_pending s" "as_rx_kind s = h ! 0"
    "as_rx_expected s = be16 (h ! 1) (h ! 2)" "as_rxhdr s = 0" "pay_holds s pl"
    by (simp_all add: hdr_done_def)
  from read_payload_progress [OF rp s(5)] obtain q where q: "data_of es = q @ data_of es2"
    "pay_holds s2 (pl @ q)" "as_rx_kind s2 = as_rx_kind s" "as_rx_expected s2 = as_rx_expected s"
    "as_rxhdr s2 = as_rxhdr s" "as_rx_pending s2 = as_rx_pending s"
    "r2 = 1 \<and> length (pl @ q) = as_rx_expected s \<or> r2 = 0 \<or> r2 = -1" by blast
  show ?thesis
  proof (cases "r2 = 1")
    case True
    with q have full: "length (pl @ q) = as_rx_expected s2" by auto
    have "h @ pl @ q = ast_frame (h ! 0, pl @ q)"
      using header_of_three [OF h3] full q(4) s(3) by (simp add: ast_frame_def)
    moreover have "length (pl @ q) \<le> 65535" using full q(4) s(3) be16_bound by simp
    moreover have "m = Some (msg_of n (h ! 0, pl @ q))"
      using rd rp True payload_complete [OF q(2) full n] full q s
      by (simp add: ast_read_payload_def msg_of_def Let_def)
    moreover have "r = 1" "holds s' []" "es' = es2"
      using rd rp True by (auto simp: ast_read_payload_def holds_def Let_def)
    ultimately show ?thesis
      using q(1) unfolding read_outcome_def by (intro exI [of _ q]) (auto simp del: length_append)
  next
    case False
    with rd rp have "r = r2" "m = None" "s' = s2" "es' = es2" by (auto simp: ast_read_payload_def)
    moreover have "holds s2 (h @ pl @ q)"
      using q s h3 False read_payload_stops [OF rp] by (auto simp: holds_def pay_holds_def nth_append)
    ultimately show ?thesis
      using False q(1,7) unfolding read_outcome_def by (intro exI [of _ q]) auto
  qed
qed

lemma ast_read_header_step:
  assumes rd: "ast_read_header s es = (r, s', es')" and h: "holds s p"
  shows "\<exists>q. data_of es = q @ data_of es'
     \<and> (if r = 1 then \<exists>h pl. p @ q = h @ pl \<and> hdr_done s' h pl
        else (r = 0 \<or> r = -1) \<and> holds s' (p @ q))"
proof (cases "as_rx_pending s")
  case True
  with h have "hdr_done s (take 3 p) (drop 3 p)"
    by (auto simp: holds_def hdr_done_def pay_holds_def)
  then have "\<exists>h pl. p = h @ pl \<and> hdr_done s h pl" by (metis append_take_drop_id)
  with rd True show ?thesis
    by (intro exI [of _ "[]"]) (simp add: ast_read_header_def)
next
  case False
  with h have hd: "as_rxhdr s = length p" "length p \<le> 3" "mem_read (as_rxhead s) 0 (length p) = p"
    by (auto simp: holds_def)
  obtain r1 s1 es1 where rh: "read_header s es = (r1, s1, es1)" by (metis prod_cases3)
  from read_header_progress [OF rh hd] obtain q where q: "data_of es = q @ data_of es1"
    "as_rxhdr s1 = length (p @ q)" "mem_read (as_rxhead s1) 0 (length (p @ q)) = p @ q"
    "as_rx_pending s1 = as_rx_pending s"
    "r1 = 1 \<and> length (p @ q) = 3 \<or> (r1 = 0 \<or> r1 = -1) \<and> length (p @ q) < 3" by blast
  show ?thesis
  proof (cases "r1 = 1")
    case True
    with q have l3: "length (p @ q) = 3" by simp
    have "as_rxhead s1 i = (p @ q) ! i" if "i < 3" for i
      using q(3) l3 that nth_mem_read [of i 3 "as_rxhead s1" 0] by simp
    then have "hdr_done s' (p @ q) []"
      using rd rh True False l3 by (auto simp: ast_read_header_def hdr_done_def pay_holds_def be16_def)
    with rd rh True False q(1) show ?thesis
      by (intro exI [of _ q]) (auto simp: ast_read_header_def)
  qed (use rd rh False q in \<open>auto simp: ast_read_header_def holds_def intro!: exI [of _ q]\<close>)
qed

lemma sm_ast_read_step:
  assumes rd: "sm_ast_read s n es = (r, m, s', es')" and h: "holds s p" and n: "n \<le> 4096"
  shows "\<exists>q. data_of es = q @ data_of es' \<and> read_outcome n (p @ q) r m s'"
proof -
  obtain r1 s1 es1 where hd: "ast_read_header s es = (r1, s1, es1)" by (metis prod_cases3)
  from ast_read_header_step [OF hd h] obtain q where q: "data_of es = q @ data_of es1"
    "if r1 = 1 then \<exists>h pl. p @ q = h @ pl \<and> hdr_done s1 h pl
     else (r1 = 0 \<or> r1 = -1) \<and> holds s1 (p @ q)" by blast
  show ?thesis
  proof (cases "r1 = 1")
    case True
    with q obtain h pl where hp: "p @ q = h @ pl" "hdr_done s1 h pl" by auto
    have "ast_read_payload s1 n es1 = (r, m, s', es')"
      using rd hd True by (simp add: sm_ast_read_def)
    from ast_read_payload_step [OF this hp(2) n] obtain q' where
      "data_of es1 = q' @ data_of es'" "read_outcome n (h @ pl @ q') r m s'" by blast
    with q(1) hp(1) show ?thesis
      by (intro exI [of _ "q @ q'"]) (metis append.assoc)
  qed (use rd hd q in \<open>auto simp: sm_ast_read_def read_outcome_def intro!: exI [of _ q]\<close>)
qed

lemma sm_ast_read_stops:
  assumes "sm_ast_read s n es = (r, m, s', es')"
  shows "stops es' \<le> stops es \<and> (r = 1 \<or> stops es' < stops es \<or> data_of es' = [])"
proof -
  obtain r1 s1 es1 where hd: "ast_read_header s es = (r1, s1, es1)" by (metis prod_cases3)
  then have h: "stops es1 \<le> stops es \<and> (r1 = 1 \<or> stops es1 < stops es \<or> data_of es1 = [])"
    using read_header_stops [of s es] by (auto simp: ast_read_header_def split: if_splits prod.splits)
  obtain r2 s2 es2 where rp: "read_payload s1 es1 = (r2, s2, es2)" by (metis prod_cases3)
  show ?thesis
    using assms hd rp h read_payload_stops [OF rp]
    by (auto simp: sm_ast_read_def ast_read_payload_def Let_def split: if_splits)
qed

subsection \<open>Reading a stream of messages\<close>

text \<open>Calling a reader \<open>n\<close> times, as the call loop and the SIP bridge do, and collecting the messages.\<close>

fun read_times ::
  "('s \<Rightarrow> 'e \<Rightarrow> int \<times> ast_msg option \<times> 's \<times> 'e) \<Rightarrow> nat \<Rightarrow> 's \<Rightarrow> 'e \<Rightarrow> ast_msg list \<times> 's \<times> 'e" where
  "read_times rd 0 s e = ([], s, e)"
| "read_times rd (Suc n) s e =
     (let (r, m, s1, e1) = rd s e; (ms, s2, e2) = read_times rd n s1 e1
      in ((case m of None \<Rightarrow> ms | Some x \<Rightarrow> x # ms), s2, e2))"

lemma ast_frame_prefix_free:
  assumes "length (snd f) \<le> 65535" and "length (snd g) \<le> 65535"
    and "ast_frame f @ x = ast_frame g @ y"
  shows "f = g \<and> x = y"
proof -
  let ?hi = "\<lambda>f :: u8 \<times> u8 list. word_of_nat (drop_bit 8 (length (snd f)) AND 255) :: u8"
  let ?lo = "\<lambda>f :: u8 \<times> u8 list. word_of_nat (length (snd f) AND 255) :: u8"
  from assms(3) have eq: "fst f = fst g" "?hi f = ?hi g" "?lo f = ?lo g" "snd f @ x = snd g @ y"
    by (simp_all add: ast_frame_def ast_header_def)
  have "length (snd f) = be16 (?hi f) (?lo f)" "length (snd g) = be16 (?hi g) (?lo g)"
    using assms(1,2) be16_header by simp_all
  then have "length (snd f) = length (snd g)" unfolding eq(2,3) by simp
  with eq(1,4) show ?thesis by (auto simp: prod_eq_iff)
qed

lemma ast_frame_nonempty: "ast_frame f \<noteq> []"
  by (simp add: ast_frame_def ast_header_def)

lemma frames_are_prefix:
  assumes "concat (map ast_frame gs) @ rest = concat (map ast_frame fs)"
    and "\<forall>f \<in> set fs. length (snd f) \<le> 65535" and "\<forall>g \<in> set gs. length (snd g) \<le> 65535"
  shows "\<exists>hs. fs = gs @ hs \<and> rest = concat (map ast_frame hs)"
  using assms
proof (induction gs arbitrary: fs)
  case Nil
  then show ?case by simp
next
  case (Cons g gs)
  show ?case
  proof (cases fs)
    case Nil
    with Cons.prems(1) show ?thesis by (simp add: ast_frame_nonempty)
  next
    case (Cons f fs')
    have "g = f \<and> concat (map ast_frame gs) @ rest = concat (map ast_frame fs')"
      by (rule ast_frame_prefix_free) (use Cons.prems Cons in simp_all)
    moreover from this obtain hs where "fs' = gs @ hs" "rest = concat (map ast_frame hs)"
      using Cons.IH [of fs'] Cons.prems(2,3) Cons by auto
    ultimately show ?thesis using Cons by simp
  qed
qed

lemma holds_partial:
  assumes "holds s p" and "length (snd f) \<le> 65535"
  shows "p \<noteq> ast_frame f @ x"
proof
  assume p: "p = ast_frame f @ x"
  then have l: "3 + length (snd f) \<le> length p" by (simp add: ast_frame_def ast_header_def)
  then have "as_rx_pending s" "as_rxlen s = length p - 3" "as_rxlen s < as_rx_expected s"
    "as_rx_expected s = be16 (p ! 1) (p ! 2)"
    using assms(1) by (auto simp: holds_def split: if_splits)
  moreover have "be16 (p ! 1) (p ! 2) = length (snd f)"
    using be16_header [OF assms(2)] by (simp add: p ast_frame_def ast_header_def)
  ultimately show False using l by simp
qed

text \<open>What a user of a message reader relies on: each call either completes one frame or keeps
  everything it consumed, which is less than a frame, and then it met a stop or nothing was left to read.\<close>

locale frame_reader =
  fixes held :: "'s \<Rightarrow> u8 list \<Rightarrow> bool"
    and read :: "'s \<Rightarrow> 'e \<Rightarrow> int \<times> ast_msg option \<times> 's \<times> 'e"
    and pending :: "'e \<Rightarrow> u8 list"
    and stop_count :: "'e \<Rightarrow> nat"
    and buf_len :: nat
  assumes read_step: "held s p \<Longrightarrow> read s e = (r, m, s', e') \<Longrightarrow>
     \<exists>q. pending e = q @ pending e' \<and>
       (if r = 1 then held s' [] \<and> (\<exists>f. length (snd f) \<le> 65535 \<and> p @ q = ast_frame f \<and> m = Some (msg_of buf_len f))
        else m = None \<and> held s' (p @ q))"
    and read_stops: "read s e = (r, m, s', e') \<Longrightarrow>
       stop_count e' \<le> stop_count e \<and> (r = 1 \<or> stop_count e' < stop_count e \<or> pending e' = [])"
    and held_partial: "held s p \<Longrightarrow> length (snd f) \<le> 65535 \<Longrightarrow> p \<noteq> ast_frame f @ x"
begin

lemma read_times_frames:
  assumes "held s p" and "read_times read n s e = (ms, s', e')"
  shows "\<exists>fs rest. p @ pending e = concat (map ast_frame fs) @ rest @ pending e' \<and> held s' rest
      \<and> ms = map (msg_of buf_len) fs \<and> (\<forall>f \<in> set fs. length (snd f) \<le> 65535)"
  using assms
proof (induction n arbitrary: s p e ms s' e')
  case 0
  then show ?case by (intro exI [of _ "[]"] exI [of _ p]) simp
next
  case (Suc n)
  obtain r m s1 e1 where rd: "read s e = (r, m, s1, e1)" by (metis prod_cases4)
  obtain ms1 s2 e2 where rest: "read_times read n s1 e1 = (ms1, s2, e2)" by (metis prod_cases3)
  from Suc.prems(2) rd rest have eq: "ms = (case m of None \<Rightarrow> ms1 | Some x \<Rightarrow> x # ms1)" "s' = s2" "e' = e2"
    by simp_all
  from read_step [OF Suc.prems(1) rd] obtain q where q: "pending e = q @ pending e1"
    "if r = 1 then held s1 [] \<and> (\<exists>f. length (snd f) \<le> 65535 \<and> p @ q = ast_frame f \<and> m = Some (msg_of buf_len f))
     else m = None \<and> held s1 (p @ q)" by blast
  show ?case
  proof (cases "r = 1")
    case True
    with q(2) obtain f where f: "held s1 []" "length (snd f) \<le> 65535" "p @ q = ast_frame f"
      "m = Some (msg_of buf_len f)" by auto
    from Suc.IH [OF f(1) rest] obtain fs rest' where "[] @ pending e1 = concat (map ast_frame fs) @ rest' @ pending e2"
      "held s2 rest'" "ms1 = map (msg_of buf_len) fs" "\<forall>f \<in> set fs. length (snd f) \<le> 65535" by blast
    with q(1) f eq show ?thesis by (intro exI [of _ "f # fs"] exI [of _ rest']) (simp flip: f(3))
  next
    case False
    with q(2) have "m = None" "held s1 (p @ q)" by auto
    with Suc.IH [OF _ rest, of "p @ q"] q(1) eq show ?thesis by simp
  qed
qed

text \<open>As many calls as there are frames and stops report every frame.\<close>

lemma reads_deliver:
  assumes "held s p" and "read_times read n s e = (ms, s', e')"
    and "p @ pending e = concat (map ast_frame fs)" and "\<forall>f \<in> set fs. length (snd f) \<le> 65535"
    and "length fs + stop_count e \<le> n"
  shows "ms = map (msg_of buf_len) fs"
  using assms
proof (induction n arbitrary: s p e ms s' e' fs)
  case 0
  then show ?case by simp
next
  case (Suc n)
  obtain r m s1 e1 where rd: "read s e = (r, m, s1, e1)" by (metis prod_cases4)
  obtain ms1 s2 e2 where rest: "read_times read n s1 e1 = (ms1, s2, e2)" by (metis prod_cases3)
  from Suc.prems(2) rd rest have eq: "ms = (case m of None \<Rightarrow> ms1 | Some x \<Rightarrow> x # ms1)" by simp
  note st = read_stops [OF rd]
  from read_step [OF Suc.prems(1) rd] obtain q where q: "pending e = q @ pending e1"
    "if r = 1 then held s1 [] \<and> (\<exists>f. length (snd f) \<le> 65535 \<and> p @ q = ast_frame f \<and> m = Some (msg_of buf_len f))
     else m = None \<and> held s1 (p @ q)" by blast
  consider (frame) "r = 1" | (stop) "r \<noteq> 1" "stop_count e1 < stop_count e" | (none) "r \<noteq> 1" "pending e1 = []"
    using st by blast
  then show ?case
  proof cases
    case frame
    with q(2) obtain f where f: "held s1 []" "length (snd f) \<le> 65535" "p @ q = ast_frame f"
      "m = Some (msg_of buf_len f)" by auto
    have "concat (map ast_frame [f]) @ pending e1 = concat (map ast_frame fs)"
      using Suc.prems(3) by (simp add: q(1) flip: f(3))
    from frames_are_prefix [OF this Suc.prems(4)] f(2) obtain hs where
      hs: "fs = f # hs" "pending e1 = concat (map ast_frame hs)" by auto
    have "ms1 = map (msg_of buf_len) hs"
      by (rule Suc.IH [OF f(1) rest]) (use hs st Suc.prems(4,5) in simp_all)
    with eq f(4) hs(1) show ?thesis by simp
  next
    case stop
    with q(2) have h: "m = None" "held s1 (p @ q)" by simp_all
    have "ms1 = map (msg_of buf_len) fs"
      by (rule Suc.IH [OF h(2) rest]) (use q(1) stop(2) Suc.prems(3,4,5) in simp_all)
    with eq h(1) show ?thesis by simp
  next
    case none
    with q(2) have h: "m = None" "held s1 (p @ q)" by simp_all
    have all: "p @ q = concat (map ast_frame fs)" using Suc.prems(3) q(1) none(2) by simp
    have nil: "fs = []"
    proof (cases fs)
      case (Cons f fs')
      with Suc.prems(4) have "p @ q \<noteq> ast_frame f @ concat (map ast_frame fs')"
        by (intro held_partial [OF h(2)]) simp
      with all Cons show ?thesis by simp
    qed
    from read_times_frames [OF h(2) rest] obtain gs x where
      g: "(p @ q) @ pending e1 = concat (map ast_frame gs) @ x" "ms1 = map (msg_of buf_len) gs" by blast
    have "gs = []" using g(1) all nil none(2) by (cases gs) (simp_all add: ast_frame_nonempty)
    with g(2) have "ms1 = []" by simp
    with eq h(1) nil show ?thesis by simp
  qed
qed

text \<open>If what arrives is a sequence of frames, the messages reported are an initial part of it, in order, whatever the
  segmentation; what is not reported yet is held or still to be read; and nothing is missing after enough calls.\<close>

lemma reads_follow_stream:
  assumes "held s []" and "read_times read n s e = (ms, s', e')"
    and "pending e = concat (map ast_frame fs)" and "\<forall>f \<in> set fs. length (snd f) \<le> 65535"
  shows "\<exists>now later h. fs = now @ later \<and> ms = map (msg_of buf_len) now
     \<and> held s' h \<and> h @ pending e' = concat (map ast_frame later)
     \<and> (length fs + stop_count e \<le> n \<longrightarrow> later = [])"
proof -
  from read_times_frames [OF assms(1,2)] obtain gs rest where
    g: "concat (map ast_frame fs) = concat (map ast_frame gs) @ rest @ pending e'"
      "held s' rest" "ms = map (msg_of buf_len) gs" "\<forall>f \<in> set gs. length (snd f) \<le> 65535"
    using assms(3) by auto
  from frames_are_prefix [OF g(1) [symmetric] assms(4) g(4)] obtain hs where
    hs: "fs = gs @ hs" "rest @ pending e' = concat (map ast_frame hs)" by blast
  have "hs = []" if "length fs + stop_count e \<le> n"
  proof -
    have "ms = map (msg_of buf_len) fs"
      by (rule reads_deliver [OF assms(1,2) _ assms(4) that]) (simp add: assms(3))
    with g(3) have "length gs = length fs" by (metis length_map)
    with hs(1) show ?thesis by simp
  qed
  with g(2,3) hs show ?thesis by blast
qed

end

text \<open>The two call sites read into 4096-byte buffers.\<close>

interpretation ast: frame_reader holds "\<lambda>s es. sm_ast_read s 4096 es" data_of stops 4096
proof
  fix s p e r m s' e'
  assume "holds s p" and "sm_ast_read s 4096 e = (r, m, s', e')"
  then show "\<exists>q. data_of e = q @ data_of e' \<and>
       (if r = 1 then holds s' [] \<and> (\<exists>f. length (snd f) \<le> 65535 \<and> p @ q = ast_frame f \<and> m = Some (msg_of 4096 f))
        else m = None \<and> holds s' (p @ q))"
    using sm_ast_read_step [of s 4096 e r m s' e' p] unfolding read_outcome_def by fastforce
qed (rule sm_ast_read_stops holds_partial; assumption)+

subsection \<open>Writing\<close>

lemma send_all_prefix:
  "send_all buf es = (r, out, es') \<Longrightarrow>
     (r = 0 \<and> out = buf) \<or> (r = -1 \<and> (\<exists>rest. rest \<noteq> [] \<and> buf = out @ rest))"
proof (induction buf es arbitrary: r out es' rule: send_all.induct)
  case (9 b bs n es)
  obtain r1 out1 es1 where s: "send_all (drop n (b # bs)) es = (r1, out1, es1)" by (metis prod_cases3)
  with "9.prems" have eq: "r = r1" "out = take n (b # bs) @ out1" by simp_all
  have "b # bs = take n (b # bs) @ drop n (b # bs)" by simp
  with "9.IH" [OF s] eq show ?case by (metis append.assoc)
qed auto

lemma sm_ast_write_result:
  assumes "sm_ast_write kind payload es = (r, out, es')"
  shows "(r = 0 \<and> length payload \<le> 65535 \<and> out = ast_frame (kind, payload))
       \<or> (r = -1 \<and> (\<exists>rest. rest \<noteq> [] \<and> ast_frame (kind, payload) = out @ rest))"
proof (cases "length payload > 0xFFFF")
  case True
  with assms show ?thesis by (simp add: sm_ast_write_def ast_frame_nonempty)
next
  case False
  obtain r1 out1 es1 where s1: "send_all (ast_header kind (length payload)) es = (r1, out1, es1)"
    by (metis prod_cases3)
  obtain r2 out2 es2 where s2: "send_all payload es1 = (r2, out2, es2)" by (metis prod_cases3)
  show ?thesis
    using send_all_prefix [OF s1] send_all_prefix [OF s2] assms False s1 s2
    by (auto simp: sm_ast_write_def ast_frame_def split: if_splits)
qed

lemma length_samples_bytes [simp]: "length (samples_bytes xs) = 2 * length xs"
  by (induction xs) (simp_all add: samples_bytes_def)

lemma bytes_samples_inverse: "bytes_samples (samples_bytes xs) = xs"
proof (induction xs)
  case (Cons x xs)
  have "(ucast (ucast x :: u8) :: u16) OR push_bit 8 (ucast (ucast (drop_bit 8 x) :: u8)) = x"
    by (rule bit_eqI) (auto simp: bit_simps)
  with Cons show ?case by (simp add: samples_bytes_def)
qed (simp add: samples_bytes_def)

subsection \<open>Properties\<close>

text \<open>C6: reading is resumable, loses nothing and makes progress: when the peer's bytes are a sequence of frames, the
  messages that any number of calls report are an initial part of that sequence, in order, with the
  kind, the payload (its first 4096 bytes) and the length sent, for every segmentation, timeout,
  interrupted or failing system call; the frames not reported yet are, byte for byte, what the connection holds of a frame
  in progress followed by what it has not read; and as many calls as there are frames and failing or timed-out
  system calls report every frame.\<close>

theorem ast_read_follows_stream:
  assumes "read_times (\<lambda>s es. sm_ast_read s 4096 es) n (sm_ast_init fd) es = (ms, s', es')"
    and "data_of es = concat (map ast_frame fs)" and "\<forall>f \<in> set fs. length (snd f) \<le> 65535"
  shows "\<exists>now later held. fs = now @ later \<and> ms = map (msg_of 4096) now
     \<and> holds s' held \<and> held @ data_of es' = concat (map ast_frame later)
     \<and> (length fs + stops es \<le> n \<longrightarrow> later = [])"
  by (rule ast.reads_follow_stream [OF holds_init assms])

theorem ast_read_follows_stream_witness:
  "fst (read_times (\<lambda>s es. sm_ast_read s 4096 es) 3 (sm_ast_init 5)
       [RecvData 0x10 [0], PollTimeout, RecvIntr, RecvData 2 [7, 8, 3, 0, 0]])
     = [msg_of 4096 (0x10, [7, 8]), msg_of 4096 (3, [])]"
proof -
  let ?es = "[RecvData 0x10 [0], PollTimeout, RecvIntr, RecvData 2 [7, 8, 3, 0, 0]]"
  obtain ms s' es' where rd: "read_times (\<lambda>s es. sm_ast_read s 4096 es) 3 (sm_ast_init 5) ?es = (ms, s', es')"
    by (metis prod_cases3)
  have "data_of ?es = concat (map ast_frame [(0x10, [7, 8]), (3, [])])"
    by code_simp
  from ast_read_follows_stream [OF rd this] rd show ?thesis by auto
qed

text \<open>A write that reports success has put exactly one well-formed frame on the stream; a write
  that fails has sent a proper prefix of it; a payload above 65535 bytes is refused unsent.\<close>

theorem ast_write_frames:
  shows "case sm_ast_write kind payload es of (r, out, es') \<Rightarrow>
      (r = 0 \<and> length payload \<le> 65535 \<and> out = ast_frame (kind, payload))
    \<or> (r = -1 \<and> (\<exists>rest. rest \<noteq> [] \<and> ast_frame (kind, payload) = out @ rest)
             \<and> (length payload > 65535 \<longrightarrow> out = []))"
proof -
  obtain r out es' where w: "sm_ast_write kind payload es = (r, out, es')" by (metis prod_cases3)
  then have "length payload > 65535 \<Longrightarrow> out = []" by (simp add: sm_ast_write_def)
  with sm_ast_write_result [OF w] w show ?thesis by auto
qed

theorem ast_write_frames_witness:
  "case sm_ast_write 1 [9] [SendOk 2, SPollTimeout] of (r, out, es') \<Rightarrow> r = -1 \<and> out = [1, 0]"
  using ast_write_frames [where kind = 1 and payload = "[9]" and es = "[SendOk 2, SPollTimeout]"]
  by (simp add: sm_ast_write_def ast_header_def)

end
