(* ===== verification/G711.thy ===== *)
theory G711
  imports Prelude
begin

text \<open>
  The G.711 mu-law codec of \<open>src/src/sip/sm_sip.c\<close>. Linear samples are C's \<open>int\<close> values in
  the range of \<open>int16_t\<close>, codes are bytes. \<open>NOT\<close>, \<open>AND\<close>, \<open>OR\<close> and the shifts are the C operators;
  an arithmetic right shift of a negative \<open>int\<close> is \<open>drop_bit\<close>.
\<close>

definition sm_ulaw_decode :: "u8 \<Rightarrow> int" where
  "sm_ulaw_decode u0 =
     (let u = NOT u0;
          t0 = push_bit 3 (uint (u AND 0x0F)) + 0x84;
          t = push_bit (unat (drop_bit 4 (u AND 0x70))) t0
      in if u AND 0x80 \<noteq> 0 then 0x84 - t else t - 0x84)"

definition ulaw_BIAS :: int where "ulaw_BIAS = 0x84"
definition ulaw_CLIP :: int where "ulaw_CLIP = 32635"

text \<open>The normalising loop: shift left until bit 14 is set or the exponent is used up.\<close>

fun ulaw_normalise :: "int \<Rightarrow> nat \<Rightarrow> int \<times> nat" where
  "ulaw_normalise sample 0 = (sample, 0)"
| "ulaw_normalise sample (Suc e) =
     (if sample AND 0x4000 = 0 then ulaw_normalise (push_bit 1 sample) e else (sample, Suc e))"

definition sm_ulaw_encode :: "int \<Rightarrow> u8" where
  "sm_ulaw_encode pcm =
     (let sign = drop_bit 8 pcm AND 0x80;
          s0 = (if sign \<noteq> 0 then - pcm else pcm);
          s1 = (if s0 > ulaw_CLIP then ulaw_CLIP else s0);
          (s2, e) = ulaw_normalise (s1 + ulaw_BIAS) 7;
          mantissa = drop_bit 10 s2 AND 0x0F
      in NOT (word_of_int (sign OR push_bit 4 (int e) OR mantissa)))"

subsection \<open>Segments and steps\<close>

text \<open>The code of a sign, a segment \<open>e\<close> and a step \<open>m\<close>, and the sample it stands for.\<close>

definition ulaw_byte :: "bool \<Rightarrow> nat \<Rightarrow> int \<Rightarrow> u8" where
  "ulaw_byte neg e m = NOT (word_of_int ((if neg then 0x80 else 0) OR push_bit 4 (int e) OR m))"

definition ulaw_sample :: "bool \<Rightarrow> nat \<Rightarrow> int \<Rightarrow> int" where
  "ulaw_sample neg e m = (if neg then 132 - (8 * m + 132) * 2 ^ e else (8 * m + 132) * 2 ^ e - 132)"

lemma ulaw_decode_table:
  "list_all (\<lambda>neg. list_all (\<lambda>e. list_all (\<lambda>m.
      sm_ulaw_decode (ulaw_byte neg e (int m)) = ulaw_sample neg e (int m)) [0..<16]) [0..<8]) [True, False]"
  by code_simp

lemma ulaw_bytes_table:
  "list_all (\<lambda>n. word_of_nat n = ulaw_byte (n < 128) (7 - n div 16 mod 8) (15 - int n mod 16)) [0..<256]"
  by code_simp

lemma ulaw_decode_byte:
  assumes "e < 8" and "0 \<le> m" and "m < 16"
  shows "sm_ulaw_decode (ulaw_byte neg e m) = ulaw_sample neg e m"
proof -
  have "neg \<in> set [True, False]" by (cases neg) simp_all
  moreover have "e \<in> set [0..<8]" "nat m \<in> set [0..<16]" using assms by auto
  ultimately have "sm_ulaw_decode (ulaw_byte neg e (int (nat m))) = ulaw_sample neg e (int (nat m))"
    using ulaw_decode_table unfolding list_all_iff by blast
  with assms(2) show ?thesis by simp
qed

lemma ulaw_byte_cases:
  obtains neg e m where "u = ulaw_byte neg e m" "e < 8" "0 \<le> m" "m < 16"
proof -
  have "unat u \<in> set [0..<256]"
    using unsigned_less [where ?'a = nat, of u] by simp
  then have "word_of_nat (unat u) = ulaw_byte (unat u < 128) (7 - unat u div 16 mod 8) (15 - int (unat u) mod 16)"
    using ulaw_bytes_table unfolding list_all_iff by blast
  then show ?thesis
    by (intro that [of "unat u < 128" "7 - unat u div 16 mod 8" "15 - int (unat u) mod 16"]) simp_all
qed

lemma and_bit14:
  fixes x :: int
  assumes "0 \<le> x" and "x < 2 ^ 15"
  shows "x AND 0x4000 = 0 \<longleftrightarrow> x < 2 ^ 14"
proof -
  have "x div 2 ^ 14 = (if x < 2 ^ 14 then 0 else 1)"
    using assms by auto
  then have "bit x 14 \<longleftrightarrow> \<not> x < 2 ^ 14"
    by (simp add: bit_iff_odd)
  moreover have "(0x4000 :: int) = 2 ^ 14" by simp
  ultimately show ?thesis by (metis and_exp_eq_0_iff_not_bit)
qed

lemma ulaw_normalise_window:
  "0 < x \<Longrightarrow> 2 ^ 14 \<le> x * 2 ^ j \<Longrightarrow> x * 2 ^ j < 2 ^ 15 \<Longrightarrow> j \<le> e \<Longrightarrow>
     ulaw_normalise x e = (x * 2 ^ j, e - j)"
proof (induction j arbitrary: x e)
  case 0
  then show ?case by (cases e) (simp_all add: and_bit14)
next
  case (Suc j)
  then obtain e' where e: "e = Suc e'" by (cases e) auto
  have "1 \<le> (2::int) ^ j" by simp
  then have "x * 2 * 1 \<le> x * 2 * 2 ^ j"
    using Suc.prems(1) by (intro mult_left_mono) simp_all
  with Suc.prems(3) have lt: "x < 2 ^ 14" by (simp add: ac_simps)
  have "ulaw_normalise (x * 2) e' = (x * 2 * 2 ^ j, e' - j)"
    using Suc.prems e by (intro Suc.IH) (simp_all add: ac_simps)
  with lt Suc.prems(1) e show ?case
    by (simp add: and_bit14 push_bit_eq_mult ac_simps)
qed

text \<open>The biased magnitude a sample is coded from, and the interval of segment \<open>e\<close>, step \<open>m\<close>.\<close>

definition ulaw_mag :: "int \<Rightarrow> int" where
  "ulaw_mag pcm = min \<bar>pcm\<bar> 32635 + 132"

definition in_step :: "nat \<Rightarrow> int \<Rightarrow> int \<Rightarrow> bool" where
  "in_step e m x \<longleftrightarrow> e < 8 \<and> 0 \<le> m \<and> m < 16 \<and> (16 + m) * 2 ^ (e + 3) \<le> x \<and> x < (17 + m) * 2 ^ (e + 3)"

lemma and_exp_bit: "d AND 2 ^ n = (if bit d n then 2 ^ n else 0)" for d :: int
  by (rule bit_eqI) (auto simp: bit_and_iff bit_exp_iff)

lemma ulaw_sign:
  assumes "-32768 \<le> pcm" and "pcm \<le> 32767"
  shows "drop_bit 8 pcm AND 0x80 = (if pcm < 0 then 0x80 else (0::int))"
proof -
  define d where "d = pcm div 256"
  have "-128 \<le> d" "d < 128" "d < 0 \<longleftrightarrow> pcm < 0" using assms by (auto simp: d_def)
  then have "d div 2 ^ 7 = (if pcm < 0 then -1 else 0)" by auto
  then have "bit d 7 \<longleftrightarrow> pcm < 0" by (auto simp: bit_iff_odd)
  then show ?thesis
    using and_exp_bit [of d 7] by (simp add: d_def drop_bit_eq_div)
qed

lemma ulaw_encode_step:
  assumes range: "-32768 \<le> pcm" "pcm \<le> 32767" and step: "in_step e m (ulaw_mag pcm)"
  shows "sm_ulaw_encode pcm = ulaw_byte (pcm < 0) e m"
proof -
  let ?x = "ulaw_mag pcm" and ?j = "7 - e"
  from step have em: "e < 8" "0 \<le> m" "m < 16" and lo: "(16 + m) * 2 ^ (e + 3) \<le> ?x"
    and hi: "?x < (17 + m) * 2 ^ (e + 3)" by (simp_all add: in_step_def)
  have pow: "(2::int) ^ (e + 3) * 2 ^ ?j = 1024"
    using em(1) by (simp flip: power_add)
  have s_lo: "(16 + m) * 1024 \<le> ?x * 2 ^ ?j"
    using mult_right_mono [OF lo, of "2 ^ ?j"] pow by (simp add: mult.assoc)
  have s_hi: "?x * 2 ^ ?j < (17 + m) * 1024"
    using mult_strict_right_mono [OF hi, of "2 ^ ?j"] pow by (simp add: mult.assoc)
  have "0 < ?x" by (simp add: ulaw_mag_def)
  then have norm: "ulaw_normalise ?x 7 = (?x * 2 ^ ?j, e)"
    using ulaw_normalise_window [of ?x ?j 7] s_lo s_hi em by simp
  have "?x * 2 ^ ?j div 1024 = 16 + m" using s_lo s_hi by simp
  moreover have "(16 + m) AND 0x0F = m"
    using em take_bit_eq_mask [of 4 "16 + m"] by (simp add: mask_eq_exp_minus_1 take_bit_eq_mod)
  ultimately have mant: "drop_bit 10 (?x * 2 ^ ?j) AND 0x0F = m"
    by (simp add: drop_bit_eq_div)
  have "sm_ulaw_encode pcm = (case ulaw_normalise ?x 7 of (s2, e) \<Rightarrow>
      NOT (word_of_int ((if pcm < 0 then 0x80 else 0) OR push_bit 4 (int e) OR (drop_bit 10 s2 AND 0x0F))))"
    by (cases "pcm < 0") (simp_all add: sm_ulaw_encode_def Let_def ulaw_sign [OF range] ulaw_mag_def
        ulaw_CLIP_def ulaw_BIAS_def min_def)
  with norm mant show ?thesis by (simp add: ulaw_byte_def)
qed

lemma ulaw_segment_exists:
  assumes "132 \<le> x" and "x < 32768"
  shows "\<exists>e m. in_step e m x"
proof -
  have seg: "\<exists>e m. in_step e m x" if "128 * 2 ^ e \<le> x" "x < 256 * 2 ^ e" "e < 8" for e
  proof -
    let ?w = "(2::int) ^ (e + 3)"
    have w: "0 < ?w" "16 * ?w \<le> x" "x < 32 * ?w" using that by (simp_all add: power_add)
    have f: "x div ?w * ?w + x mod ?w = x" "0 \<le> x mod ?w" "x mod ?w < ?w"
      using w(1) by (simp_all only: div_mult_mod_eq pos_mod_sign pos_mod_bound)
    have "x div ?w * ?w \<le> x" using f by linarith
    moreover have "x < (1 + x div ?w) * ?w"
      unfolding distrib_right mult_1_left using f by linarith
    moreover have "16 \<le> x div ?w" using zdiv_mono1 [OF w(2,1)] w(1) by simp
    moreover have "x div ?w < 32"
    proof (rule ccontr)
      assume "\<not> x div ?w < 32"
      then have "32 * ?w \<le> x div ?w * ?w" using w(1) by (intro mult_right_mono) simp_all
      with f w(3) show False by linarith
    qed
    ultimately show ?thesis
      using that(3) by (intro exI [of _ e] exI [of _ "x div ?w - 16"]) (simp add: in_step_def)
  qed
  consider "x < 256" | "256 \<le> x" "x < 512" | "512 \<le> x" "x < 1024" | "1024 \<le> x" "x < 2048"
    | "2048 \<le> x" "x < 4096" | "4096 \<le> x" "x < 8192" | "8192 \<le> x" "x < 16384" | "16384 \<le> x"
    by linarith
  then show ?thesis
    using assms seg [of 0] seg [of 1] seg [of 2] seg [of 3] seg [of 4] seg [of 5] seg [of 6] seg [of 7]
    by cases simp_all
qed

lemma ulaw_pow_bounds: "e < 8 \<Longrightarrow> 1 \<le> (2::int) ^ e \<and> (2::int) ^ e \<le> 128"
  using power_increasing [of e 7 "2::int"] by simp

lemma ulaw_sample_bounds:
  fixes m :: int
  assumes "e < 8" and "0 \<le> m" and "m < 16"
  shows "0 \<le> (8 * m + 132) * 2 ^ e - 132" and "(8 * m + 132) * 2 ^ e - 132 \<le> 32124"
    and "(8 * m + 132) * 2 ^ e - 132 = 0 \<longleftrightarrow> e = 0 \<and> m = 0"
proof -
  note p = ulaw_pow_bounds [OF assms(1)]
  have lo: "(8 * m + 132) * 1 \<le> (8 * m + 132) * 2 ^ e"
    using p assms by (intro mult_left_mono) simp_all
  have "132 \<le> y" if "(8 * m + 132) * 1 \<le> y" for y :: int using that assms(2) by simp
  from this [OF lo] show "0 \<le> (8 * m + 132) * 2 ^ e - 132" by simp
  have "(8 * m + 132) * 2 ^ e \<le> 252 * 128"
    using p assms by (intro mult_mono) simp_all
  then show "(8 * m + 132) * 2 ^ e - 132 \<le> 32124" by simp
  show "(8 * m + 132) * 2 ^ e - 132 = 0 \<longleftrightarrow> e = 0 \<and> m = 0"
  proof
    assume z: "(8 * m + 132) * 2 ^ e - 132 = 0"
    have "m = 0" if "(8 * m + 132) * 1 \<le> y" "y - 132 = 0" for y :: int using that assms(2) by simp
    from this [OF lo z] have m0: "m = 0" .
    with z have "(2::int) ^ e = 1" by simp
    then have "e = 0" using power_inject_exp [of "2::int" e 0] by simp
    with m0 show "e = 0 \<and> m = 0" by simp
  qed simp
qed

lemma ulaw_sample_step:
  assumes "e < 8" and "0 \<le> m" and "m < 16"
  shows "in_step e m (ulaw_mag (ulaw_sample neg e m))"
proof -
  have "ulaw_mag (ulaw_sample neg e m) = (8 * m + 132) * 2 ^ e"
    using ulaw_sample_bounds [OF assms] by (auto simp: ulaw_mag_def ulaw_sample_def)
  moreover have "(2::int) ^ (e + 3) = 8 * 2 ^ e" by (simp add: power_add)
  ultimately show ?thesis
    using assms by (simp add: in_step_def algebra_simps)
qed

subsection \<open>Properties\<close>

text \<open>C24: encoding a decoded code gives the code back, for all 256 codes but 0x7F (minus zero),
  which decodes to 0 and so comes back as plus zero, 0xFF; decoded samples fit 16 bits.\<close>

theorem ulaw_roundtrip:
  "sm_ulaw_encode (sm_ulaw_decode u) = (if u = 0x7F then 0xFF else u)
   \<and> \<bar>sm_ulaw_decode u\<bar> \<le> 32124"
proof -
  obtain neg e m where u: "u = ulaw_byte neg e m" and em: "e < 8" "0 \<le> m" "m < 16"
    by (rule ulaw_byte_cases)
  let ?s = "ulaw_sample neg e m"
  note b = ulaw_sample_bounds [OF em]
  have dec: "sm_ulaw_decode u = ?s" using u ulaw_decode_byte [OF em] by simp
  have abs: "\<bar>?s\<bar> \<le> 32124" using b by (auto simp: ulaw_sample_def)
  have neg: "?s < 0 \<longleftrightarrow> neg \<and> \<not> (e = 0 \<and> m = 0)"
    using b by (auto simp: ulaw_sample_def)
  have enc: "sm_ulaw_encode ?s = ulaw_byte (neg \<and> \<not> (e = 0 \<and> m = 0)) e m"
    using ulaw_encode_step [OF _ _ ulaw_sample_step [OF em]] abs neg by simp
  have z: "ulaw_byte True 0 0 = 0x7F" "ulaw_byte False 0 0 = 0xFF" by (simp_all add: ulaw_byte_def)
  show ?thesis
  proof (cases "neg \<and> e = 0 \<and> m = 0")
    case True
    with u z dec enc abs show ?thesis by simp
  next
    case False
    then have "sm_ulaw_encode (sm_ulaw_decode u) = u" using dec enc u by auto
    moreover from this have "u \<noteq> 0x7F"
    proof (rule contrapos_pn)
      have "sm_ulaw_encode (sm_ulaw_decode 0x7F) = 0xFF" by code_simp
      then show "\<not> sm_ulaw_encode (sm_ulaw_decode u) = u" if "u = 0x7F" using that by simp
    qed
    ultimately show ?thesis using dec abs by simp
  qed
qed

text \<open>For every sample the encoder does not clip, decoding its code is off by at most a 32nd of
  the sample's biased magnitude, so the quantisation error is relative, never above 512.\<close>

theorem ulaw_quantisation_error:
  assumes "\<bar>pcm\<bar> \<le> 32635"
  shows "32 * \<bar>sm_ulaw_decode (sm_ulaw_encode pcm) - pcm\<bar> \<le> \<bar>pcm\<bar> + 132
       \<and> \<bar>sm_ulaw_decode (sm_ulaw_encode pcm) - pcm\<bar> \<le> 512"
proof -
  let ?x = "ulaw_mag pcm"
  have x: "?x = \<bar>pcm\<bar> + 132" using assms by (simp add: ulaw_mag_def)
  then obtain e m where step: "in_step e m ?x"
    using ulaw_segment_exists [of ?x] assms by auto
  then have em: "e < 8" "0 \<le> m" "m < 16" by (simp_all add: in_step_def)
  have p8: "(2::int) ^ (e + 3) = 8 * 2 ^ e" by (simp add: power_add)
  have dec: "sm_ulaw_decode (sm_ulaw_encode pcm) = ulaw_sample (pcm < 0) e m"
    using ulaw_encode_step [OF _ _ step] ulaw_decode_byte [OF em] assms by simp
  have err: "\<bar>sm_ulaw_decode (sm_ulaw_encode pcm) - pcm\<bar> = \<bar>(8 * m + 132) * 2 ^ e - ?x\<bar>"
  proof -
    have "\<bar>(if pcm < 0 then 132 - y else y - 132) - pcm\<bar> = \<bar>y - (\<bar>pcm\<bar> + 132)\<bar>" for y :: int
      by (simp add: abs_if)
    then show ?thesis unfolding dec x ulaw_sample_def by simp
  qed
  have "(16 + m) * (8 * 2 ^ e) \<le> ?x" "?x < (17 + m) * (8 * 2 ^ e)"
    using step by (simp_all add: in_step_def p8)
  then have dist: "\<bar>(8 * m + 132) * 2 ^ e - ?x\<bar> \<le> 4 * 2 ^ e"
    by (simp add: algebra_simps abs_le_iff)
  have "16 * (8 * 2 ^ e) \<le> (16 + m) * (8 * (2::int) ^ e)"
    using em by (intro mult_right_mono) simp_all
  then have low: "128 * 2 ^ e \<le> ?x" using \<open>(16 + m) * (8 * 2 ^ e) \<le> ?x\<close> by linarith
  have arith: "32 * d \<le> \<bar>pcm\<bar> + 132 \<and> d \<le> 512"
    if "d \<le> 4 * p" "128 * p \<le> \<bar>pcm\<bar> + 132" "p \<le> 128" for d p :: int
    using that by linarith
  show ?thesis
    unfolding err using low ulaw_pow_bounds [OF em(1)] unfolding x by (intro arith [OF dist [unfolded x]]) simp_all
qed

theorem ulaw_quantisation_error_witness:
  "\<bar>sm_ulaw_decode (sm_ulaw_encode (-20000)) - (-20000)\<bar> \<le> 512"
  using ulaw_quantisation_error [of "-20000"] by simp

end
