(* ===== verification/C_String.thy ===== *)
theory C_String
  imports Prelude
begin

text \<open>
  C strings and the library functions on them that the SIP server, the daemons, the BBS and
  the pppd launcher use. A \<open>char\<close> array is a list of characters; a C string is the part of it
  before the first NUL (\<open>cstr\<close>). Pointers into a string are the suffix they point at.
\<close>

definition NUL :: char where "NUL = CHR 0x00"
definition NL :: char where "NL = CHR 0x0A"
definition CR :: char where "CR = CHR 0x0D"

definition CRLF :: string where "CRLF = [CHR 0x0D, CHR 0x0A]"

definition cstr :: "string \<Rightarrow> string" where
  "cstr s = takeWhile (\<lambda>c. c \<noteq> NUL) s"

text \<open>\<open>snprintf\<close> into an array of \<open>sz\<close> bytes: the string that ends up there.\<close>

definition snprintf :: "nat \<Rightarrow> string \<Rightarrow> string" where
  "snprintf sz s = take (sz - 1) s"

definition to_lower :: "char \<Rightarrow> char" where
  "to_lower c = (let n = of_char c :: nat in if 65 \<le> n \<and> n \<le> 90 then char_of (n + 32) else c)"

definition is_space :: "char \<Rightarrow> bool" where
  "is_space c \<longleftrightarrow> c = CHR '' '' \<or> (let n = of_char c :: nat in 9 \<le> n \<and> n \<le> 13)"

definition is_digit :: "char \<Rightarrow> bool" where
  "is_digit c \<longleftrightarrow> (let n = of_char c :: nat in 48 \<le> n \<and> n \<le> 57)"

definition digit_val :: "char \<Rightarrow> nat" where
  "digit_val c = of_char c - 48"

text \<open>Whether the first \<open>length lit\<close> characters at a pointer are those of a literal:
  \<open>strncmp (s, lit, strlen (lit)) == 0\<close> and its case-insensitive form.\<close>

definition starts_with :: "string \<Rightarrow> string \<Rightarrow> bool" where
  "starts_with lit s \<longleftrightarrow> take (length lit) s = lit"

definition starts_with_case :: "string \<Rightarrow> string \<Rightarrow> bool" where
  "starts_with_case lit s \<longleftrightarrow> map to_lower (take (length lit) s) = map to_lower lit"

text \<open>\<open>strchr\<close> and \<open>strstr\<close> return the suffix at the match, or None for NULL.\<close>

fun strchr :: "string \<Rightarrow> char \<Rightarrow> string option" where
  "strchr [] c = None"
| "strchr (x # xs) c = (if x = c then Some (x # xs) else if x = NUL then None else strchr xs c)"

fun strstr :: "string \<Rightarrow> string \<Rightarrow> string option" where
  "strstr [] lit = (if lit = [] then Some [] else None)"
| "strstr (x # xs) lit =
     (if starts_with lit (x # xs) then Some (x # xs) else if x = NUL then None else strstr xs lit)"

subsection \<open>Numbers\<close>

definition digits_val :: "string \<Rightarrow> int" where
  "digits_val ds = foldl (\<lambda>n c. 10 * n + int (digit_val c)) 0 ds"

text \<open>\<open>strtol\<close> saturates at the bounds of \<open>long\<close>; \<open>atoi\<close> is its value cut to \<open>int\<close>.\<close>

definition strtol10 :: "string \<Rightarrow> int \<times> string" where
  "strtol10 s =
     (let s1 = dropWhile is_space s;
          (neg, s2) = (case s1 of [] \<Rightarrow> (False, [])
                       | c # cs \<Rightarrow> if c = CHR ''-'' then (True, cs)
                                   else if c = CHR ''+'' then (False, cs) else (False, s1));
          ds = takeWhile is_digit s2;
          v = (if neg then - digits_val ds else digits_val ds)
      in if ds = [] then (0, s) else (max (- (2 ^ 63)) (min (2 ^ 63 - 1) v), dropWhile is_digit s2))"

definition atoi :: "string \<Rightarrow> int" where
  "atoi s = sint (word_of_int (fst (strtol10 s)) :: 32 word)"

text \<open>\<open>%d\<close>, \<open>%u\<close> and \<open>%08x\<close>.\<close>

definition digit_char :: "nat \<Rightarrow> char" where
  "digit_char n = char_of (48 + n)"

fun dec_nat :: "nat \<Rightarrow> string" where
  "dec_nat n = (if n < 10 then [digit_char n] else dec_nat (n div 10) @ [digit_char (n mod 10)])"

declare dec_nat.simps [simp del]

definition dec_int :: "int \<Rightarrow> string" where
  "dec_int i = (if i < 0 then CHR ''-'' # dec_nat (nat (- i)) else dec_nat (nat i))"

definition hex_char :: "nat \<Rightarrow> char" where
  "hex_char n = (if n < 10 then char_of (48 + n) else char_of (87 + n))"

definition hex08 :: "u32 \<Rightarrow> string" where
  "hex08 w = map (\<lambda>i. hex_char (unat (drop_bit (4 * (7 - i)) w) mod 16)) [0..<8]"

subsection \<open>Lemmas\<close>

lemma cstr_id: "NUL \<notin> set s \<Longrightarrow> cstr s = s"
  by (auto simp: cstr_def takeWhile_eq_all_conv)

lemma length_cstr: "length (cstr s) \<le> length s"
  by (simp add: cstr_def length_takeWhile_le)

lemma NUL_cstr [simp]: "NUL \<notin> set (cstr s)"
  by (auto simp: cstr_def dest: set_takeWhileD)

lemma length_snprintf: "length (snprintf n s) \<le> n - 1"
  by (simp add: snprintf_def)

lemma snprintf_fits: "length s < n \<Longrightarrow> snprintf n s = s"
  by (simp add: snprintf_def)

lemma NUL_snprintf: "NUL \<notin> set s \<Longrightarrow> NUL \<notin> set (snprintf n s)"
  by (auto simp: snprintf_def dest: in_set_takeD)

lemma strchr_prefix: "c \<notin> set xs \<Longrightarrow> NUL \<notin> set xs \<Longrightarrow> strchr (xs @ c # ys) c = Some (c # ys)"
  by (induction xs) auto

lemma strchr_none: "c \<notin> set xs \<Longrightarrow> strchr xs c = None"
  by (induction xs) auto

lemma strchr_some_split:
  "strchr s c = Some t \<Longrightarrow> \<exists>p. s = p @ t \<and> c \<notin> set p \<and> NUL \<notin> set p \<and> t \<noteq> [] \<and> hd t = c"
proof (induction s)
  case (Cons x xs)
  show ?case
  proof (cases "x = c")
    case True
    with Cons.prems show ?thesis by auto
  next
    case False
    with Cons.prems have "x \<noteq> NUL" "strchr xs c = Some t" by (auto split: if_splits)
    with Cons.IH obtain p where "xs = p @ t \<and> c \<notin> set p \<and> NUL \<notin> set p \<and> t \<noteq> [] \<and> hd t = c" by blast
    with False \<open>x \<noteq> NUL\<close> show ?thesis by (intro exI [of _ "x # p"]) auto
  qed
qed simp

lemma strstr_suffix: "strstr s lit = Some t \<Longrightarrow> \<exists>p. s = p @ t"
  by (induction s) (auto split: if_splits intro: exI [of _ "_ # _"])

lemma digit_char_simps:
  assumes "n < 10"
  shows "is_digit (digit_char n)" and "digit_val (digit_char n) = n"
    and "\<not> is_space (digit_char n)" and "digit_char n \<noteq> NUL"
    and "digit_char n \<noteq> CHR ''-''" and "digit_char n \<noteq> CHR ''+''" and "digit_char n \<noteq> NL"
    and "digit_char n \<noteq> CR" and "digit_char n \<noteq> CHR '' ''"
proof -
  have "list_all (\<lambda>n. is_digit (digit_char n) \<and> digit_val (digit_char n) = n \<and> \<not> is_space (digit_char n)
      \<and> digit_char n \<noteq> NUL \<and> digit_char n \<noteq> CHR ''-'' \<and> digit_char n \<noteq> CHR ''+'' \<and> digit_char n \<noteq> NL
      \<and> digit_char n \<noteq> CR \<and> digit_char n \<noteq> CHR '' '') [0..<10]"
    by code_simp
  moreover have "n \<in> set [0..<10]" using assms by simp
  ultimately show "is_digit (digit_char n)" "digit_val (digit_char n) = n" "\<not> is_space (digit_char n)"
    "digit_char n \<noteq> NUL" "digit_char n \<noteq> CHR ''-''" "digit_char n \<noteq> CHR ''+''"
    "digit_char n \<noteq> NL" "digit_char n \<noteq> CR" "digit_char n \<noteq> CHR '' ''"
    unfolding list_all_iff by blast+
qed

lemma dec_nat_digits: "list_all is_digit (dec_nat n) \<and> dec_nat n \<noteq> []"
proof (induction n rule: dec_nat.induct)
  case (1 n)
  then show ?case unfolding dec_nat.simps [of n] by (simp add: digit_char_simps)
qed

lemma digits_val_snoc: "digits_val (ds @ [c]) = 10 * digits_val ds + int (digit_val c)"
  by (simp add: digits_val_def)

lemma digits_val_dec_nat: "digits_val (dec_nat n) = int n"
proof (induction n rule: dec_nat.induct)
  case (1 n)
  show ?case
  proof (cases "n < 10")
    case True
    then show ?thesis by (subst dec_nat.simps) (simp add: digits_val_def digit_char_simps)
  next
    case False
    then have "digits_val (dec_nat n) = 10 * int (n div 10) + int (n mod 10)"
      using 1 by (subst dec_nat.simps) (simp add: digits_val_snoc digit_char_simps)
    then show ?thesis by presburger
  qed
qed

lemma is_digit_class:
  assumes "is_digit c"
  shows "\<not> is_space c" "c \<noteq> CHR ''-''" "c \<noteq> CHR ''+''" "c \<noteq> NUL" "c \<noteq> NL" "c \<noteq> CR" "c \<noteq> CHR '' ''"
  using assms by (auto simp: is_digit_def is_space_def NUL_def NL_def CR_def Let_def)

lemma dec_nat_set:
  assumes "c \<in> set (dec_nat n)"
  shows "is_digit c"
  using assms dec_nat_digits [of n] by (auto simp: list_all_iff)

lemma NUL_dec_nat [simp]: "NUL \<notin> set (dec_nat n)" and NL_dec_nat [simp]: "NL \<notin> set (dec_nat n)"
  and CR_dec_nat [simp]: "CR \<notin> set (dec_nat n)"
  by (auto dest!: dec_nat_set simp: is_digit_def NUL_def NL_def CR_def)

lemma strtol10_dec_nat:
  assumes "list_all is_space sp" and "rest = [] \<or> \<not> is_digit (hd rest)" and "n < 2 ^ 31"
  shows "strtol10 (sp @ dec_nat n @ rest) = (int n, rest)"
proof -
  obtain c cs where d: "dec_nat n = c # cs" using dec_nat_digits [of n] by (cases "dec_nat n") auto
  then have c: "is_digit c" using dec_nat_digits [of n] by simp
  have "dropWhile is_space (sp @ dec_nat n @ rest) = dec_nat n @ rest"
    using assms(1) c d is_digit_class(1) [of c] by (simp add: dropWhile_append2 list_all_iff dropWhile_append)
  moreover have "takeWhile is_digit (dec_nat n @ rest) = dec_nat n"
    "dropWhile is_digit (dec_nat n @ rest) = rest"
    using assms(2) dec_nat_digits [of n]
    by (cases rest; simp add: takeWhile_append list_all_iff dropWhile_append)+
  moreover have "int n < 2 ^ 31" using assms(3) by simp
  ultimately show ?thesis
    using c d is_digit_class [of c] digits_val_dec_nat [of n]
    by (simp add: strtol10_def Let_def)
qed

lemma atoi_dec_nat:
  assumes "list_all is_space sp" and "rest = [] \<or> \<not> is_digit (hd rest)" and "n < 2 ^ 31"
  shows "atoi (sp @ dec_nat n @ rest) = int n"
proof -
  have "int n < 2 ^ 31" using assms(3) by simp
  then have "signed_take_bit 31 (int n) = int n" by (simp add: signed_take_bit_int_eq_self)
  moreover have "sint (word_of_int k :: 32 word) = signed_take_bit 31 k" for k
    by transfer simp
  ultimately show ?thesis unfolding atoi_def strtol10_dec_nat [OF assms] fst_conv by metis
qed

lemma atoi_range: "- (2 ^ 31) \<le> atoi s \<and> atoi s < 2 ^ 31"
  using sint_ge [of "word_of_int (fst (strtol10 s)) :: 32 word"]
    sint_lt [of "word_of_int (fst (strtol10 s)) :: 32 word"] by (simp add: atoi_def)

lemma length_dec_nat: "n < 10 ^ k \<Longrightarrow> 0 < k \<Longrightarrow> length (dec_nat n) \<le> k"
proof (induction n arbitrary: k rule: dec_nat.induct)
  case (1 n)
  show ?case
  proof (cases "n < 10")
    case True
    with 1 show ?thesis by (subst dec_nat.simps) simp
  next
    case False
    with 1(2) obtain k' where k: "k = Suc k'" "0 < k'"
      by (cases k; cases "k - 1") auto
    with 1(2) have "n div 10 < 10 ^ k'" by (simp add: less_mult_imp_div_less)
    with 1(1) [OF False _ k(2)] k False show ?thesis by (subst dec_nat.simps) simp
  qed
qed

lemma length_dec_int: "\<bar>i\<bar> < 10 ^ k \<Longrightarrow> 0 < k \<Longrightarrow> length (dec_int i) \<le> Suc k"
proof -
  assume "\<bar>i\<bar> < 10 ^ k" "0 < k"
  moreover from this have "nat \<bar>i\<bar> < 10 ^ k" by (simp add: nat_less_iff)
  ultimately show ?thesis
    using length_dec_nat [of "nat \<bar>i\<bar>" k] by (auto simp: dec_int_def abs_if split: if_splits)
qed

lemma length_hex08 [simp]: "length (hex08 w) = 8"
  by (simp add: hex08_def)

lemma starts_with_append [simp]: "starts_with lit (lit @ s)"
  by (simp add: starts_with_def)

end
