(* ===== verification/Sip_Parse.thy ===== *)
theory Sip_Parse
  imports C_String
begin

text \<open>
  The SIP and SDP parser of \<open>src/src/sip/sm_sip.c\<close>. A received datagram lies at the start of a
  buffer whose remaining bytes are left over from earlier datagrams, so \<open>parse_sip\<close> takes the whole
  buffer and the datagram's length, and reads past the datagram where the code does. Character array
  fields hold their C string.
\<close>

definition SM_SIP_MAX_VIAS :: nat where "SM_SIP_MAX_VIAS = 4"
definition SM_SIP_MAX_MSG :: nat where "SM_SIP_MAX_MSG = 4096"

record sip_msg =
  m_is_response :: bool
  m_status :: int
  m_method :: string
  m_uri :: string
  m_via :: "string list"
  m_from :: string
  m_to :: string
  m_call_id :: string
  m_cseq :: string
  m_cseq_num :: int
  m_cseq_method :: string
  m_contact :: string
  m_content_type :: string
  m_user_agent :: string
  m_content_length :: int
  m_body :: string
  m_from_tag :: string
  m_to_tag :: string

definition sip_msg_zero :: sip_msg where
  "sip_msg_zero = \<lparr>m_is_response = False, m_status = 0, m_method = [], m_uri = [], m_via = [],
     m_from = [], m_to = [], m_call_id = [], m_cseq = [], m_cseq_num = 0, m_cseq_method = [],
     m_contact = [], m_content_type = [], m_user_agent = [], m_content_length = 0, m_body = [],
     m_from_tag = [], m_to_tag = []\<rparr>"

text \<open>\<open>find_eol\<close>: how far the next newline of a line lies ahead, or the end.\<close>

definition find_eol :: "string \<Rightarrow> nat" where
  "find_eol s = length (takeWhile (\<lambda>c. c \<noteq> NL) s)"

definition is_trail :: "char \<Rightarrow> bool" where
  "is_trail c \<longleftrightarrow> c = CR \<or> c = CHR '' '' \<or> c = CHR 0x09"

definition is_blank :: "char \<Rightarrow> bool" where
  "is_blank c \<longleftrightarrow> c = CHR '' '' \<or> c = CHR 0x09"

text \<open>\<open>copy_line_value\<close> from the memory at \<open>start\<close>, \<open>len\<close> being \<open>end - start\<close>. When that is
  negative the loops do nothing and the difference, cast to \<open>size_t\<close>, is cut to the array.\<close>

definition copy_line_value :: "string \<Rightarrow> int \<Rightarrow> nat \<Rightarrow> string" where
  "copy_line_value mem len outlen =
     (if len < 0 then cstr (take (outlen - 1) mem)
      else cstr (take (outlen - 1)
             (dropWhile is_blank (rev (dropWhile is_trail (rev (take (nat len) mem)))))))"

definition tag_stop :: "char \<Rightarrow> bool" where
  "tag_stop c \<longleftrightarrow> c = NUL \<or> c = CHR '';'' \<or> c = CHR '' '' \<or> c = CR \<or> c = NL"

definition extract_tag :: "string \<Rightarrow> nat \<Rightarrow> string" where
  "extract_tag hdr outlen =
     (case strstr hdr ''tag='' of
        None \<Rightarrow> []
      | Some p \<Rightarrow> take (outlen - 1) (takeWhile (\<lambda>c. \<not> tag_stop c) (drop 4 p)))"

text \<open>Offset of the body: behind the first empty line, or the end of the datagram.\<close>

fun find_body :: "string \<Rightarrow> nat" where
  "find_body (c0 # c1 # cs) =
     (if c0 = CR \<and> c1 = NL \<and> (case cs of c2 # c3 # _ \<Rightarrow> c2 = CR \<and> c3 = NL | _ \<Rightarrow> False) then 4
      else if c0 = NL \<and> c1 = NL then 2
      else Suc (find_body (c1 # cs)))"
| "find_body s = length s"

text \<open>The first line. \<open>stack\<close> is what the 512-byte array \<open>line\<close> held before.\<close>

definition parse_first_line :: "string \<Rightarrow> string \<Rightarrow> sip_msg \<Rightarrow> sip_msg" where
  "parse_first_line stack s m =
     (let n0 = length s;
          n = (if n0 \<ge> 512 then 511 else n0);
          line = take n s @ NUL # drop (Suc n) stack
      in if starts_with ''SIP/2.0'' line
         then m\<lparr>m_is_response := True, m_status := atoi (drop 8 line)\<rparr>
         else (case strchr line (CHR '' '') of
                 None \<Rightarrow> m
               | Some sp1 \<Rightarrow>
                   (let mn0 = length line - length sp1;
                        mn = (if mn0 \<ge> 16 then 15 else mn0);
                        t = tl sp1;
                        un0 = (case strchr t (CHR '' '') of
                                 Some sp2 \<Rightarrow> length t - length sp2 | None \<Rightarrow> length (cstr t));
                        un = (if un0 \<ge> 256 then 255 else un0)
                    in m\<lparr>m_method := take mn line, m_uri := take un t\<rparr>)))"

text \<open>One header line: \<open>mem\<close> is the memory from its start on, \<open>eol\<close> its length.\<close>

definition header_line :: "string \<Rightarrow> nat \<Rightarrow> sip_msg \<Rightarrow> sip_msg" where
  "header_line mem eol m =
     (let is = (\<lambda>lit. starts_with_case lit mem);
          val = (\<lambda>k outlen. copy_line_value (drop k mem) (int eol - int k) outlen)
      in if is ''Via:'' \<or> is ''v:'' then
           (if length (m_via m) < SM_SIP_MAX_VIAS
            then m\<lparr>m_via := m_via m @ [val (if is ''Via:'' then 4 else 2) 320]\<rparr> else m)
         else if is ''From:'' \<or> is ''f:'' then
           (let v = val (if is ''From:'' then 5 else 2) 320
            in m\<lparr>m_from := v, m_from_tag := extract_tag v 64\<rparr>)
         else if is ''To:'' \<or> is ''t:'' then
           (let v = val (if is ''To:'' then 3 else 2) 320
            in m\<lparr>m_to := v, m_to_tag := extract_tag v 64\<rparr>)
         else if is ''Call-ID:'' \<or> is ''i:'' then
           m\<lparr>m_call_id := val (if is ''Call-ID:'' then 8 else 2) 256\<rparr>
         else if is ''CSeq:'' then
           (let v = val 5 64
            in m\<lparr>m_cseq := v, m_cseq_num := atoi v,
                 m_cseq_method := (case strchr v (CHR '' '') of
                                     None \<Rightarrow> m_cseq_method m | Some sp \<Rightarrow> snprintf 16 (tl sp))\<rparr>)
         else if is ''Contact:'' \<or> is ''m:'' then
           m\<lparr>m_contact := val (if is ''Contact:'' then 8 else 2) 320\<rparr>
         else if is ''Content-Type:'' then m\<lparr>m_content_type := val 13 64\<rparr>
         else if is ''User-Agent:'' then m\<lparr>m_user_agent := val 11 128\<rparr>
         else if is ''Content-Length:'' then m\<lparr>m_content_length := atoi (cstr (drop 15 mem))\<rparr>
         else m)"

text \<open>The header loop over the text before the body; \<open>after\<close> is the memory behind that text.\<close>

function parse_headers :: "string \<Rightarrow> string \<Rightarrow> sip_msg \<Rightarrow> sip_msg" where
  "parse_headers s after m =
     (if s = [] then m
      else (let eol = find_eol s;
                m1 = (if eol = 0 \<or> (hd s = CR \<and> eol = 1) then m
                      else header_line (s @ after) eol m)
            in parse_headers (drop (Suc eol) s) after m1))"
  by pat_completeness auto
termination
  by (relation "measure (\<lambda>(s, after, m). length s)") simp_all

declare parse_headers.simps [simp del]

definition parse_body :: "string \<Rightarrow> sip_msg \<Rightarrow> sip_msg" where
  "parse_body b m =
     (if b = [] then m
      else (let blen0 = int (length b);
                blen1 = (if m_content_length m > 0 \<and> m_content_length m < blen0
                         then m_content_length m else blen0);
                blen = (if blen1 > int SM_SIP_MAX_MSG then int SM_SIP_MAX_MSG else blen1)
            in m\<lparr>m_body := take (nat blen) b\<rparr>))"

definition parse_sip :: "string \<Rightarrow> string \<Rightarrow> nat \<Rightarrow> sip_msg" where
  "parse_sip stack buf len =
     (let pkt = take len buf;
          body = find_body pkt;
          head = take body pkt;
          eol = find_eol head;
          m1 = parse_first_line stack (take eol head) sip_msg_zero;
          m2 = parse_headers (drop (Suc eol) head) (drop body buf) m1
      in parse_body (drop body pkt) m2)"

subsection \<open>SDP\<close>

fun skip_blanks :: "nat \<Rightarrow> string \<Rightarrow> string" where
  "skip_blanks (Suc n) (c # cs) = (if is_blank c then skip_blanks n cs else c # cs)"
| "skip_blanks n s = s"

text \<open>Address, port and payload type. The bytes behind the body are NUL, as the end of a list is
  for the string functions.\<close>

function sdp_loop :: "string \<Rightarrow> nat \<Rightarrow> string \<times> int \<times> int \<Rightarrow> string \<times> int \<times> int" where
  "sdp_loop s iplen (ip, port, pt) =
     (if s = [] then (ip, port, pt)
      else (let eol = find_eol s
            in sdp_loop (drop (Suc eol) s) iplen
                 (if starts_with ''c=IN IP4 '' s
                  then (copy_line_value (drop 9 s) (int eol - 9) iplen, port, pt)
                  else if starts_with ''m=audio '' s
                  then (ip, atoi (cstr (drop 8 s)),
                        (case strstr (drop 8 s) ''RTP/AVP'' of
                           None \<Rightarrow> pt
                         | Some r \<Rightarrow>
                             (let pos = length s - length r + 7
                              in atoi (cstr (skip_blanks (eol - pos) (drop 7 r))))))
                  else (ip, port, pt))))"
  by pat_completeness auto
termination
  by (relation "measure (\<lambda>(s, iplen, r). length s)") simp_all

declare sdp_loop.simps [simp del]

definition extract_sdp :: "sip_msg \<Rightarrow> nat \<Rightarrow> string \<times> int \<times> int" where
  "extract_sdp m iplen = sdp_loop (m_body m) iplen ([], 0, 0)"

subsection \<open>The fields stay inside their arrays\<close>

definition fits :: "nat \<Rightarrow> string \<Rightarrow> bool" where
  "fits n s \<longleftrightarrow> length s < n \<and> NUL \<notin> set s"

definition sip_msg_ok :: "sip_msg \<Rightarrow> bool" where
  "sip_msg_ok m \<longleftrightarrow>
     fits 16 (m_method m) \<and> fits 256 (m_uri m) \<and> length (m_via m) \<le> SM_SIP_MAX_VIAS
     \<and> list_all (fits 320) (m_via m) \<and> fits 320 (m_from m) \<and> fits 320 (m_to m)
     \<and> fits 256 (m_call_id m) \<and> fits 64 (m_cseq m) \<and> fits 16 (m_cseq_method m)
     \<and> fits 320 (m_contact m) \<and> fits 64 (m_content_type m) \<and> fits 128 (m_user_agent m)
     \<and> length (m_body m) \<le> SM_SIP_MAX_MSG \<and> fits 64 (m_from_tag m) \<and> fits 64 (m_to_tag m)"

lemma fits_Nil [simp]: "fits n [] \<longleftrightarrow> 0 < n"
  by (simp add: fits_def)

lemma fits_cstr_take: "0 < n \<Longrightarrow> fits n (cstr (take (n - 1) s))"
  using length_cstr [of "take (n - 1) s"] by (auto simp: fits_def)

lemma fits_copy_line_value: "0 < n \<Longrightarrow> fits n (copy_line_value mem len n)"
  unfolding copy_line_value_def by (auto intro: fits_cstr_take [simplified])

lemma fits_extract_tag: "0 < n \<Longrightarrow> fits n (extract_tag hdr n)"
  by (auto simp: extract_tag_def fits_def tag_stop_def split: option.split
      dest!: in_set_takeD set_takeWhileD)

lemma fits_snprintf: "0 < n \<Longrightarrow> NUL \<notin> set s \<Longrightarrow> fits n (snprintf n s)"
  using length_snprintf [of n s] NUL_snprintf [of s n] by (simp add: fits_def)

lemma fits_cseq_method:
  assumes "strchr (copy_line_value mem len 64) c = Some sp"
  shows "fits 16 (snprintf 16 (tl sp))"
proof -
  have "NUL \<notin> set (copy_line_value mem len 64)"
    using fits_copy_line_value [of 64 mem len] by (simp add: fits_def)
  then show ?thesis
    using strchr_some_split [OF assms] list.set_sel(2) [of sp] by (intro fits_snprintf) auto
qed

lemma header_line_ok: "sip_msg_ok m \<Longrightarrow> sip_msg_ok (header_line mem eol m)"
  unfolding header_line_def Let_def sip_msg_ok_def
  by (auto simp: fits_copy_line_value fits_extract_tag split: option.splits
      intro: fits_cseq_method)

lemma parse_headers_ok: "sip_msg_ok m \<Longrightarrow> sip_msg_ok (parse_headers s after m)"
proof (induction s after m rule: parse_headers.induct)
  case (1 s after m)
  show ?case
    using "1.IH" "1.prems" by (subst parse_headers.simps) (simp add: header_line_ok Let_def)
qed

lemma parse_first_line_ok:
  assumes "sip_msg_ok m"
  shows "sip_msg_ok (parse_first_line stack s m)"
proof -
  define line where "line = take (if length s \<ge> 512 then 511 else length s) s
    @ NUL # drop (Suc (if length s \<ge> 512 then 511 else length s)) stack"
  have prefix: "NUL \<notin> set (take k xs)" if "strchr xs c = Some t" "k \<le> length xs - length t" for xs c t k
    using strchr_some_split [OF that(1)] that(2) by (auto dest: in_set_takeD)
  have cpref: "NUL \<notin> set (take k t)" if "k \<le> length (cstr t)" for k t
  proof -
    have "take k t = take k (cstr t)"
      using that takeWhile_eq_take [of "\<lambda>c. c \<noteq> NUL" t] by (metis cstr_def min.absorb1 take_take)
    then show ?thesis using NUL_cstr in_set_takeD by metis
  qed
  have cut: "fits n (take (if n \<le> k then n - 1 else k) xs)" if "NUL \<notin> set (take k xs)" "0 < n"
    for n k and xs :: string
  proof (cases "n \<le> k")
    case True
    then have "set (take (n - 1) xs) \<subseteq> set (take k xs)" by (intro set_take_subset_set_take) simp
    with that True show ?thesis by (auto simp: fits_def)
  qed (use that in \<open>auto simp: fits_def\<close>)
  have mcut: "fits 16 (take (if 16 \<le> k then 15 else k) xs)" if "NUL \<notin> set (take k xs)" for k xs
    using cut [OF that, of 16] by (simp split: if_splits)
  have ucut: "fits 256 (take (if 256 \<le> k then 255 else k) xs)" if "NUL \<notin> set (take k xs)" for k xs
    using cut [OF that, of 256] by (simp split: if_splits)
  show ?thesis
  proof (cases "strchr line (CHR '' '')")
    case None
    then show ?thesis
      using assms unfolding parse_first_line_def Let_def line_def [symmetric] by (simp add: sip_msg_ok_def)
  next
    case (Some sp1)
    have uri: "NUL \<notin> set (take (case strchr (tl sp1) (CHR '' '') of
        Some sp2 \<Rightarrow> length (tl sp1) - length sp2 | None \<Rightarrow> length (cstr (tl sp1))) (tl sp1))"
      using cpref [of _ "tl sp1"] prefix [of "tl sp1"] by (auto split: option.split)
    show ?thesis
      using assms Some mcut [OF prefix [OF Some order_refl]] ucut [OF uri]
      unfolding parse_first_line_def Let_def line_def [symmetric]
      by (simp add: sip_msg_ok_def)
  qed
qed

lemma sip_msg_zero_ok: "sip_msg_ok sip_msg_zero"
  by (simp add: sip_msg_ok_def sip_msg_zero_def)

lemma parse_body_ok: "sip_msg_ok m \<Longrightarrow> sip_msg_ok (parse_body b m)"
  by (auto simp: parse_body_def sip_msg_ok_def Let_def SM_SIP_MAX_MSG_def)

subsection \<open>Parsing a message line by line\<close>

definition lines_text :: "string list \<Rightarrow> string" where
  "lines_text ls = concat (map (\<lambda>l. l @ CRLF) ls)"

definition wf_line :: "string \<Rightarrow> bool" where
  "wf_line l \<longleftrightarrow> l \<noteq> [] \<and> NL \<notin> set l \<and> hd l \<noteq> CR"

fun parse_lines :: "string list \<Rightarrow> string \<Rightarrow> sip_msg \<Rightarrow> sip_msg" where
  "parse_lines [] after m = m"
| "parse_lines (l # ls) after m =
     parse_lines ls after (header_line (lines_text (l # ls) @ CRLF @ after) (Suc (length l)) m)"

lemma lines_text_simps [simp]:
  "lines_text [] = []" "lines_text (l # ls) = l @ CRLF @ lines_text ls"
  "lines_text (ls @ ls') = lines_text ls @ lines_text ls'"
  by (simp_all add: lines_text_def)

lemma CRLF_alt: "CRLF = [CR, NL]" and CR_NL [simp]: "CR \<noteq> NL" "NL \<noteq> CR"
  by (simp_all add: CRLF_def CR_def NL_def)

lemma find_eol_line: "NL \<notin> set l \<Longrightarrow> find_eol (l @ NL # s) = length l"
  by (induction l) (auto simp: find_eol_def)

lemma find_eol_crlf: "NL \<notin> set l \<Longrightarrow> find_eol (l @ CRLF @ s) = Suc (length l)"
  using find_eol_line [of "l @ [CR]" s] by (simp add: CRLF_alt)

lemma find_body_skip:
  assumes "NL \<notin> set l" and "c \<noteq> NL" and "c \<noteq> CR"
  shows "find_body (l @ CRLF @ c # s) = length l + 2 + find_body (c # s)"
  using assms(1)
proof (induction l)
  case Nil
  then show ?case using assms(2,3) by (simp add: CRLF_alt split: list.split)
next
  case (Cons x l)
  then show ?case by (cases l) (auto simp: CRLF_alt)
qed

lemma find_body_end:
  assumes "NL \<notin> set l"
  shows "find_body (l @ CRLF @ CRLF @ s) = length l + 4"
  using assms
proof (induction l)
  case (Cons x l)
  then show ?case by (cases l) (auto simp: CRLF_alt)
qed (simp add: CRLF_alt)

lemma find_body_lines:
  assumes "wf_line l" and "list_all wf_line ls"
  shows "find_body (lines_text (l # ls) @ CRLF @ s) = length (lines_text (l # ls)) + 2"
  using assms
proof (induction ls arbitrary: l)
  case Nil
  then show ?case using find_body_end [of l s] by (simp add: wf_line_def CRLF_alt)
next
  case (Cons k ls)
  then obtain c cs where k: "k = c # cs" "c \<noteq> NL" "c \<noteq> CR" by (cases k) (auto simp: wf_line_def)
  have "find_body (lines_text (l # k # ls) @ CRLF @ s)
      = length l + 2 + find_body (lines_text (k # ls) @ CRLF @ s)"
    using find_body_skip [of l c "cs @ CRLF @ lines_text ls @ CRLF @ s"] Cons.prems k
    by (simp add: wf_line_def)
  with Cons.IH [of k] Cons.prems show ?case by (simp add: CRLF_alt)
qed

lemma parse_headers_lines:
  assumes "list_all wf_line ls"
  shows "parse_headers (lines_text ls @ CRLF) after m = parse_lines ls after m"
  using assms
proof (induction ls arbitrary: m)
  case Nil
  then show ?case
    using find_eol_line [of "[CR]" "[]"]
    by (subst parse_headers.simps) (simp add: CRLF_alt parse_headers.simps [of "[]"])
next
  case (Cons l ls)
  then have l: "l \<noteq> []" "NL \<notin> set l" "hd l \<noteq> CR" by (simp_all add: wf_line_def)
  have "find_eol (lines_text (l # ls) @ CRLF) = Suc (length l)"
    using find_eol_crlf [OF l(2), of "lines_text ls @ CRLF"] by simp
  then have "parse_headers (lines_text (l # ls) @ CRLF) after m
      = parse_headers (lines_text ls @ CRLF) after
          (header_line (lines_text (l # ls) @ CRLF @ after) (Suc (length l)) m)"
    using l by (subst parse_headers.simps) (simp add: CRLF_alt)
  also have "\<dots> = parse_lines (l # ls) after m" using Cons by simp
  finally show ?case .
qed

lemma parse_sip_lines:
  assumes "wf_line l" and "list_all wf_line ls"
  shows "parse_sip stack (lines_text (l # ls) @ CRLF @ body @ stale)
           (length (lines_text (l # ls) @ CRLF @ body))
         = parse_body body (parse_lines ls (body @ stale)
             (parse_first_line stack (l @ [CR]) sip_msg_zero))"
proof -
  define h where "h = lines_text (l # ls) @ CRLF"
  have fb: "find_body (h @ body) = length h"
    using find_body_lines [OF assms, of body] by (simp add: CRLF_alt h_def)
  have eol: "find_eol h = Suc (length l)"
    using find_eol_crlf [of l "lines_text ls @ CRLF"] assms(1) by (simp add: wf_line_def h_def)
  have td: "take (Suc (length l)) h = l @ [CR]" "drop (Suc (Suc (length l))) h = lines_text ls @ CRLF"
    by (simp_all add: CRLF_alt h_def)
  have split: "lines_text (l # ls) @ CRLF @ body @ stale = h @ body @ stale"
    "lines_text (l # ls) @ CRLF @ body = h @ body" by (simp_all add: h_def)
  show ?thesis
    unfolding split parse_sip_def Let_def
    using parse_headers_lines [OF assms(2)] fb eol td by simp
qed

subsection \<open>Values copied from a line\<close>

definition clean :: "nat \<Rightarrow> string \<Rightarrow> bool" where
  "clean n v \<longleftrightarrow> fits n v \<and> NL \<notin> set v \<and> (v \<noteq> [] \<longrightarrow> \<not> is_blank (hd v) \<and> \<not> is_trail (last v))"

lemma copy_clean:
  assumes "clean n v"
  shows "copy_line_value (CHR '' '' # v @ CRLF @ s) (2 + int (length v)) n = v"
proof -
  have "take (nat (2 + int (length v))) (CHR '' '' # v @ CRLF @ s) = CHR '' '' # v @ [CR]"
    by (simp add: CRLF_alt nat_add_distrib)
  moreover have "dropWhile is_blank (rev (dropWhile is_trail (rev (CHR '' '' # v @ [CR])))) = v"
  proof (cases "v = []")
    case True
    then show ?thesis by (simp add: is_trail_def)
  next
    case False
    then have "\<not> is_trail (hd (rev v))" "rev v \<noteq> []" using assms by (simp_all add: clean_def hd_rev)
    then have "dropWhile is_trail (rev v @ [CHR '' '']) = rev v @ [CHR '' '']"
      by (cases "rev v") simp_all
    then have "dropWhile is_trail (rev (CHR '' '' # v @ [CR])) = rev v @ [CHR '' '']"
      by (simp add: is_trail_def)
    moreover have "dropWhile is_blank v = v"
      using False assms by (cases v) (simp_all add: clean_def)
    ultimately show ?thesis by (simp add: is_blank_def)
  qed
  moreover have "cstr (take (n - 1) v) = v"
    using assms by (auto simp: clean_def fits_def cstr_id)
  ultimately show ?thesis by (simp add: copy_line_value_def)
qed

lemma starts_with_case_concrete:
  "starts_with_case (c # cs) (d # ds) \<longleftrightarrow> to_lower c = to_lower d \<and> starts_with_case cs ds"
  "starts_with_case [] s" "\<not> starts_with_case (c # cs) []"
  by (auto simp: starts_with_case_def)

definition lower_code :: "char \<Rightarrow> nat" where
  "lower_code c = (if 65 \<le> (of_char c :: nat) \<and> (of_char c :: nat) \<le> 90 then of_char c + 32 else of_char c)"

lemma to_lower_eq: "to_lower c = to_lower d \<longleftrightarrow> lower_code c = lower_code d"
proof -
  have l: "of_char (to_lower x) = lower_code x" for x
    by (simp add: to_lower_def lower_code_def Let_def)
  show ?thesis using l by (metis of_char_eq_iff)
qed

lemmas header_kind = header_line_def Let_def starts_with_case_concrete to_lower_eq lower_code_def

text \<open>A line "name: value" sets its field, whatever follows it.\<close>

lemma header_line_via:
  "clean 320 v \<Longrightarrow> length (m_via m) < 4 \<Longrightarrow>
    header_line (''Via: '' @ v @ CRLF @ s) (length v + 6) m = m\<lparr>m_via := m_via m @ [v]\<rparr>"
  using copy_clean [of 320 v s] by (simp add: header_kind SM_SIP_MAX_VIAS_def)

lemma header_line_from:
  "clean 320 v \<Longrightarrow> header_line (''From: '' @ v @ CRLF @ s) (length v + 7) m
    = m\<lparr>m_from := v, m_from_tag := extract_tag v 64\<rparr>"
  using copy_clean [of 320 v s] by (simp add: header_kind)

lemma header_line_to:
  "clean 320 v \<Longrightarrow> header_line (''To: '' @ v @ CRLF @ s) (length v + 5) m
    = m\<lparr>m_to := v, m_to_tag := extract_tag v 64\<rparr>"
  using copy_clean [of 320 v s] by (simp add: header_kind)

lemma header_line_call_id:
  "clean 256 v \<Longrightarrow> header_line (''Call-ID: '' @ v @ CRLF @ s) (length v + 10) m = m\<lparr>m_call_id := v\<rparr>"
  using copy_clean [of 256 v s] by (simp add: header_kind)

lemma header_line_cseq:
  "clean 64 v \<Longrightarrow> header_line (''CSeq: '' @ v @ CRLF @ s) (length v + 7) m
    = m\<lparr>m_cseq := v, m_cseq_num := atoi v, m_cseq_method := (case strchr v (CHR '' '') of
          None \<Rightarrow> m_cseq_method m | Some sp \<Rightarrow> snprintf 16 (tl sp))\<rparr>"
  using copy_clean [of 64 v s] by (simp add: header_kind)

lemma header_line_contact:
  "clean 320 v \<Longrightarrow> header_line (''Contact: '' @ v @ CRLF @ s) (length v + 10) m = m\<lparr>m_contact := v\<rparr>"
  using copy_clean [of 320 v s] by (simp add: header_kind)

lemma header_line_content_type:
  "clean 64 v \<Longrightarrow> header_line (''Content-Type: '' @ v @ CRLF @ s) (length v + 15) m = m\<lparr>m_content_type := v\<rparr>"
  using copy_clean [of 64 v s] by (simp add: header_kind)

lemma header_line_user_agent:
  "clean 128 v \<Longrightarrow> header_line (''User-Agent: '' @ v @ CRLF @ s) (length v + 13) m = m\<lparr>m_user_agent := v\<rparr>"
  using copy_clean [of 128 v s] by (simp add: header_kind)

lemma cstr_append: "NUL \<notin> set a \<Longrightarrow> cstr (a @ b) = a @ cstr b"
  by (induction a) (auto simp: cstr_def)

lemma header_line_content_length:
  assumes "n < 2 ^ 31"
  shows "header_line (''Content-Length: '' @ dec_nat n @ CRLF @ s) eol m = m\<lparr>m_content_length := int n\<rparr>"
proof -
  have "cstr (CHR '' '' # dec_nat n @ CRLF @ s) = [CHR '' ''] @ dec_nat n @ CRLF @ cstr s"
    using cstr_append [of "CHR '' '' # dec_nat n @ CRLF" s] by (simp add: CRLF_def NUL_def [symmetric]) (simp add: NUL_def)
  moreover have "atoi ([CHR '' ''] @ dec_nat n @ CRLF @ cstr s) = int n"
    using assms by (intro atoi_dec_nat) (simp_all add: is_space_def CRLF_def is_digit_def)
  ultimately show ?thesis by (simp add: header_kind)
qed

subsection \<open>Whole requests\<close>

text \<open>How a request is written on the wire, and which messages can be: the fields a SIP user agent
  fills in, with the derived fields of the parser.\<close>

definition request_lines :: "sip_msg \<Rightarrow> string list" where
  "request_lines m =
     map (\<lambda>v. ''Via: '' @ v) (m_via m)
     @ [''From: '' @ m_from m, ''To: '' @ m_to m, ''Call-ID: '' @ m_call_id m,
        ''CSeq: '' @ m_cseq m, ''Contact: '' @ m_contact m, ''Content-Type: '' @ m_content_type m,
        ''User-Agent: '' @ m_user_agent m, ''Content-Length: '' @ dec_nat (length (m_body m))]"

definition request_line :: "sip_msg \<Rightarrow> string" where
  "request_line m = m_method m @ '' '' @ m_uri m @ '' SIP/2.0''"

definition request_text :: "sip_msg \<Rightarrow> string" where
  "request_text m = lines_text (request_line m # request_lines m) @ CRLF @ m_body m"

definition token :: "string \<Rightarrow> bool" where
  "token s \<longleftrightarrow> list_all (\<lambda>c. c \<notin> {NUL, NL, CR, CHR '' '', CHR 0x09}) s"

definition request_ok :: "sip_msg \<Rightarrow> bool" where
  "request_ok m \<longleftrightarrow>
     \<not> m_is_response m \<and> m_status m = 0
     \<and> token (m_method m) \<and> m_method m \<noteq> [] \<and> length (m_method m) < 16
     \<and> \<not> starts_with ''SIP/2.0'' (m_method m)
     \<and> token (m_uri m) \<and> length (m_uri m) < 256
     \<and> length (m_via m) \<le> SM_SIP_MAX_VIAS \<and> list_all (clean 320) (m_via m)
     \<and> clean 320 (m_from m) \<and> m_from_tag m = extract_tag (m_from m) 64
     \<and> clean 320 (m_to m) \<and> m_to_tag m = extract_tag (m_to m) 64
     \<and> clean 256 (m_call_id m)
     \<and> 0 \<le> m_cseq_num m \<and> m_cseq_num m < 2 ^ 31
     \<and> m_cseq m = dec_int (m_cseq_num m) @ '' '' @ m_method m \<and> m_cseq_method m = m_method m
     \<and> clean 320 (m_contact m) \<and> clean 64 (m_content_type m) \<and> clean 128 (m_user_agent m)
     \<and> length (m_body m) \<le> SM_SIP_MAX_MSG \<and> m_content_length m = int (length (m_body m))"

lemma token_chars:
  assumes "token s"
  shows "NUL \<notin> set s" "NL \<notin> set s" "CR \<notin> set s" "CHR '' '' \<notin> set s" "CHR 0x09 \<notin> set s"
  using assms by (auto simp: token_def list_all_iff)

lemma starts_with_before:
  assumes "\<not> starts_with lit xs" and "c \<notin> set lit"
  shows "\<not> starts_with lit (xs @ c # ys)"
proof
  assume s: "starts_with lit (xs @ c # ys)"
  show False
  proof (cases "length lit \<le> length xs")
    case True
    with s assms(1) show False by (simp add: starts_with_def)
  next
    case False
    then obtain k where "length lit - length xs = Suc k" by (cases "length lit - length xs") auto
    with s have "lit = take (length lit) xs @ c # take k ys" by (simp add: starts_with_def)
    then have "c \<in> set lit" by (metis in_set_conv_decomp)
    with assms(2) show False by simp
  qed
qed

lemma parse_first_line_request:
  assumes m: "token (m_method m)" "length (m_method m) < 16" "\<not> starts_with ''SIP/2.0'' (m_method m)"
    and u: "token (m_uri m)" "length (m_uri m) < 256"
  shows "parse_first_line stack (request_line m @ [CR]) r
         = r\<lparr>m_method := m_method m, m_uri := m_uri m\<rparr>"
proof -
  let ?l = "request_line m @ [CR]"
  let ?v = "'' SIP/2.0'' @ CR # NUL # drop (Suc (length ?l)) stack"
  have len: "\<not> length ?l \<ge> 512" using m(2) u(2) by (simp add: request_line_def)
  have line: "take (length ?l) ?l @ NUL # drop (Suc (length ?l)) stack = m_method m @ CHR '' '' # m_uri m @ ?v"
    by (simp add: request_line_def)
  have s1: "strchr (m_method m @ CHR '' '' # m_uri m @ ?v) (CHR '' '') = Some (CHR '' '' # m_uri m @ ?v)"
    using token_chars [OF m(1)] by (intro strchr_prefix) simp_all
  have "strchr (m_uri m @ CHR '' '' # tl ?v) (CHR '' '') = Some (CHR '' '' # tl ?v)"
    using token_chars [OF u(1)] by (intro strchr_prefix) simp_all
  then have s2: "strchr (m_uri m @ ?v) (CHR '' '') = Some ?v" by simp
  have "\<not> starts_with ''SIP/2.0'' (m_method m @ CHR '' '' # m_uri m @ ?v)"
    using m(3) by (intro starts_with_before) simp_all
  then show ?thesis
    unfolding parse_first_line_def Let_def if_not_P [OF len] line s1
    using s2 m(2) u(2) by simp
qed

text \<open>One line of the request at a time.\<close>

lemma parse_lines_step:
  "n = Suc (length l) \<Longrightarrow> (\<And>s. header_line (l @ CRLF @ s) n m = m') \<Longrightarrow>
    parse_lines (l # ls) after m = parse_lines ls after m'"
  by simp

lemma parse_lines_via:
  "clean 320 v \<Longrightarrow> length (m_via m) < 4 \<Longrightarrow>
    parse_lines ((''Via: '' @ v) # ls) after m = parse_lines ls after (m\<lparr>m_via := m_via m @ [v]\<rparr>)"
  using header_line_via [of v m] by (intro parse_lines_step [where n = "length v + 6"]) simp_all

lemma parse_lines_from:
  "clean 320 v \<Longrightarrow> parse_lines ((''From: '' @ v) # ls) after m
    = parse_lines ls after (m\<lparr>m_from := v, m_from_tag := extract_tag v 64\<rparr>)"
  using header_line_from [of v _ m] by (intro parse_lines_step [where n = "length v + 7"]) simp_all

lemma parse_lines_to:
  "clean 320 v \<Longrightarrow> parse_lines ((''To: '' @ v) # ls) after m
    = parse_lines ls after (m\<lparr>m_to := v, m_to_tag := extract_tag v 64\<rparr>)"
  using header_line_to [of v _ m] by (intro parse_lines_step [where n = "length v + 5"]) simp_all

lemma parse_lines_call_id:
  "clean 256 v \<Longrightarrow> parse_lines ((''Call-ID: '' @ v) # ls) after m = parse_lines ls after (m\<lparr>m_call_id := v\<rparr>)"
  using header_line_call_id [of v _ m] by (intro parse_lines_step [where n = "length v + 10"]) simp_all

lemma parse_lines_cseq:
  assumes "clean 64 v"
  shows "parse_lines ((''CSeq: '' @ v) # ls) after m
    = parse_lines ls after (m\<lparr>m_cseq := v, m_cseq_num := atoi v, m_cseq_method := (case strchr v (CHR '' '') of
          None \<Rightarrow> m_cseq_method m | Some sp \<Rightarrow> snprintf 16 (tl sp))\<rparr>)"
  using header_line_cseq [OF assms, of _ m] by (intro parse_lines_step [where n = "length v + 7"]) simp_all

lemma parse_lines_contact:
  "clean 320 v \<Longrightarrow> parse_lines ((''Contact: '' @ v) # ls) after m = parse_lines ls after (m\<lparr>m_contact := v\<rparr>)"
  using header_line_contact [of v _ m] by (intro parse_lines_step [where n = "length v + 10"]) simp_all

lemma parse_lines_content_type:
  "clean 64 v \<Longrightarrow> parse_lines ((''Content-Type: '' @ v) # ls) after m
    = parse_lines ls after (m\<lparr>m_content_type := v\<rparr>)"
  using header_line_content_type [of v _ m] by (intro parse_lines_step [where n = "length v + 15"]) simp_all

lemma parse_lines_user_agent:
  "clean 128 v \<Longrightarrow> parse_lines ((''User-Agent: '' @ v) # ls) after m
    = parse_lines ls after (m\<lparr>m_user_agent := v\<rparr>)"
  using header_line_user_agent [of v _ m] by (intro parse_lines_step [where n = "length v + 13"]) simp_all

lemma parse_lines_content_length:
  "n < 2 ^ 31 \<Longrightarrow> parse_lines ((''Content-Length: '' @ dec_nat n) # ls) after m
    = parse_lines ls after (m\<lparr>m_content_length := int n\<rparr>)"
  using header_line_content_length [of n] by (intro parse_lines_step [OF refl]) simp_all

lemmas parse_line_steps = parse_lines_from parse_lines_to parse_lines_call_id parse_lines_cseq
  parse_lines_contact parse_lines_content_type parse_lines_user_agent parse_lines_content_length

lemma parse_lines_vias:
  "list_all (clean 320) vs \<Longrightarrow> length (m_via m) + length vs \<le> 4 \<Longrightarrow>
    parse_lines (map (\<lambda>v. ''Via: '' @ v) vs @ ls) after m
      = parse_lines ls after (m\<lparr>m_via := m_via m @ vs\<rparr>)"
proof (induction vs arbitrary: m)
  case (Cons v vs)
  then have "parse_lines ((''Via: '' @ v) # map (\<lambda>v. ''Via: '' @ v) vs @ ls) after m
      = parse_lines (map (\<lambda>v. ''Via: '' @ v) vs @ ls) after (m\<lparr>m_via := m_via m @ [v]\<rparr>)"
    by (intro parse_lines_via) simp_all
  with Cons show ?case by simp
qed simp

lemma clean_NL: "clean n v \<Longrightarrow> NL \<notin> set v"
  by (simp add: clean_def)

lemma wf_line_name: "NL \<notin> set v \<Longrightarrow> lit \<noteq> [] \<Longrightarrow> NL \<notin> set lit \<Longrightarrow> hd lit \<noteq> CR \<Longrightarrow> wf_line (lit @ v)"
  by (simp add: wf_line_def)

lemma request_cseq:
  assumes "request_ok m"
  shows "clean 64 (m_cseq m)" and "atoi (m_cseq m) = m_cseq_num m"
    and "strchr (m_cseq m) (CHR '' '') = Some (CHR '' '' # m_method m)"
proof -
  define n where "n = nat (m_cseq_num m)"
  have n: "n < 2 ^ 31" "m_cseq_num m = int n"
    using assms by (simp_all add: request_ok_def n_def nat_less_iff)
  have c: "m_cseq m = dec_nat n @ '' '' @ m_method m"
    using assms n by (simp add: request_ok_def dec_int_def)
  have tok: "token (m_method m)" "m_method m \<noteq> []" "length (m_method m) < 16"
    using assms by (simp_all add: request_ok_def)
  have len: "length (dec_nat n) \<le> 10" using n(1) by (intro length_dec_nat) simp_all
  have dig: "list_all is_digit (dec_nat n)" "dec_nat n \<noteq> []" using dec_nat_digits [of n] by simp_all
  then have "is_digit (hd (dec_nat n))" by (simp add: list_all_iff)
  then have "\<not> is_blank (hd (m_cseq m))"
    using dig by (simp add: c) (auto simp: is_blank_def is_digit_def)
  moreover have "\<not> is_trail x" if "x \<in> set (m_method m)" for x
    using token_chars [OF tok(1)] that by (auto simp: is_trail_def)
  then have "\<not> is_trail (last (m_cseq m))" using tok(2) by (simp add: c)
  moreover have "NUL \<notin> set (m_cseq m)" "NL \<notin> set (m_cseq m)"
    using token_chars [OF tok(1)] by (simp_all add: c) (simp_all add: NUL_def NL_def)
  ultimately show "clean 64 (m_cseq m)"
    using len tok(3) by (simp add: clean_def fits_def) (simp add: c)
  have "atoi ([] @ dec_nat n @ '' '' @ m_method m) = int n"
    using n(1) by (intro atoi_dec_nat) (simp_all add: is_digit_def)
  then show "atoi (m_cseq m) = m_cseq_num m" by (simp add: c n(2))
  have "CHR '' '' \<notin> set (dec_nat n)" using dec_nat_set [of "CHR '' ''" n] by (auto simp: is_digit_def)
  then show "strchr (m_cseq m) (CHR '' '') = Some (CHR '' '' # m_method m)"
    using strchr_prefix [of "CHR '' ''" "dec_nat n" "m_method m"] by (simp add: c)
qed

lemma request_lines_wf:
  assumes "request_ok m"
  shows "list_all wf_line (request_lines m)" and "wf_line (request_line m)"
proof -
  have cs: "NL \<notin> set (m_cseq m)"
    using clean_NL [OF request_cseq(1) [OF assms]] .
  have "list_all (\<lambda>v. NL \<notin> set v) (m_via m)"
    using assms by (auto simp: request_ok_def list_all_iff dest: clean_NL)
  then have "list_all wf_line (map (\<lambda>v. ''Via: '' @ v) (m_via m))"
    by (auto simp: list_all_iff wf_line_def NL_def CR_def)
  moreover have "NL \<notin> set v" if "v \<in> {m_from m, m_to m, m_call_id m, m_contact m, m_content_type m, m_user_agent m}" for v
    using assms that by (auto simp: request_ok_def dest: clean_NL)
  ultimately show "list_all wf_line (request_lines m)"
    using cs by (simp add: request_lines_def wf_line_def NL_dec_nat) (simp add: NL_def CR_def)
  show "wf_line (request_line m)"
    using assms token_chars [of "m_method m"] token_chars [of "m_uri m"]
    by (cases "m_method m") (auto simp: request_ok_def wf_line_def request_line_def, auto simp: NL_def CR_def)
qed

lemma parse_request_lines:
  assumes "request_ok m"
  shows "parse_lines (request_lines m) after
           (sip_msg_zero\<lparr>m_method := m_method m, m_uri := m_uri m\<rparr>)
         = m\<lparr>m_body := []\<rparr>"
proof -
  note cs = request_cseq [OF assms]
  have ok: "list_all (clean 320) (m_via m)" "length (m_via m) \<le> 4"
    "clean 320 (m_from m)" "clean 320 (m_to m)" "clean 256 (m_call_id m)" "clean 320 (m_contact m)"
    "clean 64 (m_content_type m)" "clean 128 (m_user_agent m)" "length (m_body m) < 2 ^ 31"
    using assms by (simp_all add: request_ok_def SM_SIP_MAX_VIAS_def SM_SIP_MAX_MSG_def)
  have via: "length (m_via (sip_msg_zero\<lparr>m_method := a, m_uri := b\<rparr>)) + length (m_via m) \<le> 4" for a b
    using ok(2) by (simp add: sip_msg_zero_def)
  show ?thesis
    unfolding request_lines_def
    by (simp only: parse_lines_vias [OF ok(1) via] parse_line_steps ok cs parse_lines.simps(1))
      (use assms in \<open>simp add: request_ok_def sip_msg_zero_def snprintf_def\<close>)
qed

text \<open>The SDP answer the server sends, as the text \<open>handle_invite\<close> prints.\<close>

definition sdp_lines :: "u32 \<Rightarrow> u32 \<Rightarrow> string \<Rightarrow> nat \<Rightarrow> string list" where
  "sdp_lines t1 t2 ip port =
     [''v=0'', ''o=- '' @ dec_nat (unat t1) @ '' '' @ dec_nat (unat t2) @ '' IN IP4 '' @ ip,
      ''s=softmodem'', ''c=IN IP4 '' @ ip, ''t=0 0'', ''m=audio '' @ dec_nat port @ '' RTP/AVP 0'',
      ''a=rtpmap:0 PCMU/8000'', ''a=ptime:20'', ''a=sendrecv'']"

definition sdp_answer :: "u32 \<Rightarrow> u32 \<Rightarrow> string \<Rightarrow> nat \<Rightarrow> string" where
  "sdp_answer t1 t2 ip port = lines_text (sdp_lines t1 t2 ip port)"

lemma copy_clean_nosp:
  assumes "clean n v"
  shows "copy_line_value (v @ CRLF @ s) (1 + int (length v)) n = v"
proof -
  have t: "take (nat (1 + int (length v))) (v @ CRLF @ s) = v @ [CR]"
    by (simp add: CRLF_alt nat_add_distrib)
  have "dropWhile is_trail (rev v) = rev v"
    using assms by (cases "rev v") (auto simp: clean_def hd_rev [symmetric])
  moreover have "dropWhile is_blank v = v" using assms by (cases v) (auto simp: clean_def)
  moreover have "cstr (take (n - 1) v) = v" using assms by (auto simp: clean_def fits_def cstr_id)
  ultimately show ?thesis unfolding copy_line_value_def t by (simp add: is_trail_def)
qed

lemma strstr_skip:
  "lit \<noteq> [] \<Longrightarrow> hd lit \<notin> set xs \<Longrightarrow> NUL \<notin> set xs \<Longrightarrow> strstr (xs @ s) lit = strstr s lit"
proof (induction xs)
  case (Cons x xs)
  then have "\<not> starts_with lit (x # xs @ s)" by (cases lit) (auto simp: starts_with_def)
  with Cons show ?case by auto
qed simp

lemma sdp_loop_other:
  assumes "NL \<notin> set l" and "\<not> starts_with ''c=IN IP4 '' (l @ CRLF @ s)"
    and "\<not> starts_with ''m=audio '' (l @ CRLF @ s)"
  shows "sdp_loop (l @ CRLF @ s) n (ip, port, pt) = sdp_loop s n (ip, port, pt)"
  using assms find_eol_crlf [OF assms(1), of s]
  by (subst sdp_loop.simps) (simp add: CRLF_alt)

lemma sdp_loop_connection:
  assumes "clean n v"
  shows "sdp_loop ((''c=IN IP4 '' @ v) @ CRLF @ s) n (ip, port, pt) = sdp_loop s n (v, port, pt)"
proof -
  let ?l = "''c=IN IP4 '' @ v"
  have nl: "NL \<notin> set ?l" using clean_NL [OF assms] by (simp add: NL_def)
  have c: "copy_line_value (drop 9 (?l @ CRLF @ s)) (int (find_eol (?l @ CRLF @ s)) - 9) n = v"
    using copy_clean_nosp [OF assms, of s] unfolding find_eol_crlf [OF nl] by simp
  have "starts_with ''c=IN IP4 '' (?l @ CRLF @ s)" by (simp add: starts_with_def)
  then have "sdp_loop (?l @ CRLF @ s) n (ip, port, pt)
      = sdp_loop (drop (Suc (find_eol (?l @ CRLF @ s))) (?l @ CRLF @ s)) n
      (copy_line_value (drop 9 (?l @ CRLF @ s)) (int (find_eol (?l @ CRLF @ s)) - 9) n, port, pt)"
    by (subst sdp_loop.simps) (simp add: Let_def)
  also have "\<dots> = sdp_loop s n (v, port, pt)"
    by (simp only: c) (simp only: find_eol_crlf [OF nl], simp add: CRLF_alt)
  finally show ?thesis .
qed

lemma sdp_loop_media:
  assumes "p < 2 ^ 31"
  shows "sdp_loop ((''m=audio '' @ dec_nat p @ '' RTP/AVP 0'') @ CRLF @ s) n (ip, port, pt)
    = sdp_loop s n (ip, int p, 0)"
proof -
  let ?l = "''m=audio '' @ dec_nat p @ '' RTP/AVP 0''" and ?q = "dec_nat p @ '' RTP/AVP 0'' @ CRLF @ s"
  have nl: "NL \<notin> set ?l" by (simp add: NL_def [symmetric]) (simp add: NL_def)
  have "cstr ?q = [] @ dec_nat p @ '' RTP/AVP 0'' @ CRLF @ cstr s"
    using cstr_append [of "dec_nat p @ '' RTP/AVP 0'' @ CRLF" s]
    by (simp add: CRLF_def NUL_def [symmetric]) (simp add: NUL_def)
  then have port: "atoi (cstr ?q) = int p"
    using atoi_dec_nat [of "[]" "'' RTP/AVP 0'' @ CRLF @ cstr s" p] assms by (simp add: is_digit_def)
  have "CHR ''R'' \<notin> set (dec_nat p)" using dec_nat_set [of "CHR ''R''" p] by (auto simp: is_digit_def)
  then have "strstr ((dec_nat p @ '' '') @ ''RTP/AVP 0'' @ CRLF @ s) ''RTP/AVP''
      = strstr (''RTP/AVP 0'' @ CRLF @ s) ''RTP/AVP''"
    by (intro strstr_skip) (simp_all add: NUL_def [symmetric], simp add: NUL_def)
  then have st: "strstr ?q ''RTP/AVP'' = Some (''RTP/AVP 0'' @ CRLF @ s)"
    by (simp add: starts_with_def)
  have d0: "dec_nat 0 = ''0''" by code_simp
  have a0: "atoi (sp @ ''0'' @ CRLF @ cstr s) = 0" if "list_all is_space sp" for sp
    using atoi_dec_nat [of sp "CRLF @ cstr s" 0] that by (simp add: d0 is_digit_def CRLF_def)
  have cs: "cstr (''0'' @ CRLF @ s) = ''0'' @ CRLF @ cstr s" "cstr ('' 0'' @ CRLF @ s) = '' 0'' @ CRLF @ cstr s"
    using cstr_append [of "''0'' @ CRLF" s] cstr_append [of "'' 0'' @ CRLF" s] by (simp_all add: CRLF_def NUL_def)
  have pt: "atoi (cstr (skip_blanks k ('' 0'' @ CRLF @ s))) = 0" for k
  proof (cases k)
    case 0
    with a0 [of "'' ''"] cs(2) show ?thesis by (simp add: is_space_def)
  next
    case (Suc j)
    have "skip_blanks j (''0'' @ CRLF @ s) = ''0'' @ CRLF @ s" by (cases j) (simp_all add: is_blank_def)
    with Suc a0 [of "[]"] cs(1) show ?thesis by (simp add: is_blank_def)
  qed
  have e: "?l @ CRLF @ s = ''m=audio '' @ ?q" by simp
  have "sdp_loop (?l @ CRLF @ s) n (ip, port, pt) = sdp_loop (drop (Suc (find_eol (?l @ CRLF @ s))) (?l @ CRLF @ s)) n
      (ip, int p, 0)"
    using port st pt unfolding e by (subst sdp_loop.simps) (simp add: Let_def starts_with_def)
  also have "\<dots> = sdp_loop s n (ip, int p, 0)" unfolding find_eol_crlf [OF nl] by (simp add: CRLF_alt)
  finally show ?thesis .
qed

lemma parse_sip_ok: "sip_msg_ok (parse_sip stack buf len)"
  by (simp add: parse_sip_def Let_def parse_body_ok parse_headers_ok parse_first_line_ok sip_msg_zero_ok)

text \<open>C27: whatever bytes arrive, and whatever lies behind them, every field of the parsed message fits
  its array with its terminator, holds no embedded NUL, and there are at most four Via values.\<close>

theorem parse_sip_fields_fit: "sip_msg_ok (parse_sip stack buf len)"
  by (rule parse_sip_ok)

text \<open>C16: the parser reads back every well-formed request: whatever the request's fields, and whatever
  bytes lie behind it in the buffer, parsing its text gives exactly those fields.\<close>

theorem parse_request_roundtrip:
  assumes "request_ok m"
  shows "parse_sip stack (request_text m @ stale) (length (request_text m)) = m"
proof -
  have req: "token (m_method m)" "length (m_method m) < 16" "\<not> starts_with ''SIP/2.0'' (m_method m)"
    "token (m_uri m)" "length (m_uri m) < 256" using assms by (simp_all add: request_ok_def)
  have "parse_sip stack (request_text m @ stale) (length (request_text m))
      = parse_body (m_body m) (m\<lparr>m_body := []\<rparr>)"
    unfolding request_text_def append_assoc
    by (simp only: parse_sip_lines [OF request_lines_wf(2) [OF assms] request_lines_wf(1) [OF assms]]
        parse_first_line_request [OF req] parse_request_lines [OF assms])
  also have "\<dots> = m" using assms by (simp add: parse_body_def request_ok_def Let_def)
  finally show ?thesis .
qed

definition sample_invite :: sip_msg where
  "sample_invite = sip_msg_zero\<lparr>m_method := ''INVITE'', m_uri := ''sip:modem@host'',
     m_via := [''SIP/2.0/UDP a;branch=z'', ''SIP/2.0/UDP b''], m_from := ''<sip:x@y>;tag=77'', m_from_tag := ''77'',
     m_to := ''<sip:modem@host>'', m_call_id := ''abc@y'', m_cseq := ''101 INVITE'', m_cseq_num := 101,
     m_cseq_method := ''INVITE'', m_contact := ''<sip:x@y>'', m_content_type := ''application/sdp'',
     m_user_agent := ''PAP2T'', m_body := ''v=0'', m_content_length := 3\<rparr>"

theorem parse_request_roundtrip_witness:
  "parse_sip [] (request_text sample_invite @ ''junk'') (length (request_text sample_invite)) = sample_invite"
proof (rule parse_request_roundtrip)
  show "request_ok sample_invite" by code_simp
qed

lemma extract_sdp_answer:
  assumes "clean 64 ip" and "port < 65536" and "m_body m = sdp_answer t1 t2 ip port"
  shows "extract_sdp m 64 = (ip, int port, 0)"
proof -
  have ip: "NL \<notin> set ip" using assms(1) by (rule clean_NL)
  let ?o = "''o=- '' @ dec_nat (unat t1) @ '' '' @ dec_nat (unat t2) @ '' IN IP4 '' @ ip"
  have o: "NL \<notin> set ?o" using ip by (simp add: NL_def [symmetric]) (simp add: NL_def)
  have port: "port < 2 ^ 31" using assms(2) by simp
  have skip: "sdp_loop (''v=0'' @ CRLF @ s) 64 (a, b, c) = sdp_loop s 64 (a, b, c)"
    "sdp_loop (?o @ CRLF @ s) 64 (a, b, c) = sdp_loop s 64 (a, b, c)"
    "sdp_loop (''s=softmodem'' @ CRLF @ s) 64 (a, b, c) = sdp_loop s 64 (a, b, c)"
    "sdp_loop (''t=0 0'' @ CRLF @ s) 64 (a, b, c) = sdp_loop s 64 (a, b, c)"
    "sdp_loop (''a=rtpmap:0 PCMU/8000'' @ CRLF @ s) 64 (a, b, c) = sdp_loop s 64 (a, b, c)"
    "sdp_loop (''a=ptime:20'' @ CRLF @ s) 64 (a, b, c) = sdp_loop s 64 (a, b, c)"
    "sdp_loop (''a=sendrecv'' @ CRLF @ s) 64 (a, b, c) = sdp_loop s 64 (a, b, c)" for s a b c
    using o by (intro sdp_loop_other; simp add: starts_with_def NL_def)+
  have "extract_sdp m 64 = sdp_loop [] 64 (ip, int port, 0)"
    unfolding extract_sdp_def assms(3) sdp_answer_def sdp_lines_def lines_text_simps
    by (simp only: skip sdp_loop_connection [OF assms(1)] sdp_loop_media [OF port])
  then show ?thesis by (simp add: sdp_loop.simps)
qed

text \<open>The server's own SDP answer, read by the server's SDP parser, names the advertised address,
  the RTP port and payload type 0.\<close>

theorem sdp_answer_roundtrip:
  assumes "clean 64 ip" and "port < 65536" and "m_body m = sdp_answer t1 t2 ip port"
  shows "extract_sdp m 64 = (ip, int port, 0)"
  using assms by (rule extract_sdp_answer)

theorem sdp_answer_roundtrip_witness:
  "extract_sdp (sip_msg_zero\<lparr>m_body := sdp_answer 5 6 ''10.0.0.7'' 30000\<rparr>) 64 = (''10.0.0.7'', 30000, 0)"
proof -
  have "clean 64 ''10.0.0.7''" by code_simp
  from sdp_answer_roundtrip [OF this, of 30000 _ 5 6] show ?thesis by simp
qed

definition unterminated :: string where
  "unterminated = ''OPTIONS a SIP/2.0'' @ CRLF @ ''v''"

text \<open>C28: a datagram that ends in the middle of a header name makes the parser match that name in
  the bytes left behind it, and, the value's end then lying before its start, copy up to 319 bytes of
  them into the field: an unterminated "v" puts the left-over bytes into the Via that is echoed back.\<close>

theorem parse_sip_leaks_stale_bytes:
  assumes "length secret < 320" and "NUL \<notin> set secret"
  shows "m_via (parse_sip stack (unterminated @ '':'' @ secret) (length unterminated)) = [secret]"
proof -
  define r where "r = parse_first_line stack (take 18 unterminated) sip_msg_zero"
  have via: "m_via r = []"
    by (simp add: r_def parse_first_line_def Let_def sip_msg_zero_def split: option.split)
  have hl: "header_line (''v'' @ '':'' @ secret) 1 r = r\<lparr>m_via := [secret]\<rparr>"
    using assms via by (simp add: header_kind SM_SIP_MAX_VIAS_def copy_line_value_def cstr_id)
  have v: "find_eol ''v'' = 1" by code_simp
  have "parse_headers ''v'' ('':'' @ secret) r = r\<lparr>m_via := [secret]\<rparr>"
    using hl v by (subst parse_headers.simps) (simp add: parse_headers.simps [of "[]"] CR_def)
  moreover have "find_body unterminated = length unterminated" "find_eol unterminated = 18" "drop (Suc 18) unterminated = ''v''"
    by code_simp+
  ultimately show ?thesis
    unfolding parse_sip_def Let_def by (simp add: r_def [symmetric] parse_body_def)
qed

theorem parse_sip_leaks_stale_bytes_witness:
  "m_via (parse_sip [] (unterminated @ '':'' @ ''password'') (length unterminated)) = [''password'']"
  by (rule parse_sip_leaks_stale_bytes) (simp_all add: NUL_def)

end
