(* ===== verification/Rtp_Bridge.thy ===== *)
theory Rtp_Bridge
  imports Ast_Socket G711 Sip_Parse
begin

text \<open>
  The media half of \<open>src/src/sip/sm_sip.c\<close>: the server's state, the paced audio pump between the RTP
  peer and the softmodem daemon, and the end of a call. The record \<open>sip_env\<close> holds what the system
  gives the server: the results of \<open>rand\<close> and \<open>time\<close> in the order of the calls, the results of the
  calls on the daemon socket, and what the server has sent and closed so far. The output \<open>Fault\<close>
  stands for an access outside an array; the properties of \<open>Sip_Server\<close> show it never happens.
\<close>

definition SM_SIP_RTP_MAXPAY :: nat where "SM_SIP_RTP_MAXPAY = 1024"
definition SM_SIP_RXQ :: nat where "SM_SIP_RXQ = 32"

record sockaddr =
  sa_addr :: u32
  sa_port :: u16

record timespec =
  tv_sec :: int
  tv_nsec :: int

record sip_config =
  cf_bind_port :: int
  cf_bind_addr :: string
  cf_advertise_ip :: string
  cf_daemon_host :: string
  cf_daemon_port :: int
  cf_uuid :: string
  cf_capture_dir :: "string option"

datatype sip_out =
    SipTx sockaddr string
  | RtpTx sockaddr "u8 list"
  | DaemonTx "u8 list"
  | CaptureRx "u8 list"
  | CaptureTx "u8 list"
  | CloseFd int
  | Fault

record sip_env =
  en_rand :: "nat \<Rightarrow> u32"
  en_rand_n :: nat
  en_time :: "nat \<Rightarrow> u32"
  en_time_n :: nat
  en_send :: "send_ev list"
  en_recv :: "io_ev list"
  en_out :: "sip_out list"

record rx_frame =
  fr_pcm :: "nat \<Rightarrow> u16"
  fr_nsamples :: nat

record sm_sip = sip_env +
  sp_cfg :: sip_config
  sp_sip_fd :: int
  sp_call_active :: bool
  sp_media_active :: bool
  sp_call_id :: string
  sp_to_hdr :: string
  sp_from_hdr :: string
  sp_cseq :: int
  sp_local_ssrc :: u32
  sp_rtp_seq :: u16
  sp_rtp_ts :: u32
  sp_rtp_peer :: sockaddr
  sp_rtp_peer_known :: bool
  sp_rtp_fd :: int
  sp_daemon_fd :: int
  sp_daemon_as :: ast_socket
  sp_rxq :: "nat \<Rightarrow> rx_frame"
  sp_rxq_head :: nat
  sp_rxq_tail :: nat
  sp_tick_ns :: nat
  sp_rx_underruns :: int
  sp_rx_drops :: int
  sp_next_tick :: timespec
  sp_last_ok :: string
  sp_calls_done :: int
  sp_call_seq :: int
  sp_cap_rx :: bool
  sp_cap_tx :: bool

definition emit :: "sip_out \<Rightarrow> sm_sip \<Rightarrow> sm_sip" where
  "emit x s = s\<lparr>en_out := en_out s @ [x]\<rparr>"

definition call_rand :: "sm_sip \<Rightarrow> u32 \<times> sm_sip" where
  "call_rand s = (en_rand s (en_rand_n s), s\<lparr>en_rand_n := Suc (en_rand_n s)\<rparr>)"

definition call_time :: "sm_sip \<Rightarrow> u32 \<times> sm_sip" where
  "call_time s = (en_time s (en_time_n s), s\<lparr>en_time_n := Suc (en_time_n s)\<rparr>)"

definition make_tag :: "sm_sip \<Rightarrow> string \<times> sm_sip" where
  "make_tag s = (let (r, s1) = call_rand s; (t, s2) = call_time s1 in (hex08 r @ hex08 t, s2))"

subsection \<open>Ending a call\<close>

definition end_call :: "sm_sip \<Rightarrow> sm_sip" where
  "end_call s0 =
     (let s1 = (if sp_daemon_fd s0 \<ge> 0
                then (emit (CloseFd (sp_daemon_fd s0)) s0)\<lparr>sp_daemon_fd := -1\<rparr> else s0);
          s2 = (if sp_rtp_fd s1 \<ge> 0
                then (emit (CloseFd (sp_rtp_fd s1)) s1)\<lparr>sp_rtp_fd := -1\<rparr> else s1)
      in s2\<lparr>sp_cap_rx := False, sp_cap_tx := False, sp_call_active := False,
            sp_media_active := False, sp_rtp_peer_known := False, sp_rxq_head := 0, sp_rxq_tail := 0,
            sp_call_id := [], sp_last_ok := [], sp_calls_done := sp_calls_done s2 + 1\<rparr>)"

text \<open>The text \<open>send_bye\<close> prints into its 1024 bytes. \<open>sendto\<close> is given the length \<open>snprintf\<close>
  returned, that of the whole text, so a longer text would be read past the array.\<close>

definition bye_text :: "sm_sip \<Rightarrow> string \<Rightarrow> string" where
  "bye_text s tag =
     (let ip = cf_advertise_ip (sp_cfg s)
      in ''BYE sip:modem@'' @ ip @ '' SIP/2.0'' @ CRLF
         @ ''Via: SIP/2.0/UDP '' @ ip @ '':'' @ dec_int (cf_bind_port (sp_cfg s))
         @ '';branch=z9hG4bK'' @ hex08 (sp_local_ssrc s) @ CRLF
         @ ''From: <sip:modem@'' @ ip @ ''>;tag='' @ tag @ CRLF
         @ ''To: '' @ sp_to_hdr s @ CRLF
         @ ''Call-ID: '' @ sp_call_id s @ CRLF
         @ ''CSeq: '' @ dec_int (sp_cseq s + 1) @ '' BYE'' @ CRLF
         @ ''Max-Forwards: 70'' @ CRLF
         @ ''Content-Length: 0'' @ CRLF @ CRLF)"

definition send_bye :: "sm_sip \<Rightarrow> sm_sip" where
  "send_bye s =
     (if \<not> sp_call_active s \<or> \<not> sp_rtp_peer_known s then s
      else (let (tag, s1) = make_tag s;
                txt = bye_text s1 tag
            in (emit (if length txt < 1024 then SipTx (sp_rtp_peer s1) txt else Fault) s1)
                 \<lparr>sp_cseq := sp_cseq s1 + 1\<rparr>))"

definition bye_and_end :: "sm_sip \<Rightarrow> sm_sip" where
  "bye_and_end s = end_call (if sp_rtp_peer_known s then send_bye s else s)"

subsection \<open>The 20 ms clock\<close>

function ts_carry :: "timespec \<Rightarrow> timespec" where
  "ts_carry t =
     (if tv_nsec t \<ge> 1000000000
      then ts_carry (t\<lparr>tv_nsec := tv_nsec t - 1000000000, tv_sec := tv_sec t + 1\<rparr>) else t)"
  by pat_completeness auto
termination
  by (relation "measure (\<lambda>t. nat (tv_nsec t))") auto

declare ts_carry.simps [simp del]

definition ts_add_ms :: "timespec \<Rightarrow> int \<Rightarrow> timespec" where
  "ts_add_ms t ms = ts_carry (t\<lparr>tv_nsec := tv_nsec t + ms * 1000000\<rparr>)"

definition ts_ms_until :: "timespec \<Rightarrow> timespec \<Rightarrow> int" where
  "ts_ms_until t now = (tv_sec t - tv_sec now) * 1000 + c_div (tv_nsec t - tv_nsec now) 1000000"

subsection \<open>The playout queue\<close>

definition enqueue_rx :: "u16 list \<Rightarrow> int \<Rightarrow> sm_sip \<Rightarrow> sm_sip" where
  "enqueue_rx pcm nsamples0 s =
     (if nsamples0 \<le> 0 then s
      else (let n = (if nsamples0 > int SM_SIP_RTP_MAXPAY then SM_SIP_RTP_MAXPAY else nat nsamples0);
                s1 = s\<lparr>sp_tick_ns := n\<rparr>;
                nxt = (sp_rxq_head s1 + 1) mod SM_SIP_RXQ;
                s2 = (if nxt = sp_rxq_tail s1
                      then s1\<lparr>sp_rxq_tail := (sp_rxq_tail s1 + 1) mod SM_SIP_RXQ,
                              sp_rx_drops := sp_rx_drops s1 + 1\<rparr>
                      else s1);
                fr = sp_rxq s2 (sp_rxq_head s2)
            in s2\<lparr>sp_rxq := (sp_rxq s2)(sp_rxq_head s2 :=
                       fr\<lparr>fr_pcm := mem_write (fr_pcm fr) 0 (take n pcm), fr_nsamples := n\<rparr>),
                  sp_rxq_head := nxt\<rparr>))"

subsection \<open>Feeding the daemon\<close>

definition rtp_packet :: "u16 \<Rightarrow> u32 \<Rightarrow> u32 \<Rightarrow> u8 list \<Rightarrow> u8 list" where
  "rtp_packet seq ts ssrc payload =
     [0x80, 0, ucast (drop_bit 8 seq), ucast (seq AND 0xFF),
      ucast (drop_bit 24 ts), ucast (drop_bit 16 ts), ucast (drop_bit 8 ts), ucast (ts AND 0xFF),
      ucast (drop_bit 24 ssrc), ucast (drop_bit 16 ssrc), ucast (drop_bit 8 ssrc), ucast (ssrc AND 0xFF)]
     @ payload"

text \<open>One audio message of the daemon goes out as one RTP packet.\<close>

definition forward_audio :: "ast_msg \<Rightarrow> sm_sip \<Rightarrow> sm_sip" where
  "forward_audio msg s =
     (let ns = msg_plen msg div 2;
          out_len = (if ns < SM_SIP_RTP_MAXPAY then ns else SM_SIP_RTP_MAXPAY);
          ulaw = map (\<lambda>x. sm_ulaw_encode (sint x)) (take out_len (bytes_samples (msg_bytes msg)));
          s1 = (if sp_cap_tx s then emit (CaptureTx ulaw) s else s);
          s2 = emit (RtpTx (sp_rtp_peer s1) (rtp_packet (sp_rtp_seq s1) (sp_rtp_ts s1) (sp_local_ssrc s1) ulaw)) s1
      in s2\<lparr>sp_rtp_seq := sp_rtp_seq s2 + 1, sp_rtp_ts := sp_rtp_ts s2 + of_nat out_len\<rparr>)"

lemma read_header_consumes:
  "read_header s es = (r, s', es') \<Longrightarrow> length (data_of es') \<le> length (data_of es)
     \<and> (r = 1 \<longrightarrow> as_rxhdr s < 3 \<longrightarrow> length (data_of es') < length (data_of es))"
proof (induction s es arbitrary: r s' es' rule: read_header.induct)
  case (1 s es)
  show ?case
  proof (cases "recv_into es (3 - as_rxhdr s)")
    case (Pair q es1)
    show ?thesis
    proof (cases q)
      case (RecvGot bs)
      with Pair recv_into_shrinks [of es _ bs es1] have "length (data_of es1) < length (data_of es)" by simp
      with 1 Pair RecvGot show ?thesis by (subst (asm) (2) read_header.simps) (fastforce split: if_splits)
    next
      case RecvTimeout
      with Pair have "data_of es1 = data_of es" by (metis recv_into_other recv_res.distinct(3))
      with 1(2) Pair RecvTimeout show ?thesis by (subst (asm) read_header.simps) (auto split: if_splits)
    next
      case RecvError
      with Pair have "data_of es1 = data_of es" by (metis recv_into_other recv_res.distinct(5))
      with 1(2) Pair RecvError show ?thesis by (subst (asm) read_header.simps) (auto split: if_splits)
    qed
  qed
qed

lemma read_header_result: "read_header s es = (r, s', es') \<Longrightarrow> r \<le> 1"
proof (induction s es arbitrary: r s' es' rule: read_header.induct)
  case (1 s es)
  then show ?case
    by (subst (asm) (2) read_header.simps) (auto split: if_splits prod.splits recv_res.splits)
qed

lemma read_payload_result: "read_payload s es = (r, s', es') \<Longrightarrow> r \<le> 1"
proof (induction s es arbitrary: r s' es' rule: read_payload.induct)
  case (1 s es)
  show ?case
    using 1 by (subst (asm) (3) read_payload.simps)
      (auto simp: Let_def split: if_splits prod.splits recv_res.splits)
qed

lemma read_payload_consumes:
  "read_payload s es = (r, s', es') \<Longrightarrow> length (data_of es') \<le> length (data_of es)"
proof (induction s es arbitrary: r s' es' rule: read_payload.induct)
  case (1 s es)
  have le: "length (data_of es1) \<le> length (data_of es)" if "recv_into es w = (q, es1)" for w q es1
  proof (cases q)
    case (RecvGot bs)
    with that show ?thesis using recv_into_shrinks [of es w bs es1] by simp
  qed (use that recv_into_other [of es w q es1] in auto)
  show ?case
    using 1 by (subst (asm) (3) read_payload.simps)
      (auto simp: Let_def split: if_splits prod.splits recv_res.splits dest!: le; meson order_trans)
qed

definition read_measure :: "ast_socket \<Rightarrow> io_ev list \<Rightarrow> nat" where
  "read_measure a es = 2 * length (data_of es) + (if as_rx_pending a \<or> 3 \<le> as_rxhdr a then 1 else 0)"

lemma sm_ast_read_consumes:
  assumes "sm_ast_read a n es = (r, msg, a', es')" and "r > 0"
  shows "read_measure a' es' < read_measure a es"
proof -
  obtain r1 a1 es1 where h: "ast_read_header a es = (r1, a1, es1)" by (cases "ast_read_header a es") auto
  with assms have r1: "r1 = 1" by (auto simp: sm_ast_read_def ast_read_header_def Let_def
      split: if_splits prod.splits dest: read_header_result)
  with assms h have p: "ast_read_payload a1 n es1 = (r, msg, a', es')" by (simp add: sm_ast_read_def)
  obtain r2 a2 es2 where q: "read_payload a1 es1 = (r2, a2, es2)" by (cases "read_payload a1 es1") auto
  with p assms(2) have fin: "\<not> as_rx_pending a' \<and> as_rxhdr a' = 0 \<and> es' = es2"
    using read_payload_result [OF q] by (auto simp: ast_read_payload_def Let_def split: if_splits)
  have "length (data_of es2) \<le> length (data_of es1)" using read_payload_consumes [OF q] .
  moreover have "length (data_of es1) < length (data_of es) \<or>
      length (data_of es1) \<le> length (data_of es) \<and> (as_rx_pending a \<or> 3 \<le> as_rxhdr a)"
    using h r1 read_header_consumes [of a es]
    by (auto simp: ast_read_header_def Let_def split: if_splits prod.splits)
  ultimately show ?thesis using fin by (auto simp: read_measure_def)
qed

text \<open>The reply loop of \<open>feed_daemon\<close>.\<close>

function daemon_replies :: "sm_sip \<Rightarrow> int \<times> sm_sip" where
  "daemon_replies s =
     (let (r, msg, a, es) = sm_ast_read (sp_daemon_as s) SM_AS_MAX_PAYLOAD (en_recv s);
          s1 = s\<lparr>sp_daemon_as := a, en_recv := es\<rparr>
      in if r > 0 then
           (case msg of None \<Rightarrow> (0, s1)
            | Some m \<Rightarrow>
                if msg_kind m = SM_AS_KIND_AUDIO \<and> msg_plen m \<ge> 2 then (0, forward_audio m s1)
                else if msg_kind m = SM_AS_KIND_HANGUP then (-1, bye_and_end s1)
                else daemon_replies s1)
         else if r < 0 then (-1, bye_and_end s1) else (0, s1))"
  by pat_completeness auto
termination
  by (relation "measure (\<lambda>s. read_measure (sp_daemon_as s) (en_recv s))")
    (auto dest: sm_ast_read_consumes [OF sym])

declare daemon_replies.simps [simp del]

definition feed_daemon :: "u16 list \<Rightarrow> sm_sip \<Rightarrow> int \<times> sm_sip" where
  "feed_daemon pcm s =
     (let (r, sent, es) = sm_ast_write_audio pcm (en_send s);
          s1 = emit (DaemonTx sent) (s\<lparr>en_send := es\<rparr>)
      in if r < 0 then (-1, bye_and_end s1) else daemon_replies s1)"

definition audio_tick :: "sm_sip \<Rightarrow> sm_sip" where
  "audio_tick s =
     (if sp_rxq_head s \<noteq> sp_rxq_tail s
      then (let fr = sp_rxq s (sp_rxq_tail s)
            in snd (feed_daemon (mem_read (fr_pcm fr) 0 (fr_nsamples fr))
                      (s\<lparr>sp_rxq_tail := (sp_rxq_tail s + 1) mod SM_SIP_RXQ\<rparr>)))
      else snd (feed_daemon (replicate (sp_tick_ns s) 0) (s\<lparr>sp_rx_underruns := sp_rx_underruns s + 1\<rparr>)))"

text \<open>The pump at the end of an iteration; \<open>clocks\<close> are the readings of the clock after each tick.
  None when the loop needs more readings than there are.\<close>

fun audio_pump :: "timespec \<Rightarrow> timespec list \<Rightarrow> sm_sip \<Rightarrow> sm_sip option" where
  "audio_pump now clocks s =
     (if sp_call_active s \<and> sp_rtp_peer_known s \<and> ts_ms_until (sp_next_tick s) now \<le> 0
      then (case clocks of
              [] \<Rightarrow> None
            | now' # clocks' \<Rightarrow>
                (let s1 = audio_tick s;
                     s2 = s1\<lparr>sp_next_tick := ts_add_ms (sp_next_tick s1) 20\<rparr>;
                     s3 = (if ts_ms_until (sp_next_tick s2) now' \<le> -100
                           then s2\<lparr>sp_next_tick := ts_add_ms now' 20\<rparr> else s2)
                 in audio_pump now' clocks' s3))
      else Some s)"

declare audio_pump.simps [simp del]

subsection \<open>Received RTP packets\<close>

text \<open>Reading a byte of the packet; None is a read outside it.\<close>

definition get_byte :: "u8 list \<Rightarrow> int \<Rightarrow> (nat \<Rightarrow> 'a option) \<Rightarrow> 'a option" where
  "get_byte pkt i f = (if 0 \<le> i \<and> i < int (length pkt) then f (unat (pkt ! nat i)) else None)"

text \<open>The payload of \<open>plen1\<close> bytes behind the header and before the padding.\<close>

definition rtp_samples :: "u8 list \<Rightarrow> int \<Rightarrow> int \<Rightarrow> nat \<Rightarrow> sm_sip \<Rightarrow> (int \<times> sm_sip) option" where
  "rtp_samples pkt hdr_len plen1 pt s =
     (if plen1 \<le> 0 then Some (-1, s)
      else if pt \<noteq> 0 then Some (0, s)
      else (let plen = (if plen1 > int SM_SIP_RTP_MAXPAY then int SM_SIP_RTP_MAXPAY else plen1);
                payload = take (nat plen) (drop (nat hdr_len) pkt);
                s1 = (if sp_cap_rx s then emit (CaptureRx payload) s else s);
                pcm = map (\<lambda>u. word_of_int (sm_ulaw_decode u)) payload
            in if hdr_len + plen \<le> int (length pkt) then Some (0, enqueue_rx pcm plen s1) else None))"

definition rtp_payload :: "u8 list \<Rightarrow> int \<Rightarrow> bool \<Rightarrow> nat \<Rightarrow> sm_sip \<Rightarrow> (int \<times> sm_sip) option" where
  "rtp_payload pkt hdr_len has_pad pt s =
     (if int (length pkt) < hdr_len then Some (-1, s)
      else (let plen0 = int (length pkt) - hdr_len
            in if has_pad \<and> plen0 > 0
               then get_byte pkt (hdr_len + plen0 - 1) (\<lambda>p. rtp_samples pkt hdr_len (plen0 - int p) pt s)
               else rtp_samples pkt hdr_len plen0 pt s))"

definition process_rtp :: "u8 list \<Rightarrow> sm_sip \<Rightarrow> (int \<times> sm_sip) option" where
  "process_rtp pkt s =
     (if length pkt < 12 then Some (-1, s)
      else get_byte pkt 0 (\<lambda>b0. get_byte pkt 1 (\<lambda>b1.
        (let version = drop_bit 6 b0;
             has_pad = (drop_bit 5 b0 AND 1 = 1);
             has_ext = (drop_bit 4 b0 AND 1 = 1);
             cc = b0 AND 0x0F;
             pt = b1 AND 0x7F;
             hdr_len = 12 + int cc * 4
         in if version \<noteq> 2 then Some (-1, s)
            else if has_ext then
              (if int (length pkt) < hdr_len + 4 then Some (-1, s)
               else get_byte pkt (hdr_len + 2) (\<lambda>h. get_byte pkt (hdr_len + 3) (\<lambda>l.
                      rtp_payload pkt (hdr_len + (4 + int (push_bit 8 h OR l) * 4)) has_pad pt s)))
            else rtp_payload pkt hdr_len has_pad pt s))))"

subsection \<open>The queue as a list of frames\<close>

definition rxq_len :: "sm_sip \<Rightarrow> nat" where
  "rxq_len s = (sp_rxq_head s + 32 - sp_rxq_tail s) mod 32"

definition frame_data :: "rx_frame \<Rightarrow> u16 list" where
  "frame_data fr = mem_read (fr_pcm fr) 0 (fr_nsamples fr)"

definition rxq_frames :: "sm_sip \<Rightarrow> u16 list list" where
  "rxq_frames s = map (\<lambda>i. frame_data (sp_rxq s ((sp_rxq_tail s + i) mod 32))) [0..<rxq_len s]"

definition rxq_inv :: "sm_sip \<Rightarrow> bool" where
  "rxq_inv s \<longleftrightarrow> sp_rxq_head s < 32 \<and> sp_rxq_tail s < 32"

interpretation rxq_window: circular "\<lambda>_. 32" "\<lambda>_. True" "\<lambda>p i. (p + i) mod 32" "\<lambda>p k. (p + k) mod (32::nat)"
proof
  fix p i j :: nat
  assume "i < 32" "j < 32" "(p + i) mod 32 = (p + j) mod 32"
  then show "i = j" by (rule window_mod_inj)
qed (simp_all add: mod_simps ac_simps)

lemma rxq_len_less: "rxq_len s < 32"
  by (simp add: rxq_len_def)

lemma length_rxq_frames [simp]: "length (rxq_frames s) = rxq_len s"
  by (simp add: rxq_frames_def)

lemma rxq_head_slot:
  assumes "rxq_inv s"
  shows "sp_rxq_head s = (sp_rxq_tail s + rxq_len s) mod 32"
proof -
  have "(sp_rxq_tail s + rxq_len s) mod 32 = (sp_rxq_tail s + (sp_rxq_head s + 32 - sp_rxq_tail s)) mod 32"
    by (simp add: rxq_len_def mod_simps)
  also have "\<dots> = sp_rxq_head s" using assms by (simp add: rxq_inv_def)
  finally show ?thesis by simp
qed

lemma mod32_succ: "Suc h mod 32 = (if h = 31 then 0 else Suc h)" if "h < 32" for h :: nat
  using that by auto

lemma rxq_len_alt:
  assumes "rxq_inv s"
  shows "rxq_len s = (if sp_rxq_tail s \<le> sp_rxq_head s then sp_rxq_head s - sp_rxq_tail s
                      else sp_rxq_head s + 32 - sp_rxq_tail s)"
proof (cases "sp_rxq_tail s \<le> sp_rxq_head s")
  case True
  then have e: "sp_rxq_head s + 32 - sp_rxq_tail s = (sp_rxq_head s - sp_rxq_tail s) + 32" by simp
  have m: "(k + 32) mod 32 = k" if "k < 32" for k :: nat using that by simp
  show ?thesis unfolding rxq_len_def e if_P [OF True]
    using assms by (intro m) (auto simp: rxq_inv_def)
next
  case False
  with assms show ?thesis by (simp add: rxq_len_def rxq_inv_def)
qed

lemma rxq_full_iff:
  assumes "rxq_inv s"
  shows "(sp_rxq_head s + 1) mod 32 = sp_rxq_tail s \<longleftrightarrow> rxq_len s = 31"
  using assms by (auto simp: rxq_len_alt [OF assms] rxq_inv_def mod32_succ split: if_splits)

lemma rxq_empty_iff:
  assumes "rxq_inv s"
  shows "sp_rxq_head s = sp_rxq_tail s \<longleftrightarrow> rxq_len s = 0"
  using assms by (auto simp: rxq_len_alt [OF assms] rxq_inv_def split: if_splits)

lemma rxq_frames_snoc:
  assumes "rxq_inv s" and "rxq_len s < 31"
  shows "rxq_frames (s\<lparr>sp_rxq := (sp_rxq s)(sp_rxq_head s := fr), sp_rxq_head := (sp_rxq_head s + 1) mod 32\<rparr>)
           = rxq_frames s @ [frame_data fr]"
proof -
  let ?s' = "s\<lparr>sp_rxq := (sp_rxq s)(sp_rxq_head s := fr), sp_rxq_head := (sp_rxq_head s + 1) mod 32\<rparr>"
  have "rxq_inv ?s'" using assms(1) by (simp add: rxq_inv_def)
  then have len: "rxq_len ?s' = Suc (rxq_len s)"
    using assms rxq_len_alt [OF assms(1)] rxq_len_alt [of ?s']
    by (auto simp: rxq_inv_def mod32_succ split: if_splits)
  have "rxq_frames ?s' = map (\<lambda>i. ((frame_data \<circ> sp_rxq s)((sp_rxq_tail s + rxq_len s) mod 32 := frame_data fr))
      ((sp_rxq_tail s + i) mod 32)) [0..<Suc (rxq_len s)]"
    unfolding rxq_frames_def len by (simp add: rxq_head_slot [OF assms(1), symmetric] del: upt_Suc)
  also have "\<dots> = rxq_frames s @ [frame_data fr]"
    using rxq_window.window_snoc [of "rxq_len s" "frame_data \<circ> sp_rxq s" "sp_rxq_tail s" "frame_data fr"]
      rxq_len_less [of s] by (simp add: rxq_frames_def)
  finally show ?thesis .
qed

lemma rxq_frames_tl:
  assumes "rxq_inv s" and "0 < rxq_len s"
  shows "rxq_frames (s\<lparr>sp_rxq_tail := (sp_rxq_tail s + 1) mod 32\<rparr>) = tl (rxq_frames s)"
    and "hd (rxq_frames s) = frame_data (sp_rxq s (sp_rxq_tail s))"
    and "rxq_len (s\<lparr>sp_rxq_tail := (sp_rxq_tail s + 1) mod 32\<rparr>) = rxq_len s - 1"
proof -
  let ?s' = "s\<lparr>sp_rxq_tail := (sp_rxq_tail s + 1) mod 32\<rparr>"
  have "rxq_inv ?s'" using assms(1) by (simp add: rxq_inv_def)
  then show len: "rxq_len ?s' = rxq_len s - 1"
    using assms rxq_len_alt [OF assms(1)] rxq_len_alt [of ?s']
    by (auto simp: rxq_inv_def mod32_succ split: if_splits)
  have t: "sp_rxq_tail s mod 32 = sp_rxq_tail s" using assms by (simp add: rxq_inv_def)
  have "rxq_frames s = frame_data (sp_rxq s (sp_rxq_tail s)) # rxq_frames ?s'"
    using rxq_window.window_cons [of "rxq_len s" "frame_data \<circ> sp_rxq s" "sp_rxq_tail s"] assms(2) t len
    by (simp add: rxq_frames_def)
  then show "rxq_frames ?s' = tl (rxq_frames s)" "hd (rxq_frames s) = frame_data (sp_rxq s (sp_rxq_tail s))"
    by simp_all
qed

lemma frame_data_write: "n \<le> length pcm \<Longrightarrow>
  frame_data (fr\<lparr>fr_pcm := mem_write (fr_pcm fr) 0 (take n pcm), fr_nsamples := n\<rparr>) = take n pcm"
  using mem_read_write_append [of "fr_pcm fr" 0 "take n pcm"] by (simp add: frame_data_def)

text \<open>What enqueueing does to the list of frames: the oldest goes when 31 are waiting.\<close>

definition frames_enqueue :: "u16 list list \<Rightarrow> u16 list \<Rightarrow> u16 list list" where
  "frames_enqueue q fr = (if length q = 31 then tl q else q) @ [fr]"

lemma enqueue_rx_frames:
  assumes inv: "rxq_inv s" and n: "0 < n" "n \<le> length pcm"
  shows "rxq_frames (enqueue_rx pcm (int n) s) = frames_enqueue (rxq_frames s) (take (min n 1024) pcm)"
    and "rxq_inv (enqueue_rx pcm (int n) s)"
proof -
  define k where "k = min n 1024"
  have k: "(if int n > int SM_SIP_RTP_MAXPAY then SM_SIP_RTP_MAXPAY else nat (int n)) = k" "k \<le> length pcm"
    using n by (auto simp: k_def SM_SIP_RTP_MAXPAY_def)
  define s1 where "s1 = s\<lparr>sp_tick_ns := k\<rparr>"
  define s2 where "s2 = (if (sp_rxq_head s1 + 1) mod 32 = sp_rxq_tail s1
                      then s1\<lparr>sp_rxq_tail := (sp_rxq_tail s1 + 1) mod 32,
                              sp_rx_drops := sp_rx_drops s1 + 1\<rparr> else s1)"
  define fr where "fr = (sp_rxq s2 (sp_rxq_head s2))
    \<lparr>fr_pcm := mem_write (fr_pcm (sp_rxq s2 (sp_rxq_head s2))) 0 (take k pcm), fr_nsamples := k\<rparr>"
  have e: "enqueue_rx pcm (int n) s
      = s2\<lparr>sp_rxq := (sp_rxq s2)(sp_rxq_head s2 := fr), sp_rxq_head := (sp_rxq_head s2 + 1) mod 32\<rparr>"
    using n(1) unfolding enqueue_rx_def Let_def k(1)
    by (simp add: s1_def s2_def fr_def SM_SIP_RXQ_def)
  have drop: "rxq_frames (s1\<lparr>sp_rxq_tail := x, sp_rx_drops := d\<rparr>) = rxq_frames (s1\<lparr>sp_rxq_tail := x\<rparr>)"
    "rxq_len (s1\<lparr>sp_rxq_tail := x, sp_rx_drops := d\<rparr>) = rxq_len (s1\<lparr>sp_rxq_tail := x\<rparr>)" for x d
    by (simp_all add: rxq_frames_def rxq_len_def)
  have s1: "rxq_inv s1" "rxq_frames s1 = rxq_frames s" "rxq_len s1 = rxq_len s"
    using inv by (simp_all add: s1_def rxq_inv_def rxq_frames_def rxq_len_def)
  have s2: "rxq_inv s2" using s1(1) by (simp add: s2_def rxq_inv_def)
  have fs: "rxq_frames s2 = (if rxq_len s = 31 then tl (rxq_frames s) else rxq_frames s)"
    using rxq_frames_tl [OF s1(1)] rxq_full_iff [OF s1(1)] s1 drop by (simp add: s2_def)
  have l: "rxq_len s2 < 31"
    using rxq_frames_tl(3) [OF s1(1)] rxq_full_iff [OF s1(1)] s1 drop rxq_len_less [of s]
    by (auto simp: s2_def)
  show "rxq_frames (enqueue_rx pcm (int n) s) = frames_enqueue (rxq_frames s) (take (min n 1024) pcm)"
    unfolding e rxq_frames_snoc [OF s2 l] frames_enqueue_def fs
    using frame_data_write [OF k(2)] by (simp add: fr_def k_def)
  show "rxq_inv (enqueue_rx pcm (int n) s)" using s2 unfolding e by (simp add: rxq_inv_def)
qed

subsection \<open>Time\<close>

definition ts_ns :: "timespec \<Rightarrow> int" where
  "ts_ns t = tv_sec t * 1000000000 + tv_nsec t"

lemma ts_carry_ns [simp]: "ts_ns (ts_carry t) = ts_ns t"
proof (induction t rule: ts_carry.induct)
  case (1 t)
  then show ?case by (subst ts_carry.simps) (simp add: ts_ns_def algebra_simps)
qed

lemma ts_add_ms_ns: "ts_ns (ts_add_ms t ms) = ts_ns t + ms * 1000000"
  unfolding ts_add_ms_def by simp (simp add: ts_ns_def)

lemma c_div_bounds: "1000000 * (c_div a 1000000 - 1) < a \<and> a < 1000000 * (c_div a 1000000 + 1)"
proof -
  have q: "1000000 * (d - 1) < b \<and> b < 1000000 * (d + 1) \<and> 1000000 * (- d - 1) < - b \<and> - b < 1000000 * (- d + 1)"
    if "b = 1000000 * d + r" "0 \<le> r" "r < 1000000" for b d r :: int
    using that by (simp add: algebra_simps)
  show ?thesis
  proof (cases "0 \<le> a")
    case True
    then have "c_div a 1000000 = a div 1000000" by (simp add: c_div_nonneg)
    with q [of a "a div 1000000" "a mod 1000000"] show ?thesis by simp
  next
    case False
    then have "c_div a 1000000 = - (- a div 1000000)" by (simp add: c_div_def)
    with q [of "- a" "- a div 1000000" "- a mod 1000000"] show ?thesis by simp
  qed
qed

lemma ts_ms_until_bounds:
  "1000000 * (ts_ms_until t now - 1) < ts_ns t - ts_ns now"
  "ts_ns t - ts_ns now < 1000000 * (ts_ms_until t now + 1)"
  using c_div_bounds [of "tv_nsec t - tv_nsec now"] by (simp_all add: ts_ms_until_def ts_ns_def algebra_simps)

subsection \<open>What a tick leaves alone\<close>

definition clock_same :: "sm_sip \<Rightarrow> sm_sip \<Rightarrow> bool" where
  "clock_same s s' \<longleftrightarrow> sp_next_tick s' = sp_next_tick s"

lemma end_call_next_tick [simp]: "sp_next_tick (end_call s) = sp_next_tick s"
  by (simp add: end_call_def emit_def Let_def)

lemma bye_and_end_next_tick [simp]: "sp_next_tick (bye_and_end s) = sp_next_tick s"
  by (simp add: bye_and_end_def send_bye_def make_tag_def call_rand_def call_time_def emit_def Let_def)

lemma forward_audio_next_tick [simp]: "sp_next_tick (forward_audio m s) = sp_next_tick s"
  by (simp add: forward_audio_def emit_def Let_def)

lemma daemon_replies_next_tick [simp]: "sp_next_tick (snd (daemon_replies s)) = sp_next_tick s"
proof (induction s rule: daemon_replies.induct)
  case (1 s)
  then show ?case
    by (subst daemon_replies.simps) (auto simp: Let_def split: prod.split option.split)
qed

lemma feed_daemon_next_tick [simp]: "sp_next_tick (snd (feed_daemon pcm s)) = sp_next_tick s"
  by (simp add: feed_daemon_def Let_def emit_def split: prod.split)

lemma audio_tick_next_tick [simp]: "sp_next_tick (audio_tick s) = sp_next_tick s"
  by (simp add: audio_tick_def Let_def)

lemma audio_pump_still_clock:
  assumes "- 100000000 < ts_ns (sp_next_tick s) - ts_ns now"
    and "1000000 \<le> ts_ns (sp_next_tick s) - ts_ns now + 20000000 * int k"
  shows "audio_pump now (replicate k now @ clocks) s \<noteq> None"
  using assms
proof (induction k arbitrary: s)
  case 0
  then have "\<not> ts_ms_until (sp_next_tick s) now \<le> 0"
    using ts_ms_until_bounds(2) [of "sp_next_tick s" now] by auto
  then show ?case by (subst audio_pump.simps) simp
next
  case (Suc k)
  have "\<not> ts_ms_until (ts_add_ms (sp_next_tick s) 20) now \<le> - 100"
    using Suc.prems(1) ts_ms_until_bounds(2) [of "ts_add_ms (sp_next_tick s) 20" now]
    by (auto simp: ts_add_ms_ns)
  moreover have "audio_pump now (replicate k now @ clocks)
      ((audio_tick s)\<lparr>sp_next_tick := ts_add_ms (sp_next_tick s) 20\<rparr>) \<noteq> None"
    using Suc.prems by (intro Suc.IH) (simp_all add: ts_add_ms_ns)
  ultimately show ?case by (subst audio_pump.simps) (simp add: Let_def)
qed

subsection \<open>What a frame costs\<close>

fun rtp_packets :: "sip_out list \<Rightarrow> (sockaddr \<times> u8 list) list" where
  "rtp_packets [] = []"
| "rtp_packets (RtpTx to p # os) = (to, p) # rtp_packets os"
| "rtp_packets (_ # os) = rtp_packets os"

lemma rtp_packets_append [simp]: "rtp_packets (a @ b) = rtp_packets a @ rtp_packets b"
  by (induction a rule: rtp_packets.induct) simp_all

definition call_ended :: "sm_sip \<Rightarrow> bool" where
  "call_ended s \<longleftrightarrow> \<not> sp_call_active s \<and> \<not> sp_media_active s \<and> \<not> sp_rtp_peer_known s
     \<and> sp_rtp_fd s < 0 \<and> sp_daemon_fd s < 0 \<and> sp_last_ok s = [] \<and> rxq_frames s = []"

lemma end_call_ended [simp]: "call_ended (end_call s)"
  by (simp add: call_ended_def end_call_def emit_def Let_def rxq_frames_def rxq_len_def)

lemma bye_and_end_ended [simp]: "call_ended (bye_and_end s)"
  by (simp add: bye_and_end_def)

lemma bye_and_end_out:
  "\<exists>new. en_out (bye_and_end s) = en_out s @ new \<and> rtp_packets new = []"
  by (simp add: bye_and_end_def send_bye_def end_call_def make_tag_def call_rand_def call_time_def
      emit_def Let_def)

lemma bye_and_end_seq [simp]: "sp_rtp_seq (bye_and_end s) = sp_rtp_seq s"
  by (simp add: bye_and_end_def send_bye_def end_call_def make_tag_def call_rand_def call_time_def
      emit_def Let_def)

definition same_call :: "sm_sip \<Rightarrow> sm_sip \<Rightarrow> bool" where
  "same_call s s' \<longleftrightarrow> sp_call_active s' = sp_call_active s \<and> sp_rtp_fd s' = sp_rtp_fd s
     \<and> sp_daemon_fd s' = sp_daemon_fd s \<and> sp_call_id s' = sp_call_id s \<and> sp_last_ok s' = sp_last_ok s
     \<and> sp_rtp_peer_known s' = sp_rtp_peer_known s \<and> sp_calls_done s' = sp_calls_done s
     \<and> rxq_frames s' = rxq_frames s \<and> rxq_inv s' = rxq_inv s"

definition fed :: "sm_sip \<Rightarrow> int \<times> sm_sip \<Rightarrow> bool" where
  "fed s res \<longleftrightarrow> (\<exists>new. en_out (snd res) = en_out s @ new
     \<and> length (rtp_packets new) \<le> 1
     \<and> sp_rtp_seq (snd res) = sp_rtp_seq s + of_nat (length (rtp_packets new))
     \<and> (fst res = 0 \<and> same_call s (snd res) \<or> fst res = -1 \<and> call_ended (snd res)))"

lemma fed_ended: "fed s (-1, bye_and_end (s\<lparr>sp_daemon_as := a, en_recv := es\<rparr>))"
  using bye_and_end_out [of "s\<lparr>sp_daemon_as := a, en_recv := es\<rparr>"] by (auto simp: fed_def)

lemma fed_quiet: "fed s (0, s\<lparr>sp_daemon_as := a, en_recv := es\<rparr>)"
  by (simp add: fed_def same_call_def rxq_frames_def rxq_len_def rxq_inv_def)

lemma fed_forward: "fed s (0, forward_audio m (s\<lparr>sp_daemon_as := a, en_recv := es\<rparr>))"
  by (simp add: fed_def forward_audio_def emit_def Let_def same_call_def rxq_frames_def rxq_len_def rxq_inv_def)

lemma fed_after_read:
  "fed (s\<lparr>sp_daemon_as := a, en_recv := es\<rparr>) res \<Longrightarrow> fed s res"
  by (simp add: fed_def same_call_def rxq_frames_def rxq_len_def rxq_inv_def)

lemma daemon_replies_fed: "fed s (daemon_replies s)"
proof (induction s rule: daemon_replies.induct)
  case (1 s)
  obtain r msg a es where rd: "sm_ast_read (sp_daemon_as s) SM_AS_MAX_PAYLOAD (en_recv s) = (r, msg, a, es)"
    by (metis prod_cases4)
  have again: "fed s (daemon_replies (s\<lparr>sp_daemon_as := a, en_recv := es\<rparr>))"
    if "r > 0" "msg = Some m" "\<not> (msg_kind m = SM_AS_KIND_AUDIO \<and> msg_plen m \<ge> 2)"
      "msg_kind m \<noteq> SM_AS_KIND_HANGUP" for m
    by (rule fed_after_read, rule "1.IH" [OF rd [symmetric] refl refl refl refl that(1,2,3,4)])
  show ?case
    unfolding daemon_replies.simps [of s] rd
    using again by (simp add: Let_def fed_ended fed_quiet fed_forward split: option.split)
qed

lemma fed_cong_env:
  "fed s (daemon_replies s) \<Longrightarrow> en_out s = en_out s0 @ [DaemonTx sent] \<Longrightarrow> sp_rtp_seq s = sp_rtp_seq s0 \<Longrightarrow>
    same_call s0 s \<Longrightarrow> fed s0 (daemon_replies s)"
  by (auto simp: fed_def same_call_def)

lemma feed_daemon_fed: "fed s (feed_daemon pcm s)"
proof -
  obtain r sent es where w: "sm_ast_write_audio pcm (en_send s) = (r, sent, es)"
    by (metis prod_cases3)
  let ?s1 = "emit (DaemonTx sent) (s\<lparr>en_send := es\<rparr>)"
  have sc: "same_call s ?s1"
    by (simp add: same_call_def emit_def rxq_frames_def rxq_len_def rxq_inv_def)
  have "fed s (-1, bye_and_end ?s1)"
    using bye_and_end_out [of ?s1] by (auto simp: fed_def emit_def)
  moreover have "fed s (daemon_replies ?s1)"
    by (rule fed_cong_env [OF daemon_replies_fed _ _ sc]) (simp_all add: emit_def)
  ultimately show ?thesis unfolding feed_daemon_def w Let_def by auto
qed

subsection \<open>Properties\<close>

text \<open>C29: the playout queue keeps the newest frames in order: enqueueing appends the frame, cut to
  1024 samples, and drops the oldest one only when 31 are waiting.\<close>

theorem rxq_keeps_newest:
  assumes "rxq_inv s" and "0 < n" and "n \<le> length pcm"
  shows "rxq_frames (enqueue_rx pcm (int n) s)
           = (if length (rxq_frames s) = 31 then tl (rxq_frames s) else rxq_frames s) @ [take (min n 1024) pcm]
         \<and> rxq_inv (enqueue_rx pcm (int n) s)"
  using enqueue_rx_frames [OF assms] by (simp add: frames_enqueue_def)

definition idle_sip :: sm_sip where
  "idle_sip = \<lparr>en_rand = (\<lambda>_. 7), en_rand_n = 0, en_time = (\<lambda>_. 9), en_time_n = 0, en_send = [], en_recv = [],
     en_out = [], sp_cfg = \<lparr>cf_bind_port = 5060, cf_bind_addr = [], cf_advertise_ip = ''10.0.0.1'',
       cf_daemon_host = ''127.0.0.1'', cf_daemon_port = 9092, cf_uuid = [], cf_capture_dir = None\<rparr>,
     sp_sip_fd = 3, sp_call_active = False, sp_media_active = False, sp_call_id = [], sp_to_hdr = [],
     sp_from_hdr = [], sp_cseq = 0, sp_local_ssrc = 0, sp_rtp_seq = 0, sp_rtp_ts = 0,
     sp_rtp_peer = \<lparr>sa_addr = 0, sa_port = 0\<rparr>, sp_rtp_peer_known = False, sp_rtp_fd = -1, sp_daemon_fd = -1,
     sp_daemon_as = sm_ast_init 0, sp_rxq = (\<lambda>_. \<lparr>fr_pcm = (\<lambda>_. 0), fr_nsamples = 0\<rparr>), sp_rxq_head = 0,
     sp_rxq_tail = 0, sp_tick_ns = 0, sp_rx_underruns = 0, sp_rx_drops = 0,
     sp_next_tick = \<lparr>tv_sec = 0, tv_nsec = 0\<rparr>, sp_last_ok = [], sp_calls_done = 0, sp_call_seq = 0,
     sp_cap_rx = False, sp_cap_tx = False\<rparr>"

theorem rxq_keeps_newest_witness:
  "rxq_frames (enqueue_rx [1, 2, 3] 2 (idle_sip\<lparr>sp_rxq_head := 31, sp_rxq_tail := 31\<rparr>)) = [[1, 2]]"
proof -
  let ?s = "idle_sip\<lparr>sp_rxq_head := 31, sp_rxq_tail := 31\<rparr>"
  have "rxq_inv ?s" "rxq_frames ?s = []" by (simp_all add: rxq_inv_def rxq_frames_def rxq_len_def)
  with rxq_keeps_newest [of ?s 2 "[1, 2, 3]"] show ?thesis by (simp add: numeral_2_eq_2)
qed

text \<open>Each tick takes the oldest waiting frame and feeds exactly it to the daemon; with none
  waiting it feeds silence of the usual size, so the daemon's sample clock never stops.\<close>

theorem audio_tick_plays_oldest:
  assumes "rxq_inv s"
  shows "\<exists>s'. audio_tick s = snd (feed_daemon (case rxq_frames s of f # _ \<Rightarrow> f | [] \<Rightarrow> replicate (sp_tick_ns s) 0) s')
           \<and> rxq_frames s' = tl (rxq_frames s) \<and> rxq_inv s'"
proof (cases "rxq_len s = 0")
  case True
  then have "rxq_frames s = []" by (simp add: rxq_frames_def)
  with True rxq_empty_iff [OF assms] assms show ?thesis
    by (intro exI [of _ "s\<lparr>sp_rx_underruns := sp_rx_underruns s + 1\<rparr>"])
      (simp add: audio_tick_def, simp add: rxq_frames_def rxq_len_def rxq_inv_def)
next
  case False
  then have l: "0 < rxq_len s" by simp
  then obtain f q where fq: "rxq_frames s = f # q" using length_rxq_frames [of s] by (cases "rxq_frames s") (auto simp del: length_rxq_frames)
  with rxq_frames_tl [OF assms l] have "f = frame_data (sp_rxq s (sp_rxq_tail s))"
    "rxq_frames (s\<lparr>sp_rxq_tail := (sp_rxq_tail s + 1) mod 32\<rparr>) = q" by simp_all
  with fq False rxq_empty_iff [OF assms] assms show ?thesis
    by (intro exI [of _ "s\<lparr>sp_rxq_tail := (sp_rxq_tail s + 1) mod 32\<rparr>"])
      (simp add: audio_tick_def SM_SIP_RXQ_def frame_data_def Let_def rxq_inv_def)
qed

theorem audio_tick_plays_oldest_witness:
  "\<exists>s'. audio_tick (idle_sip\<lparr>sp_tick_ns := 2\<rparr>) = snd (feed_daemon [0, 0] s') \<and> rxq_frames s' = []"
proof -
  let ?s = "idle_sip\<lparr>sp_tick_ns := 2\<rparr>"
  have "rxq_inv ?s" "rxq_frames ?s = []" by (simp_all add: rxq_inv_def rxq_frames_def rxq_len_def idle_sip_def)
  with audio_tick_plays_oldest [of ?s] show ?thesis by (auto simp: numeral_2_eq_2)
qed

lemma rtp_samples_in_bounds:
  "plen1 \<le> int (length pkt) - h \<Longrightarrow> rtp_samples pkt h plen1 pt s \<noteq> None"
  by (auto simp: rtp_samples_def Let_def)

lemma rtp_payload_in_bounds: "0 \<le> h \<Longrightarrow> rtp_payload pkt h pad pt s \<noteq> None"
  by (simp add: rtp_payload_def get_byte_def Let_def rtp_samples_in_bounds del: not_None_eq)

text \<open>C14: the RTP parser never reads outside the packet, for any bytes.\<close>

theorem process_rtp_in_bounds: "process_rtp pkt s \<noteq> None"
  by (auto simp: process_rtp_def get_byte_def Let_def rtp_payload_in_bounds simp del: not_None_eq)

text \<open>A packet as the server itself sends them, fed to the receiver, queues the decoded samples
  of its payload.\<close>

theorem rtp_packet_received:
  assumes "payload \<noteq> []" and "length payload \<le> 1024"
  shows "process_rtp (rtp_packet seq ts ssrc payload) s
         = Some (0, enqueue_rx (map (\<lambda>u. word_of_int (sm_ulaw_decode u)) payload) (int (length payload))
                      (if sp_cap_rx s then emit (CaptureRx payload) s else s))"
  using assms by (simp add: process_rtp_def get_byte_def rtp_packet_def rtp_payload_def rtp_samples_def
      SM_SIP_RTP_MAXPAY_def Let_def drop_bit_eq_div)

theorem rtp_packet_received_witness:
  "process_rtp (rtp_packet 1 2 3 [0xFF, 0x7F]) idle_sip = Some (0, enqueue_rx [0, 0] 2 idle_sip)"
proof -
  have "sm_ulaw_decode 0xFF = 0 \<and> sm_ulaw_decode 0x7F = 0 \<and> \<not> sp_cap_rx idle_sip" by code_simp
  with rtp_packet_received [of "[0xFF, 0x7F]" 1 2 3 idle_sip] show ?thesis by (simp add: numeral_2_eq_2)
qed

text \<open>Feeding a frame sends at most one RTP packet, whose sequence number is then used up; it
  either leaves the call as it was and returns 0, or ends it and returns -1.\<close>

theorem feed_daemon_one_packet:
  "\<exists>new. en_out (snd (feed_daemon pcm s)) = en_out s @ new
     \<and> length (rtp_packets new) \<le> 1
     \<and> sp_rtp_seq (snd (feed_daemon pcm s)) = sp_rtp_seq s + of_nat (length (rtp_packets new))
     \<and> (fst (feed_daemon pcm s) = 0 \<and> same_call s (snd (feed_daemon pcm s))
        \<or> fst (feed_daemon pcm s) = -1 \<and> call_ended (snd (feed_daemon pcm s)))"
  using feed_daemon_fed [of s pcm] by (simp add: fed_def)

text \<open>C30: the audio pump cannot run away: however far the playout clock is behind, seven ticks
  bring the next one into the future of a clock that stands still, so the loop ends.\<close>

theorem audio_pump_catches_up: "audio_pump now (replicate 7 now @ clocks) s \<noteq> None"
proof -
  let ?t = "ts_add_ms (sp_next_tick s) 20" and ?n = "ts_ns (sp_next_tick s) - ts_ns now"
  let ?s1 = "(audio_tick s)\<lparr>sp_next_tick := ?t\<rparr>"
  have rep: "replicate 7 now @ clocks = now # replicate 6 now @ clocks" by (simp add: eval_nat_numeral)
  have resync: "audio_pump now (replicate 6 now @ clocks) (s'\<lparr>sp_next_tick := ts_add_ms now 20\<rparr>) \<noteq> None" for s'
    by (rule audio_pump_still_clock) (simp_all add: ts_add_ms_ns)
  have step: "audio_pump now (replicate 6 now @ clocks) ?s1 \<noteq> None" if "\<not> ts_ms_until ?t now \<le> - 100"
  proof -
    have "1000000 * (ts_ms_until ?t now - 1) < ?n + 20000000"
      using ts_ms_until_bounds(1) [of ?t now] by (simp add: ts_add_ms_ns)
    moreover have "- 99 \<le> ts_ms_until ?t now" using that by simp
    moreover have "1000000 * (u - 1) < n + 20000000 \<Longrightarrow> - 99 \<le> u \<Longrightarrow> - 100000000 < n + 20000000" for u n :: int
      by (simp add: right_diff_distrib)
    ultimately have "- 100000000 < ?n + 20000000" by blast
    then show ?thesis by (intro audio_pump_still_clock) (simp_all add: ts_add_ms_ns)
  qed
  show ?thesis
    unfolding rep using resync step by (subst audio_pump.simps) (simp add: Let_def del: not_None_eq)
qed

end
