(* ===== verification/Sip_Server.thy ===== *)
theory Sip_Server
  imports Rtp_Bridge
begin

text \<open>
  The SIP user agent server of \<open>src/src/sip/sm_sip.c\<close>: responses, the handlers of the requests, and
  the event loop. A handler maps the server's state to its next state; what it sends is appended to
  \<open>en_out\<close>. The results of the system calls of an iteration are the argument \<open>sip_iter\<close>.
\<close>

subsection \<open>Responses\<close>

text \<open>\<open>n += snprintf (buf + n, sizeof (buf) - n, ...)\<close> into an array of \<open>cap\<close> bytes: None once the
  text no longer fits, when \<open>n\<close> would run past the array.\<close>

definition sn_cat :: "nat \<Rightarrow> string option \<Rightarrow> string \<Rightarrow> string option" where
  "sn_cat cap b s =
     (case b of None \<Rightarrow> None | Some t \<Rightarrow> if length t + length s < cap then Some (t @ s) else None)"

definition response_parts ::
  "sip_msg \<Rightarrow> int \<Rightarrow> string \<Rightarrow> string \<Rightarrow> nat \<Rightarrow> string \<Rightarrow> string list" where
  "response_parts m status reason extra blen tag =
     [''SIP/2.0 '' @ dec_int status @ '' '' @ reason @ CRLF]
     @ map (\<lambda>v. ''Via: '' @ v @ CRLF) (m_via m)
     @ [''From: '' @ m_from m @ CRLF,
        (if m_to_tag m \<noteq> [] then ''To: '' @ m_to m @ CRLF
         else ''To: '' @ m_to m @ '';tag='' @ tag @ CRLF),
        ''Call-ID: '' @ m_call_id m @ CRLF,
        ''CSeq: '' @ m_cseq m @ CRLF,
        extra,
        ''Server: SoftmodemSIP/1.0'' @ CRLF,
        (if blen > 0 then ''Content-Type: application/sdp'' @ CRLF else []),
        ''Content-Length: '' @ dec_int (int blen) @ CRLF @ CRLF]"

definition build_response ::
  "sip_msg \<Rightarrow> int \<Rightarrow> string \<Rightarrow> string \<Rightarrow> string \<Rightarrow> nat \<Rightarrow> sm_sip \<Rightarrow> string option \<times> sm_sip" where
  "build_response m status reason extra body outlen s =
     (let (tag, s1) = make_tag s
      in (case foldl (sn_cat SM_SIP_MAX_MSG) (Some [])
                 (response_parts m status reason extra (length body) tag) of
            None \<Rightarrow> None
          | Some b \<Rightarrow> if length b + length body > SM_SIP_MAX_MSG then None
                      else Some (take outlen (b @ body)),
          s1))"

definition send_response ::
  "sip_msg \<Rightarrow> sockaddr \<Rightarrow> int \<Rightarrow> string \<Rightarrow> string \<Rightarrow> string \<Rightarrow> sm_sip \<Rightarrow> sm_sip" where
  "send_response m src status reason extra body s =
     (case build_response m status reason extra body SM_SIP_MAX_MSG s of
        (None, s1) \<Rightarrow> emit Fault s1
      | (Some txt, s1) \<Rightarrow> if length txt > 0 then emit (SipTx src txt) s1 else s1)"

subsection \<open>Requests\<close>

definition handle_register :: "sip_msg \<Rightarrow> sockaddr \<Rightarrow> sm_sip \<Rightarrow> sm_sip" where
  "handle_register m src s =
     (let extra = snprintf 512 (''Contact: ''
            @ (if m_contact m \<noteq> [] then m_contact m else ''<sip:modem@unknown>'') @ CRLF)
      in send_response m src 200 ''OK'' extra [] s)"

definition handle_options :: "sip_msg \<Rightarrow> sockaddr \<Rightarrow> sm_sip \<Rightarrow> sm_sip" where
  "handle_options m src s =
     send_response m src 200 ''OK'' (''Allow: INVITE, ACK, CANCEL, BYE, OPTIONS, REGISTER'' @ CRLF) [] s"

text \<open>What the system gives one \<open>handle_invite\<close>: the RTP socket, its port, the connection to the
  daemon, the results of the calls on that connection, and whether the capture files open.\<close>

record invite_env =
  iv_socket :: int
  iv_bind :: int
  iv_getsockname :: int
  iv_rtp_port :: nat
  iv_daemon :: open_env
  iv_send :: "send_ev list"
  iv_recv :: "io_ev list"
  iv_cap_rx :: bool
  iv_cap_tx :: bool

definition call_uuid :: "u8 list" where
  "call_uuid = map (\<lambda>i. word_of_nat (i + 1)) [0..<16]"

definition daemon_connect :: "invite_env \<Rightarrow> sm_sip \<Rightarrow> int \<times> sm_sip" where
  "daemon_connect e s =
     (let (fd, closed) = sm_ast_connect (iv_daemon e);
          s1 = foldl (\<lambda>s c. emit (CloseFd c) s) s closed
      in if fd < 0 then (-1, s1)
         else (let (r, sent, es) = sm_ast_write SM_AS_KIND_UUID call_uuid (iv_send e);
                   s2 = emit (DaemonTx sent) s1
               in (fd, s2\<lparr>sp_daemon_as := sm_ast_init fd, en_send := es, en_recv := iv_recv e\<rparr>)))"

text \<open>The part of \<open>handle_invite\<close> after the connection stands: record the call and answer.\<close>

definition start_call :: "sip_msg \<Rightarrow> sm_sip \<Rightarrow> sm_sip" where
  "start_call m s0 =
     (let (r1, s1) = call_rand s0;
          (r2, s2) = call_rand s1;
          (r3, s3) = call_rand s2;
          (r4, s4) = call_rand s3
      in s4\<lparr>sp_call_seq := sp_call_seq s4 + 1,
            sp_call_id := snprintf 256 (m_call_id m), sp_to_hdr := snprintf 320 (m_to m),
            sp_from_hdr := snprintf 320 (m_from m), sp_cseq := m_cseq_num m,
            sp_local_ssrc := r1 XOR push_bit 16 r2, sp_rtp_seq := ucast r3, sp_rtp_ts := r4,
            sp_rtp_peer_known := False, sp_media_active := False, sp_call_active := True,
            sp_rxq_head := 0, sp_rxq_tail := 0, sp_tick_ns := 160, sp_rx_underruns := 0, sp_rx_drops := 0\<rparr>)"

definition answer_call :: "sip_msg \<Rightarrow> sockaddr \<Rightarrow> nat \<Rightarrow> sm_sip \<Rightarrow> sm_sip" where
  "answer_call m src rtp_port s0 =
     (let (t1, s1) = call_time s0;
          (t2, s2) = call_time s1;
          ip = cf_advertise_ip (sp_cfg s2);
          sdp = snprintf 512 (sdp_answer t1 t2 ip rtp_port);
          (body_tag, s3) = make_tag s2;
          extra = snprintf 512 (''Contact: <sip:modem@'' @ ip @ '':'' @ dec_int (cf_bind_port (sp_cfg s3)) @ ''>'' @ CRLF)
      in case build_response m 200 ''OK'' extra sdp SM_SIP_MAX_MSG s3 of
           (None, s4) \<Rightarrow> emit Fault s4
         | (Some ok, s4) \<Rightarrow>
             if length ok > 0 then emit (SipTx src ok) (s4\<lparr>sp_last_ok := ok\<rparr>) else s4)"

definition handle_invite :: "invite_env \<Rightarrow> sip_msg \<Rightarrow> sockaddr \<Rightarrow> sm_sip \<Rightarrow> sm_sip" where
  "handle_invite e m src s =
     (if sp_call_active s \<and> sp_call_id s = m_call_id m \<and> length (sp_last_ok s) > 0
      then emit (SipTx src (sp_last_ok s)) s
      else if sp_call_active s then send_response m src 486 ''Busy Here'' [] [] s
      else (let (sdp_ip, sdp_port, sdp_pt) = extract_sdp m 64
            in if sdp_port \<le> 0 then send_response m src 488 ''Not Acceptable Here'' [] [] s
               else (let s1 = (send_response m src 100 ''Trying'' [] [] s)\<lparr>sp_rtp_fd := iv_socket e\<rparr>
                     in if sp_rtp_fd s1 < 0
                        then end_call (send_response m src 500 ''Server Internal Error'' [] [] s1)
                        else if iv_bind e < 0 \<or> iv_getsockname e < 0
                        then end_call (send_response m src 500 ''Server Internal Error'' [] [] s1)
                        else (let (fd, s2) = daemon_connect e s1;
                                  s3 = s2\<lparr>sp_daemon_fd := fd\<rparr>
                              in if fd < 0
                                 then end_call (send_response m src 503 ''Service Unavailable'' [] [] s3)
                                 else (let s4 = (case cf_capture_dir (sp_cfg s3) of
                                                   Some d \<Rightarrow> if d \<noteq> []
                                                     then s3\<lparr>sp_cap_rx := iv_cap_rx e, sp_cap_tx := iv_cap_tx e\<rparr>
                                                     else s3
                                                 | None \<Rightarrow> s3)
                                       in answer_call m src (iv_rtp_port e) (start_call m s4))))))"

definition handle_ack :: "sip_msg \<Rightarrow> sm_sip \<Rightarrow> sm_sip" where
  "handle_ack m s =
     (if sp_call_active s \<and> sp_call_id s = m_call_id m then s\<lparr>sp_media_active := True\<rparr> else s)"

definition handle_bye :: "sip_msg \<Rightarrow> sockaddr \<Rightarrow> sm_sip \<Rightarrow> sm_sip" where
  "handle_bye m src s =
     (let s1 = send_response m src 200 ''OK'' [] [] s
      in if sp_call_active s1 \<and> sp_call_id s1 = m_call_id m then end_call s1 else s1)"

definition handle_cancel :: "sip_msg \<Rightarrow> sockaddr \<Rightarrow> sm_sip \<Rightarrow> sm_sip" where
  "handle_cancel m src s =
     (let s1 = send_response m src 200 ''OK'' [] [] s
      in if sp_call_active s1 \<and> sp_call_id s1 = m_call_id m
         then (let inv = m\<lparr>m_cseq_method := snprintf 16 ''INVITE''\<rparr>
               in end_call (send_response inv src 487 ''Request Terminated'' [] [] s1))
         else s1)"

definition dispatch :: "invite_env \<Rightarrow> sip_msg \<Rightarrow> sockaddr \<Rightarrow> sm_sip \<Rightarrow> sm_sip" where
  "dispatch e m src s =
     (if m_method m = ''REGISTER'' then handle_register m src s
      else if m_method m = ''INVITE'' then handle_invite e m src s
      else if m_method m = ''ACK'' then handle_ack m s
      else if m_method m = ''BYE'' then handle_bye m src s
      else if m_method m = ''CANCEL'' then handle_cancel m src s
      else if m_method m = ''OPTIONS'' then handle_options m src s
      else send_response m src 405 ''Method Not Allowed'' [] [] s)"

subsection \<open>Creation and the event loop\<close>

text \<open>\<open>sock\<close> and \<open>bound\<close> are the results of \<open>socket\<close> and \<open>bind\<close>; the descriptor is closed when the
  bind fails.\<close>

definition sm_sip_create :: "sip_config \<Rightarrow> sip_env \<Rightarrow> int \<Rightarrow> int \<Rightarrow> sm_sip option \<times> int list" where
  "sm_sip_create cfg env sock bound =
     (if sock < 0 then (None, [])
      else if bound < 0 then (None, [sock])
      else (Some \<lparr>en_rand = en_rand env, en_rand_n = en_rand_n env, en_time = en_time env,
              en_time_n = en_time_n env, en_send = en_send env, en_recv = en_recv env, en_out = en_out env,
              sp_cfg = cfg, sp_sip_fd = sock, sp_call_active = False, sp_media_active = False,
              sp_call_id = [], sp_to_hdr = [], sp_from_hdr = [], sp_cseq = 0, sp_local_ssrc = 0,
              sp_rtp_seq = 0, sp_rtp_ts = 0, sp_rtp_peer = \<lparr>sa_addr = 0, sa_port = 0\<rparr>,
              sp_rtp_peer_known = False, sp_rtp_fd = -1, sp_daemon_fd = -1, sp_daemon_as = sm_ast_init 0,
              sp_rxq = (\<lambda>_. \<lparr>fr_pcm = (\<lambda>_. 0), fr_nsamples = 0\<rparr>), sp_rxq_head = 0, sp_rxq_tail = 0,
              sp_tick_ns = 0, sp_rx_underruns = 0, sp_rx_drops = 0,
              sp_next_tick = \<lparr>tv_sec = 0, tv_nsec = 0\<rparr>, sp_last_ok = [], sp_calls_done = 0,
              sp_call_seq = 0, sp_cap_rx = False, sp_cap_tx = False\<rparr>, []))"

definition sm_sip_destroy :: "sm_sip \<Rightarrow> sip_out list" where
  "sm_sip_destroy s =
     (let s1 = end_call s in en_out s1 @ (if sp_sip_fd s1 \<ge> 0 then [CloseFd (sp_sip_fd s1)] else []))"

datatype poll_res = PollReady | PollInterrupted | PollError

record sip_iter =
  it_poll :: poll_res
  it_daemon_gone :: bool
  it_daemon_in :: bool
  it_daemon_peek :: int
  it_rtp_in :: bool
  it_rtp_pkt :: "u8 list"
  it_rtp_from :: sockaddr
  it_sip_in :: bool
  it_sip_buf :: string
  it_sip_n :: nat
  it_sip_src :: sockaddr
  it_stack :: string
  it_invite :: invite_env
  it_now_peer :: timespec
  it_now :: timespec
  it_clocks :: "timespec list"

definition poll_timeout :: "sm_sip \<Rightarrow> timespec \<Rightarrow> int" where
  "poll_timeout s now =
     (if sp_call_active s \<and> sp_rtp_peer_known s
      then (let d = ts_ms_until (sp_next_tick s) now in if d < 0 then 0 else if d > 500 then 500 else d)
      else 500)"

datatype sip_step = SipReturn int | SipNext sm_sip | SipBusy

definition rtp_input :: "sip_iter \<Rightarrow> sm_sip \<Rightarrow> sm_sip" where
  "rtp_input it s =
     (if it_rtp_pkt it \<noteq> [] \<and> sp_call_active s
      then (let s1 = (if \<not> sp_rtp_peer_known s
                      then s\<lparr>sp_rtp_peer := it_rtp_from it, sp_rtp_peer_known := True,
                             sp_next_tick := ts_add_ms (it_now_peer it) 40\<rparr>
                      else s)
            in case process_rtp (it_rtp_pkt it) s1 of None \<Rightarrow> emit Fault s1 | Some (r, s2) \<Rightarrow> s2)
      else s)"

text \<open>One iteration. None of the early \<open>continue\<close>s reaches the audio pump; \<open>SipBusy\<close> is an iteration
  whose pump has not ended within the given clock readings.\<close>

definition sip_iteration :: "sip_iter \<Rightarrow> sm_sip \<Rightarrow> sip_step" where
  "sip_iteration it s =
     (case it_poll it of
        PollInterrupted \<Rightarrow> SipNext s
      | PollError \<Rightarrow> SipReturn (-1)
      | PollReady \<Rightarrow>
          if sp_daemon_fd s \<ge> 0 \<and> it_daemon_gone it then SipNext (bye_and_end s)
          else if sp_daemon_fd s \<ge> 0 \<and> it_daemon_in it \<and> it_daemon_peek it = 0
          then SipNext (bye_and_end s)
          else (let pump = (\<lambda>s1. case audio_pump (it_now it) (it_clocks it) s1 of
                                   None \<Rightarrow> SipBusy | Some s2 \<Rightarrow> SipNext s2)
                in if sp_rtp_fd s \<ge> 0 \<and> it_rtp_in it then pump (rtp_input it s)
                   else if it_sip_in it \<and> it_sip_n it > 0
                   then (let m = parse_sip (it_stack it) (it_sip_buf it) (it_sip_n it)
                         in if m_is_response m then SipNext s
                            else pump (dispatch (it_invite it) m (it_sip_src it) s))
                   else pump s))"

text \<open>The event loop over a list of iterations: its result, or None when it still runs after them.\<close>

fun sm_sip_run :: "int \<Rightarrow> sip_iter list \<Rightarrow> sm_sip \<Rightarrow> int option \<times> sm_sip" where
  "sm_sip_run max_calls its s =
     (if max_calls < 0 \<or> sp_calls_done s < max_calls
      then (case its of
              [] \<Rightarrow> (None, s)
            | it # its' \<Rightarrow>
                (case sip_iteration it s of
                   SipReturn r \<Rightarrow> (Some r, s)
                 | SipNext s1 \<Rightarrow> sm_sip_run max_calls its' s1
                 | SipBusy \<Rightarrow> (None, s)))
      else (Some 0, s))"

declare sm_sip_run.simps [simp del]

subsection \<open>Responses fit their buffers\<close>

lemma sn_cat_concat:
  "length t + length (concat ps) < cap \<Longrightarrow> foldl (sn_cat cap) (Some t) ps = Some (t @ concat ps)"
  by (induction ps arbitrary: t) (simp_all add: sn_cat_def)

lemma vias_length:
  "list_all (fits 320) vs \<Longrightarrow> length (concat (map (\<lambda>v. ''Via: '' @ v @ CRLF) vs)) \<le> 326 * length vs"
proof (induction vs)
  case (Cons v vs)
  then have "length v < 320" by (simp add: fits_def)
  with Cons show ?case by (simp add: CRLF_def del: length_concat)
qed simp

definition small_reply :: "int \<Rightarrow> string \<Rightarrow> string \<Rightarrow> string \<Rightarrow> bool" where
  "small_reply status reason extra body \<longleftrightarrow>
     \<bar>status\<bar> < 1000 \<and> length reason \<le> 40 \<and> length extra < 512 \<and> length body < 512"

lemma response_parts_length:
  assumes m: "sip_msg_ok m" and r: "small_reply status reason extra body" and tag: "length tag \<le> 16"
  shows "length (concat (response_parts m status reason extra (length body) tag)) \<le> 3000"
proof -
  have via: "length (concat (map (\<lambda>v. ''Via: '' @ v @ CRLF) (m_via m))) \<le> 1304"
    using vias_length [of "m_via m"] m by (simp add: sip_msg_ok_def SM_SIP_MAX_VIAS_def del: length_concat)
  have st: "length (dec_int status) \<le> 4"
    using length_dec_int [of status 3] r by (simp add: small_reply_def)
  have cl: "length (dec_int (int (length body))) \<le> 4"
    using length_dec_int [of "int (length body)" 3] r by (simp add: small_reply_def)
  have f: "length (m_from m) < 320" "length (m_to m) < 320" "length (m_call_id m) < 256" "length (m_cseq m) < 64"
    using m by (simp_all add: sip_msg_ok_def fits_def)
  show ?thesis
    using via st cl f r tag
    by (cases "body = []") (simp_all add: response_parts_def small_reply_def CRLF_def del: length_concat)
qed

definition response_text ::
  "sip_msg \<Rightarrow> int \<Rightarrow> string \<Rightarrow> string \<Rightarrow> string \<Rightarrow> sm_sip \<Rightarrow> string" where
  "response_text m status reason extra body s =
     concat (response_parts m status reason extra (length body) (fst (make_tag s))) @ body"

lemma make_tag_eq:
  "make_tag s = (hex08 (en_rand s (en_rand_n s)) @ hex08 (en_time s (en_time_n s)),
     s\<lparr>en_rand_n := Suc (en_rand_n s), en_time_n := Suc (en_time_n s)\<rparr>)"
  by (simp add: make_tag_def call_rand_def call_time_def)

lemma build_response_fits:
  assumes m: "sip_msg_ok m" and r: "small_reply status reason extra body"
  shows "build_response m status reason extra body SM_SIP_MAX_MSG s
           = (Some (response_text m status reason extra body s),
              s\<lparr>en_rand_n := Suc (en_rand_n s), en_time_n := Suc (en_time_n s)\<rparr>)"
    and "length (response_text m status reason extra body s) \<le> 3511"
    and "response_text m status reason extra body s \<noteq> []"
proof -
  let ?ps = "response_parts m status reason extra (length body) (fst (make_tag s))"
  have len: "length (concat ?ps) \<le> 3000"
    by (rule response_parts_length [OF m r]) (simp add: make_tag_eq)
  then have cat: "foldl (sn_cat SM_SIP_MAX_MSG) (Some []) ?ps = Some (concat ?ps)"
    using sn_cat_concat [of "[]" ?ps SM_SIP_MAX_MSG] by (simp add: SM_SIP_MAX_MSG_def del: length_concat)
  from len r show l: "length (response_text m status reason extra body s) \<le> 3511"
    by (simp add: response_text_def small_reply_def del: length_concat)
  have body: "length body < 512" using r by (simp add: small_reply_def)
  show "build_response m status reason extra body SM_SIP_MAX_MSG s
           = (Some (response_text m status reason extra body s),
              s\<lparr>en_rand_n := Suc (en_rand_n s), en_time_n := Suc (en_time_n s)\<rparr>)"
    using cat len body l unfolding build_response_def response_text_def
    by (simp add: make_tag_eq SM_SIP_MAX_MSG_def del: length_concat)
  show "response_text m status reason extra body s \<noteq> []"
    by (simp add: response_text_def response_parts_def)
qed

text \<open>Sending a response appends it to the output and uses up one \<open>rand\<close> and one \<open>time\<close>.\<close>

definition sent :: "sockaddr \<Rightarrow> string \<Rightarrow> sm_sip \<Rightarrow> sm_sip" where
  "sent src txt s = s\<lparr>en_rand_n := Suc (en_rand_n s), en_time_n := Suc (en_time_n s),
     en_out := en_out s @ [SipTx src txt]\<rparr>"

lemma send_response_eq:
  assumes "sip_msg_ok m" and "small_reply status reason extra body"
  shows "send_response m src status reason extra body s
           = sent src (response_text m status reason extra body s) s"
  using build_response_fits [OF assms] by (simp add: send_response_def emit_def sent_def)

lemma sent_fields [simp]:
  "sp_call_active (sent src txt s) = sp_call_active s" "sp_call_id (sent src txt s) = sp_call_id s"
  "sp_rtp_fd (sent src txt s) = sp_rtp_fd s" "sp_daemon_fd (sent src txt s) = sp_daemon_fd s"
  "sp_calls_done (sent src txt s) = sp_calls_done s" "sp_last_ok (sent src txt s) = sp_last_ok s"
  "sp_cfg (sent src txt s) = sp_cfg s" "en_out (sent src txt s) = en_out s @ [SipTx src txt]"
  by (simp_all add: sent_def)

subsection \<open>The server's invariant\<close>

definition cfg_ok :: "sip_config \<Rightarrow> bool" where
  "cfg_ok c \<longleftrightarrow> fits 64 (cf_advertise_ip c) \<and> \<bar>cf_bind_port c\<bar> < 2 ^ 31"

definition sip_base :: "sm_sip \<Rightarrow> bool" where
  "sip_base s \<longleftrightarrow> cfg_ok (sp_cfg s) \<and> fits 320 (sp_to_hdr s) \<and> fits 256 (sp_call_id s)
     \<and> rxq_inv s \<and> length (sp_last_ok s) \<le> SM_SIP_MAX_MSG \<and> Fault \<notin> set (en_out s)
     \<and> sp_tick_ns s \<le> 1024 \<and> (\<forall>i. fr_nsamples (sp_rxq s i) \<le> 1024)
     \<and> (sp_call_active s \<longrightarrow> \<bar>sp_cseq s\<bar> \<le> 2 ^ 31)"

definition sip_link :: "sm_sip \<Rightarrow> bool" where
  "sip_link s \<longleftrightarrow>
     (if sp_call_active s then sp_rtp_fd s \<ge> 0 \<and> sp_daemon_fd s \<ge> 0 \<and> sp_last_ok s \<noteq> []
      else sp_rtp_fd s < 0 \<and> sp_daemon_fd s < 0 \<and> \<not> sp_rtp_peer_known s \<and> \<not> sp_media_active s
           \<and> sp_last_ok s = [] \<and> sp_rxq_head s = sp_rxq_tail s)"

definition sip_inv :: "sm_sip \<Rightarrow> bool" where
  "sip_inv s \<longleftrightarrow> sip_base s \<and> sip_link s"

lemma sip_base_sent [inv_intros]: "sip_base s \<Longrightarrow> sip_base (sent src txt s)"
  by (simp add: sip_base_def sent_def rxq_inv_def)

lemma sip_inv_sent [inv_intros]: "sip_inv s \<Longrightarrow> sip_inv (sent src txt s)"
  by (simp add: sip_inv_def sip_base_def sip_link_def sent_def rxq_inv_def)

lemma sip_inv_end_call [inv_intros]: "sip_base s \<Longrightarrow> sip_inv (end_call s)"
  by (simp add: sip_inv_def sip_base_def sip_link_def end_call_def emit_def Let_def rxq_inv_def)

lemma bye_text_length:
  assumes "sip_base s" and "sp_call_active s" and "length tag \<le> 16"
  shows "length (bye_text s tag) < 1024"
proof -
  have "\<bar>sp_cseq s\<bar> \<le> 2147483648" "\<bar>cf_bind_port (sp_cfg s)\<bar> < 10 ^ 10"
    using assms by (simp_all add: sip_base_def cfg_ok_def)
  moreover from this(1) have "\<bar>sp_cseq s + 1\<bar> < 10 ^ 10" by simp
  ultimately have "\<bar>sp_cseq s + 1\<bar> < 10 ^ 10" "\<bar>cf_bind_port (sp_cfg s)\<bar> < 10 ^ 10" by blast+
  then have d: "length (dec_int (sp_cseq s + 1)) \<le> 11" "length (dec_int (cf_bind_port (sp_cfg s))) \<le> 11"
    using length_dec_int [of _ 10] by fastforce+
  have f: "length (cf_advertise_ip (sp_cfg s)) < 64" "length (sp_to_hdr s) < 320" "length (sp_call_id s) < 256"
    using assms by (simp_all add: sip_base_def cfg_ok_def fits_def)
  show ?thesis using d f assms(3) by (simp add: bye_text_def Let_def CRLF_def)
qed

lemma sip_base_send_bye:
  assumes "sip_base s"
  shows "sip_base (send_bye s) \<or> sip_base ((send_bye s)\<lparr>sp_cseq := 0\<rparr>)"
    and "sip_inv (end_call (send_bye s))"
proof -
  have len: "length (bye_text (s\<lparr>en_rand_n := a, en_time_n := b\<rparr>) tag) < 1024"
    if "sp_call_active s" "length tag \<le> 16" for a b tag
    using bye_text_length [OF assms that] by (simp add: bye_text_def)
  have b: "sip_base ((send_bye s)\<lparr>sp_cseq := 0\<rparr>)"
    using assms len by (auto simp: send_bye_def make_tag_eq emit_def sip_base_def rxq_inv_def Let_def)
  then show "sip_base (send_bye s) \<or> sip_base ((send_bye s)\<lparr>sp_cseq := 0\<rparr>)" by simp
  from b show "sip_inv (end_call (send_bye s))"
    by (simp add: sip_inv_def sip_base_def sip_link_def end_call_def emit_def Let_def rxq_inv_def)
qed

lemma sip_inv_bye_and_end [inv_intros]: "sip_base s \<Longrightarrow> sip_inv (bye_and_end s)"
  by (simp add: bye_and_end_def sip_base_send_bye(2) sip_inv_end_call)

lemma sip_inv_base: "sip_inv s \<Longrightarrow> sip_base s"
  by (simp add: sip_inv_def)

lemma sip_inv_forward [inv_intros]: "sip_inv s \<Longrightarrow> sip_inv (forward_audio m s)"
  by (simp add: forward_audio_def sip_inv_def sip_base_def sip_link_def emit_def Let_def rxq_inv_def)

lemma sip_inv_read [inv_intros]: "sip_inv s \<Longrightarrow> sip_inv (s\<lparr>sp_daemon_as := a, en_recv := es\<rparr>)"
  by (simp add: sip_inv_def sip_base_def sip_link_def rxq_inv_def)

lemma daemon_replies_inv: "sip_inv s \<Longrightarrow> sip_inv (snd (daemon_replies s))"
proof (induction s rule: daemon_replies.induct)
  case (1 s)
  obtain r msg a es where rd: "sm_ast_read (sp_daemon_as s) SM_AS_MAX_PAYLOAD (en_recv s) = (r, msg, a, es)"
    by (metis prod_cases4)
  let ?s1 = "s\<lparr>sp_daemon_as := a, en_recv := es\<rparr>"
  have s1: "sip_inv ?s1" using "1.prems" by (rule sip_inv_read)
  have "sip_inv (snd (daemon_replies ?s1))"
    if "r > 0" "msg = Some m" "\<not> (msg_kind m = SM_AS_KIND_AUDIO \<and> msg_plen m \<ge> 2)"
      "msg_kind m \<noteq> SM_AS_KIND_HANGUP" for m
    by (rule "1.IH" [OF rd [symmetric] refl refl refl refl that(1,2,3,4) s1])
  then show ?case
    unfolding daemon_replies.simps [of s] rd
    using s1 sip_inv_forward [OF s1] sip_inv_bye_and_end [OF sip_inv_base [OF s1]]
    by (simp add: Let_def split: option.split)
qed

lemma feed_daemon_inv:
  assumes "sip_inv s"
  shows "sip_inv (snd (feed_daemon pcm s))"
proof -
  obtain r out es where w: "sm_ast_write_audio pcm (en_send s) = (r, out, es)" by (metis prod_cases3)
  let ?s1 = "emit (DaemonTx out) (s\<lparr>en_send := es\<rparr>)"
  have "sip_inv ?s1" using assms by (simp add: sip_inv_def sip_base_def sip_link_def emit_def rxq_inv_def)
  then show ?thesis
    unfolding feed_daemon_def w Let_def
    using daemon_replies_inv [of ?s1] sip_inv_bye_and_end [OF sip_inv_base, of ?s1] by simp
qed

lemma sip_inv_pop: "sip_inv s \<Longrightarrow> sp_call_active s \<Longrightarrow> t < 32 \<Longrightarrow> sip_inv (s\<lparr>sp_rxq_tail := t\<rparr>)"
  by (simp add: sip_inv_def sip_base_def sip_link_def rxq_inv_def)

lemma sip_inv_fields:
  "sip_inv s \<Longrightarrow> sip_inv (s\<lparr>sp_rx_underruns := u\<rparr>)" "sip_inv s \<Longrightarrow> sip_inv (s\<lparr>sp_next_tick := t\<rparr>)"
  by (simp_all add: sip_inv_def sip_base_def sip_link_def rxq_inv_def)

lemma audio_tick_inv: "sip_inv s \<Longrightarrow> sp_call_active s \<Longrightarrow> sip_inv (audio_tick s)"
  by (auto simp: audio_tick_def Let_def SM_SIP_RXQ_def intro!: feed_daemon_inv sip_inv_pop sip_inv_fields)

lemma audio_pump_inv: "sip_inv s \<Longrightarrow> audio_pump now clocks s = Some s' \<Longrightarrow> sip_inv s'"
proof (induction clocks arbitrary: now s)
  case Nil
  then show ?case by (subst (asm) audio_pump.simps) (simp split: if_splits)
next
  case (Cons c cs)
  then show ?case
    by (subst (asm) (2) audio_pump.simps)
      (auto simp: Let_def split: if_splits intro: audio_tick_inv sip_inv_fields)
qed

lemma sip_inv_enqueue: "sip_inv s \<Longrightarrow> sp_call_active s \<Longrightarrow> sip_inv (enqueue_rx pcm n s)"
  by (simp add: enqueue_rx_def Let_def sip_inv_def sip_base_def sip_link_def rxq_inv_def SM_SIP_RXQ_def SM_SIP_RTP_MAXPAY_def nat_le_iff)

lemma sip_inv_capture: "sip_inv s \<Longrightarrow> sip_inv (emit (CaptureRx p) s)"
  by (simp add: emit_def sip_inv_def sip_base_def sip_link_def rxq_inv_def)

lemma rtp_samples_inv: "sip_inv s \<Longrightarrow> sp_call_active s \<Longrightarrow> rtp_samples pkt h pl pt s = Some (r, s') \<Longrightarrow> sip_inv s'"
  by (auto simp: rtp_samples_def Let_def split: if_splits intro!: sip_inv_enqueue sip_inv_capture)
    (simp_all add: emit_def)

lemma process_rtp_inv: "sip_inv s \<Longrightarrow> sp_call_active s \<Longrightarrow> process_rtp pkt s = Some (r, s') \<Longrightarrow> sip_inv s'"
  by (auto simp: process_rtp_def rtp_payload_def get_byte_def Let_def split: if_splits dest: rtp_samples_inv)

lemma process_rtp_total: "\<exists>r s'. process_rtp pkt s = Some (r, s')"
  unfolding process_rtp_def get_byte_def Let_def
  using rtp_payload_in_bounds [of _ pkt _ _ s] by auto

subsection \<open>Every handler keeps the invariant\<close>

lemma small_reply_plain: "\<bar>st\<bar> < 1000 \<Longrightarrow> length reason \<le> 40 \<Longrightarrow> length extra < 512 \<Longrightarrow> small_reply st reason extra []"
  by (simp add: small_reply_def)

lemma reply_inv [inv_intros]:
  "sip_inv s \<Longrightarrow> sip_msg_ok m \<Longrightarrow> small_reply st reason extra body \<Longrightarrow>
    sip_inv (send_response m src st reason extra body s)"
  by (simp add: send_response_eq sip_inv_sent)

lemma reply_base [inv_intros]:
  "sip_base s \<Longrightarrow> sip_msg_ok m \<Longrightarrow> small_reply st reason extra body \<Longrightarrow>
    sip_base (send_response m src st reason extra body s)"
  by (simp add: send_response_eq sip_base_sent)

lemma length_snprintf_512 [simp]: "length (snprintf 512 s) < 512"
  using length_snprintf [of 512 s] by simp

lemma sip_base_rtp_fd: "sip_base s \<Longrightarrow> sip_base (s\<lparr>sp_rtp_fd := fd\<rparr>)"
  and sip_base_daemon_fd: "sip_base s \<Longrightarrow> sip_base (s\<lparr>sp_daemon_fd := fd\<rparr>)"
  and sip_base_caps: "sip_base s \<Longrightarrow> sip_base (s\<lparr>sp_cap_rx := a, sp_cap_tx := b\<rparr>)"
  by (simp_all add: sip_base_def rxq_inv_def)

text \<open>Connecting only talks on the new connection and closes a failed one.\<close>

lemma daemon_connect_spec:
  assumes "daemon_connect e s = (fd, s')"
  shows "\<exists>new. Fault \<notin> set new \<and> (s' = s\<lparr>en_out := en_out s @ new\<rparr>
    \<or> (\<exists>es a rs. s' = s\<lparr>en_out := en_out s @ new, sp_daemon_as := a, en_send := es, en_recv := rs\<rparr>))"
proof -
  obtain f closed where c: "sm_ast_connect (iv_daemon e) = (f, closed)" by (cases "sm_ast_connect (iv_daemon e)") auto
  obtain r out es where w: "sm_ast_write SM_AS_KIND_UUID call_uuid (iv_send e) = (r, out, es)" by (metis prod_cases3)
  have fold: "foldl (\<lambda>s c. emit (CloseFd c) s) t cs = t\<lparr>en_out := en_out t @ map CloseFd cs\<rparr>" for cs t
    by (induction cs arbitrary: t) (simp_all add: emit_def)
  show ?thesis
  proof (cases "f < 0")
    case True
    with assms c fold have "s' = s\<lparr>en_out := en_out s @ map CloseFd closed\<rparr>" by (simp add: daemon_connect_def)
    moreover have "Fault \<notin> set (map CloseFd closed)" by auto
    ultimately show ?thesis by blast
  next
    case False
    with assms c w fold have "s' = s\<lparr>en_out := en_out s @ (map CloseFd closed @ [DaemonTx out]),
        sp_daemon_as := sm_ast_init fd, en_send := es, en_recv := iv_recv e\<rparr>"
      by (auto simp: daemon_connect_def emit_def)
    moreover have "Fault \<notin> set (map CloseFd closed @ [DaemonTx out])" by auto
    ultimately show ?thesis by blast
  qed
qed

lemma daemon_connect_base:
  assumes "daemon_connect e s = (fd, s')" and "sip_base s"
  shows "sip_base s'" and "sp_rtp_fd s' = sp_rtp_fd s" and "sp_cfg s' = sp_cfg s"
    and "sp_calls_done s' = sp_calls_done s"
  using daemon_connect_spec [OF assms(1)] assms(2) by (auto simp: sip_base_def rxq_inv_def)

lemma start_call_facts:
  "sp_call_active (start_call m s)" "sp_call_id (start_call m s) = snprintf 256 (m_call_id m)"
  "sp_to_hdr (start_call m s) = snprintf 320 (m_to m)" "sp_cseq (start_call m s) = m_cseq_num m"
  "sp_rtp_fd (start_call m s) = sp_rtp_fd s" "sp_daemon_fd (start_call m s) = sp_daemon_fd s"
  "en_out (start_call m s) = en_out s" "sp_cfg (start_call m s) = sp_cfg s"
  "sp_last_ok (start_call m s) = sp_last_ok s" "rxq_inv (start_call m s)"
  "sp_tick_ns (start_call m s) = 160" "sp_rxq (start_call m s) = sp_rxq s"
  "\<not> sp_media_active (start_call m s)" "\<not> sp_rtp_peer_known (start_call m s)"
  "rxq_frames (start_call m s) = []" "sp_calls_done (start_call m s) = sp_calls_done s"
  by (simp_all add: start_call_def call_rand_def rxq_inv_def rxq_frames_def rxq_len_def)

lemma m_cseq_num_range: "sip_msg_ok m \<Longrightarrow> \<bar>m_cseq_num m\<bar> \<le> 2 ^ 31 \<Longrightarrow> sip_base s \<Longrightarrow> sip_base (start_call m s)"
  by (simp add: sip_base_def start_call_facts sip_msg_ok_def fits_snprintf fits_def NUL_snprintf)
    (use length_snprintf [of 320 "m_to m"] length_snprintf [of 256 "m_call_id m"] in simp)

text \<open>The answer: what goes out and is kept for retransmission.\<close>

definition answer_text :: "sip_msg \<Rightarrow> nat \<Rightarrow> sm_sip \<Rightarrow> string" where
  "answer_text m rtp_port s =
     (let (t1, s1) = call_time s; (t2, s2) = call_time s1; (body_tag, s3) = make_tag s2;
          ip = cf_advertise_ip (sp_cfg s)
      in response_text m 200 ''OK''
           (snprintf 512 (''Contact: <sip:modem@'' @ ip @ '':'' @ dec_int (cf_bind_port (sp_cfg s)) @ ''>'' @ CRLF))
           (snprintf 512 (sdp_answer t1 t2 ip rtp_port)) s3)"

lemma answer_call_eq:
  assumes "sip_msg_ok m"
  shows "\<exists>a b. answer_call m src port s = s\<lparr>en_rand_n := a, en_time_n := b,
      en_out := en_out s @ [SipTx src (answer_text m port s)], sp_last_ok := answer_text m port s\<rparr>"
    and "answer_text m port s \<noteq> []" and "length (answer_text m port s) \<le> 3511"
proof -
  have r: "small_reply 200 ''OK'' (snprintf 512 x) (snprintf 512 y)" for x y by (simp add: small_reply_def)
  note b = build_response_fits [OF assms r]
  show ne: "answer_text m port s \<noteq> []" and "length (answer_text m port s) \<le> 3511"
    using b(2,3) by (simp_all add: answer_text_def call_time_def make_tag_eq Let_def)
  show "\<exists>a b. answer_call m src port s = s\<lparr>en_rand_n := a, en_time_n := b,
      en_out := en_out s @ [SipTx src (answer_text m port s)], sp_last_ok := answer_text m port s\<rparr>"
    using ne b(1)
    by (intro exI [of _ "Suc (Suc (en_rand_n s))"] exI [of _ "Suc (Suc (Suc (Suc (en_time_n s))))"])
      (simp add: answer_call_def answer_text_def call_time_def make_tag_eq Let_def emit_def)
qed

lemma handle_invite_inv:
  assumes inv: "sip_inv s" and m: "sip_msg_ok m" "\<bar>m_cseq_num m\<bar> \<le> 2 ^ 31"
  shows "sip_inv (handle_invite e m src s)"
proof -
  note base = sip_inv_base [OF inv]
  have replies: "small_reply 100 ''Trying'' [] []" "small_reply 500 ''Server Internal Error'' [] []"
    "small_reply 503 ''Service Unavailable'' [] []" "small_reply 488 ''Not Acceptable Here'' [] []"
    "small_reply 486 ''Busy Here'' [] []" by (simp_all add: small_reply_def)
  have again: "sip_inv (emit (SipTx src (sp_last_ok s)) s)"
    using inv by (simp add: emit_def sip_inv_def sip_base_def sip_link_def rxq_inv_def)
  let ?s1 = "(send_response m src 100 ''Trying'' [] [] s)\<lparr>sp_rtp_fd := iv_socket e\<rparr>"
  have s1: "sip_base ?s1" by (intro sip_base_rtp_fd reply_base base m replies)
  obtain fd s2 where c: "daemon_connect e ?s1 = (fd, s2)" by (cases "daemon_connect e ?s1") auto
  note s2 = daemon_connect_base [OF c s1]
  let ?s3 = "s2\<lparr>sp_daemon_fd := fd\<rparr>"
  have s3: "sip_base ?s3" by (rule sip_base_daemon_fd [OF s2(1)])
  have fin: "sip_inv (answer_call m src p (start_call m s4))"
    if "sip_base s4" "sp_rtp_fd s4 \<ge> 0" "sp_daemon_fd s4 \<ge> 0" for s4 p
  proof -
    have b: "sip_base (start_call m s4)" by (rule m_cseq_num_range [OF m that(1)])
    obtain x y where a: "answer_call m src p (start_call m s4) = (start_call m s4)\<lparr>en_rand_n := x, en_time_n := y,
        en_out := en_out (start_call m s4) @ [SipTx src (answer_text m p (start_call m s4))],
        sp_last_ok := answer_text m p (start_call m s4)\<rparr>"
      using answer_call_eq(1) [OF m(1)] by blast
    show ?thesis
      unfolding a using b that answer_call_eq(2,3) [OF m(1), of p "start_call m s4"]
      by (simp add: sip_inv_def sip_base_def sip_link_def start_call_facts rxq_inv_def SM_SIP_MAX_MSG_def)
  qed
  show ?thesis
    unfolding handle_invite_def
    using again inv base m replies s1 s3 c s2(2)
    by (auto simp: Let_def reply_inv intro!: sip_inv_end_call reply_base fin sip_base_caps
        split: prod.split option.split if_splits)
qed

lemma dispatch_inv:
  assumes "sip_inv s" and m: "sip_msg_ok m" "\<bar>m_cseq_num m\<bar> \<le> 2 ^ 31"
  shows "sip_inv (dispatch e m src s)"
proof -
  have ack: "sip_inv (handle_ack m s)"
    using assms(1) by (auto simp: handle_ack_def sip_inv_def sip_base_def sip_link_def rxq_inv_def)
  have inv: "sip_msg_ok (m\<lparr>m_cseq_method := snprintf 16 ''INVITE''\<rparr>)"
    using m(1) by (simp add: sip_msg_ok_def fits_snprintf NUL_def)
  have r: "small_reply st reason extra []" if "\<bar>st\<bar> < 1000" "length reason \<le> 40" "length extra < 512"
    for st reason extra using that by (rule small_reply_plain)
  show ?thesis
    using assms ack inv handle_invite_inv [OF assms]
    unfolding dispatch_def handle_register_def handle_options_def handle_bye_def handle_cancel_def Let_def
    by (auto intro!: reply_inv reply_base sip_inv_end_call r sip_inv_base simp: CRLF_def)
qed

lemma parse_cseq_num: "\<bar>m_cseq_num (parse_sip stack buf len)\<bar> \<le> 2 ^ 31"
proof -
  have h: "\<bar>m_cseq_num (header_line mem eol m)\<bar> \<le> 2 ^ 31" if "\<bar>m_cseq_num m\<bar> \<le> 2 ^ 31" for mem eol m
    using that atoi_range by (auto simp: header_line_def Let_def abs_le_iff minus_le_iff intro: less_imp_le)
  have hs: "\<bar>m_cseq_num m\<bar> \<le> 2 ^ 31 \<Longrightarrow> \<bar>m_cseq_num (parse_headers s after m)\<bar> \<le> 2 ^ 31" for s after m
  proof (induction s after m rule: parse_headers.induct)
    case (1 s after m)
    define m1 where "m1 = (if find_eol s = 0 \<or> hd s = CR \<and> find_eol s = 1 then m
      else header_line (s @ after) (find_eol s) m)"
    have "\<bar>m_cseq_num m1\<bar> \<le> 2 ^ 31" using "1.prems" h by (simp add: m1_def)
    then have "s \<noteq> [] \<Longrightarrow> \<bar>m_cseq_num (parse_headers (drop (Suc (find_eol s)) s) after m1)\<bar> \<le> 2 ^ 31"
      using "1.IH" [OF _ refl refl] by (simp add: m1_def)
    with "1.prems" show ?case by (subst parse_headers.simps) (simp add: Let_def m1_def)
  qed
  have f: "m_cseq_num (parse_first_line st l m) = m_cseq_num m" for st l m
    by (simp add: parse_first_line_def Let_def split: option.split)
  have z: "m_cseq_num sip_msg_zero = 0" by (simp add: sip_msg_zero_def)
  have b: "m_cseq_num (parse_body bd m) = m_cseq_num m" for bd m by (simp add: parse_body_def Let_def)
  show ?thesis unfolding parse_sip_def Let_def b by (rule hs) (simp add: f z)
qed

lemma rtp_input_inv:
  assumes "sip_inv s"
  shows "sip_inv (rtp_input it s)"
proof -
  have p: "sip_inv (case process_rtp pkt s1 of None \<Rightarrow> emit Fault s1 | Some (r, s2) \<Rightarrow> s2)"
    if "sip_inv s1" "sp_call_active s1" for pkt s1
    using process_rtp_total [of pkt s1] process_rtp_inv [OF that, of pkt] by auto
  show ?thesis
  proof (cases "sp_call_active s \<and> \<not> sp_rtp_peer_known s")
    case True
    then have "sip_inv (s\<lparr>sp_rtp_peer := q, sp_rtp_peer_known := True, sp_next_tick := t\<rparr>)" for q t
      using assms by (simp add: sip_inv_def sip_base_def sip_link_def rxq_inv_def)
    with True assms p show ?thesis by (simp add: rtp_input_def Let_def)
  next
    case False
    then show ?thesis using assms p [OF assms] by (simp add: rtp_input_def)
  qed
qed

lemma sip_iteration_inv:
  assumes inv: "sip_inv s" and it: "sip_iteration it s = SipNext s'"
  shows "sip_inv s'"
proof -
  have pump: "sip_inv s'"
    if "(case audio_pump n cs s1 of None \<Rightarrow> SipBusy | Some s2 \<Rightarrow> SipNext s2) = SipNext s'" "sip_inv s1" for n cs s1
    using that audio_pump_inv [OF that(2)] by (auto split: option.splits)
  have d: "sip_inv (dispatch e (parse_sip st buf n) src s)" for e st buf n src
    by (rule dispatch_inv [OF inv parse_sip_ok parse_cseq_num])
  show ?thesis
    using it inv sip_inv_bye_and_end [OF sip_inv_base [OF inv]]
    unfolding sip_iteration_def Let_def
    by (auto split: poll_res.splits if_splits dest!: pump intro: rtp_input_inv d)
qed

lemma sm_sip_run_inv: "sip_inv s \<Longrightarrow> sip_inv (snd (sm_sip_run k its s))"
proof (induction its arbitrary: s)
  case (Cons it its)
  then show ?case
    by (subst sm_sip_run.simps) (auto split: sip_step.split dest: sip_iteration_inv)
qed (simp add: sm_sip_run.simps)

subsection \<open>A response read by the parser\<close>

text \<open>The header lines a handler adds to a reply: \<open>Contact\<close> and \<open>Allow\<close>.\<close>

definition extra_line :: "string \<Rightarrow> bool" where
  "extra_line l \<longleftrightarrow> NL \<notin> set l \<and> (\<exists>v. l = ''Contact: '' @ v \<or> l = ''Allow: '' @ v)"

definition response_lines :: "sip_msg \<Rightarrow> int \<Rightarrow> string \<Rightarrow> string list \<Rightarrow> string \<Rightarrow> string \<Rightarrow> string list" where
  "response_lines m status reason xs body tag =
     (''SIP/2.0 '' @ dec_int status @ '' '' @ reason)
     # map (\<lambda>v. ''Via: '' @ v) (m_via m)
     @ [''From: '' @ m_from m, ''To: '' @ (if m_to_tag m \<noteq> [] then m_to m else m_to m @ '';tag='' @ tag),
        ''Call-ID: '' @ m_call_id m, ''CSeq: '' @ m_cseq m]
     @ xs @ [''Server: SoftmodemSIP/1.0'']
     @ (if body \<noteq> [] then [''Content-Type: application/sdp''] else [])
     @ [''Content-Length: '' @ dec_nat (length body)]"

lemma concat_vias: "concat (map (\<lambda>v. ''Via: '' @ v @ CRLF) vs) = lines_text (map (\<lambda>v. ''Via: '' @ v) vs)"
  by (induction vs) simp_all

lemma response_text_lines:
  "response_text m status reason (lines_text xs) body s
     = lines_text (response_lines m status reason xs body (fst (make_tag s))) @ CRLF @ body"
  by (simp add: response_text_def response_parts_def response_lines_def concat_vias [simplified] dec_int_def)

lemma parse_first_line_response:
  assumes "100 \<le> st" and "st < 1000" and "length reason \<le> 40" and "NUL \<notin> set reason"
  shows "parse_first_line stack ((''SIP/2.0 '' @ dec_int st @ '' '' @ reason) @ [CR]) r
           = r\<lparr>m_is_response := True, m_status := st\<rparr>"
proof -
  let ?l = "(''SIP/2.0 '' @ dec_int st @ '' '' @ reason) @ [CR]"
  define n where "n = nat st"
  have n: "st = int n" "n < 1000" using assms(1,2) by (auto simp: n_def nat_less_iff)
  have d: "dec_int st = dec_nat n" using n(1) by (simp add: dec_int_def)
  have "length (dec_nat n) \<le> 3" using n(2) by (intro length_dec_nat) simp_all
  then have len: "\<not> length ?l \<ge> 512" using assms(3) by (simp add: d)
  have sw: "starts_with ''SIP/2.0'' (take (length ?l) ?l @ NUL # drop (Suc (length ?l)) stack)"
    by (simp add: starts_with_def)
  have dr: "drop 8 (take (length ?l) ?l @ NUL # drop (Suc (length ?l)) stack)
      = [] @ dec_nat n @ '' '' @ reason @ [CR] @ NUL # drop (Suc (length ?l)) stack" by (simp add: d)
  have "atoi ([] @ dec_nat n @ '' '' @ reason @ [CR] @ NUL # drop (Suc (length ?l)) stack) = st"
    unfolding n(1) using n(2) by (intro atoi_dec_nat) (simp_all add: is_digit_def)
  then show ?thesis
    unfolding parse_first_line_def Let_def if_not_P [OF len] if_P [OF sw] dr by (simp only:)
qed

lemma parse_lines_server:
  "parse_lines (''Server: SoftmodemSIP/1.0'' # ls) after m = parse_lines ls after m"
  by (rule parse_lines_step [OF refl]) (simp add: header_kind)

lemma parse_lines_sdp_type:
  "parse_lines (''Content-Type: application/sdp'' # ls) after m
     = parse_lines ls after (m\<lparr>m_content_type := ''application/sdp''\<rparr>)"
proof -
  have "clean 64 ''application/sdp''" by code_simp
  from parse_lines_content_type [OF this, of ls after m] show ?thesis by simp
qed

lemma header_line_allow: "header_line (''Allow: '' @ s) n m = m"
  by (simp add: header_kind)

lemma header_line_contact_any:
  "header_line (''Contact: '' @ s) n m = m\<lparr>m_contact := copy_line_value (CHR '' '' # s) (int n - 8) 320\<rparr>"
  by (simp add: header_kind)

lemma extra_line_effect:
  assumes "extra_line l"
  shows "\<exists>k. parse_lines (l # ls) after m = parse_lines ls after (m\<lparr>m_contact := k\<rparr>)"
proof -
  from assms obtain v where "l = ''Contact: '' @ v \<or> l = ''Allow: '' @ v" by (auto simp only: extra_line_def)
  then show ?thesis
  proof
    assume l: "l = ''Contact: '' @ v"
    obtain k where "header_line (''Contact: '' @ v @ CRLF @ lines_text ls @ CRLF @ after) (Suc (length l)) m = m\<lparr>m_contact := k\<rparr>"
      using header_line_contact_any by blast
    then show ?thesis by (intro exI [of _ k]) (simp only: parse_lines.simps(2) lines_text_simps append_assoc l)
  next
    assume l: "l = ''Allow: '' @ v"
    have "m = m\<lparr>m_contact := m_contact m\<rparr>" by simp
    then show ?thesis
      by (intro exI [of _ "m_contact m"]) (simp only: parse_lines.simps(2) lines_text_simps append_assoc l header_line_allow)
  qed
qed

lemma parse_lines_extras:
  "list_all extra_line xs \<Longrightarrow> \<exists>k. parse_lines (xs @ ls) after m = parse_lines ls after (m\<lparr>m_contact := k\<rparr>)"
proof (induction xs arbitrary: m)
  case Nil
  have "parse_lines ([] @ ls) after m = parse_lines ls after (m\<lparr>m_contact := m_contact m\<rparr>)" by simp
  then show ?case by (rule exI)
next
  case (Cons x xs)
  from Cons.prems have x: "extra_line x" "list_all extra_line xs" by simp_all
  have twice: "m\<lparr>m_contact := k, m_contact := k'\<rparr> = m\<lparr>m_contact := k'\<rparr>" for k k' by simp
  obtain k where k: "parse_lines (x # (xs @ ls)) after m = parse_lines (xs @ ls) after (m\<lparr>m_contact := k\<rparr>)"
    using extra_line_effect [OF x(1)] by blast
  obtain k' where "parse_lines (xs @ ls) after (m\<lparr>m_contact := k\<rparr>) = parse_lines ls after (m\<lparr>m_contact := k, m_contact := k'\<rparr>)"
    using Cons.IH [OF x(2), of "m\<lparr>m_contact := k\<rparr>"] by blast
  with k have "parse_lines ((x # xs) @ ls) after m = parse_lines ls after (m\<lparr>m_contact := k'\<rparr>)"
    by (simp only: append_Cons twice)
  then show ?case by (rule exI)
qed

lemma parse_lines_tail:
  assumes "length body < 2 ^ 31"
  shows "\<exists>t. parse_lines (''Server: SoftmodemSIP/1.0'' # (if body \<noteq> [] then [''Content-Type: application/sdp''] else [])
        @ [''Content-Length: '' @ dec_nat (length body)]) after m
      = m\<lparr>m_content_type := t, m_content_length := int (length body)\<rparr>"
proof (cases "body = []")
  case True
  have "m = m\<lparr>m_content_type := m_content_type m\<rparr>" by simp
  with True assms show ?thesis
    by (intro exI [of _ "m_content_type m"])
      (simp only: parse_lines_server parse_lines_content_length parse_lines.simps(1) if_False simp_thms append_Nil)
next
  case False
  then have e: "(if body \<noteq> [] then [''Content-Type: application/sdp''] else []) @ ls = ''Content-Type: application/sdp'' # ls"
    for ls by simp
  from assms show ?thesis
    by (intro exI [of _ "''application/sdp''"])
      (simp only: parse_lines_server e parse_lines_sdp_type parse_lines_content_length parse_lines.simps(1))
qed

lemma extra_line_wf: "extra_line l \<Longrightarrow> wf_line l"
  unfolding extra_line_def wf_line_def by (elim conjE exE disjE) (simp_all add: CR_def)

lemma request_msg_ok:
  assumes "request_ok m"
  shows "sip_msg_ok m"
proof -
  have "fits 64 (m_cseq m)" using request_cseq(1) [OF assms] by (simp add: clean_def)
  moreover have "list_all (fits 320) (m_via m)" using assms by (auto simp: request_ok_def clean_def list_all_iff)
  moreover have "NUL \<notin> set (m_method m)" "NUL \<notin> set (m_uri m)"
    using assms token_chars(1) by (auto simp: request_ok_def)
  ultimately show ?thesis
    using assms by (simp add: request_ok_def sip_msg_ok_def clean_def fits_def [of 16] fits_def [of 256] fits_extract_tag)
qed

lemma response_to_clean:
  assumes "clean 320 (m_to m)" and "length (m_to m) < 299"
  shows "clean 320 (if m_to_tag m \<noteq> [] then m_to m else m_to m @ '';tag='' @ fst (make_tag s))"
proof -
  have h: "hex_char k \<noteq> NUL \<and> hex_char k \<noteq> NL \<and> \<not> is_trail (hex_char k)" if "k < 16" for k
  proof -
    have "list_all (\<lambda>k. hex_char k \<noteq> NUL \<and> hex_char k \<noteq> NL \<and> \<not> is_trail (hex_char k)) [0..<16]" by code_simp
    moreover have "k \<in> set [0..<16]" using that by simp
    ultimately show ?thesis unfolding list_all_iff by blast
  qed
  have hx: "c \<noteq> NUL \<and> c \<noteq> NL \<and> \<not> is_trail c" if "c \<in> set (hex08 w)" for c w
    using that h by (auto simp: hex08_def)
  let ?t = "fst (make_tag s)"
  have t: "?t \<noteq> []" "length ?t = 16" by (auto simp: make_tag_eq simp flip: length_0_conv)
  have tag: "c \<noteq> NUL \<and> c \<noteq> NL \<and> \<not> is_trail c" if "c \<in> set ?t" for c
    using that hx by (auto simp: make_tag_eq)
  have "last ?t \<in> set ?t" using t(1) by simp
  then have "\<not> is_trail (last ?t)" using tag by blast
  moreover have "NUL \<notin> set ?t" "NL \<notin> set ?t" using tag by blast+
  ultimately show ?thesis
    using assms t by (cases "m_to m = []") (simp_all add: clean_def fits_def NUL_def NL_def is_blank_def)
qed

text \<open>C25: what \<open>build_response\<close> writes for a well-formed request, with any status, any of the header lines the handlers add and
  any body, fits its buffer and reads back as a reply with that status and body that repeats the request's Via, From,
  Call-ID and CSeq unchanged and its To, with a tag added when it had none.\<close>

theorem response_mirrors_request:
  assumes m: "request_ok m" "length (m_to m) < 299"
    and st: "100 \<le> st" "st < 1000" and reason: "length reason \<le> 40" "NUL \<notin> set reason" "NL \<notin> set reason"
    and xs: "list_all extra_line xs" "length (lines_text xs) < 512" and body: "length body < 512"
  shows "\<exists>t r. fst (build_response m st reason (lines_text xs) body SM_SIP_MAX_MSG s) = Some t
    \<and> parse_sip stack (t @ stale) (length t) = r
    \<and> m_is_response r \<and> m_status r = st \<and> m_via r = m_via m \<and> m_from r = m_from m
    \<and> m_call_id r = m_call_id m \<and> m_cseq r = m_cseq m \<and> m_body r = body
    \<and> m_to r = (if m_to_tag m \<noteq> [] then m_to m else m_to m @ '';tag='' @ fst (make_tag s))"
proof -
  define to where "to = (if m_to_tag m \<noteq> [] then m_to m else m_to m @ '';tag='' @ fst (make_tag s))"
  note cs = request_cseq [OF m(1)]
  have ok: "list_all (clean 320) (m_via m)" "length (m_via m) \<le> 4" "clean 320 (m_from m)"
    "clean 320 (m_to m)" "clean 256 (m_call_id m)"
    using m by (simp_all add: request_ok_def SM_SIP_MAX_VIAS_def)
  have to: "clean 320 to" unfolding to_def by (rule response_to_clean [OF ok(4) m(2)])
  let ?first = "''SIP/2.0 '' @ dec_int st @ '' '' @ reason"
  let ?tail = "''Server: SoftmodemSIP/1.0'' # (if body \<noteq> [] then [''Content-Type: application/sdp''] else [])
        @ [''Content-Length: '' @ dec_nat (length body)]"
  let ?head = "map (\<lambda>v. ''Via: '' @ v) (m_via m) @ [''From: '' @ m_from m, ''To: '' @ to,
        ''Call-ID: '' @ m_call_id m, ''CSeq: '' @ m_cseq m]"
  let ?rest = "map (\<lambda>v. ''Via: '' @ v) (m_via m) @ (''From: '' @ m_from m) # (''To: '' @ to)
        # (''Call-ID: '' @ m_call_id m) # (''CSeq: '' @ m_cseq m) # xs @ ?tail"
  have wf1: "wf_line ?first"
    using reason NL_dec_nat by (simp add: wf_line_def dec_int_def) (simp add: NL_def CR_def)
  have "list_all (\<lambda>v. NL \<notin> set v) (m_via m)" using ok(1) by (auto simp: list_all_iff dest: clean_NL)
  then have "list_all wf_line (map (\<lambda>v. ''Via: '' @ v) (m_via m))"
    by (auto simp: list_all_iff wf_line_def NL_def CR_def)
  then have wf2: "list_all wf_line ?head"
    using ok(3,5)[THEN clean_NL] clean_NL [OF to] clean_NL [OF cs(1)]
    by (simp add: wf_line_def) (simp add: NL_def CR_def)
  have wf3: "list_all wf_line xs"
    using xs(1) extra_line_wf by (simp only: list_all_iff) blast
  have wf4: "list_all wf_line ?tail"
    using NL_dec_nat by (simp add: wf_line_def) (simp add: NL_def CR_def)
  from wf2 wf3 wf4 have wf: "list_all wf_line ?rest" by simp
  define full where "full = lines_text (?first # ?rest) @ CRLF @ body"
  have "small_reply st reason (lines_text xs) body" using st reason xs body by (simp add: small_reply_def)
  from build_response_fits(1) [OF request_msg_ok [OF m(1)] this, of s]
  have t: "fst (build_response m st reason (lines_text xs) body SM_SIP_MAX_MSG s) = Some full"
    by (simp add: response_text_lines response_lines_def to_def full_def)
  have app: "full @ stale = lines_text (?first # ?rest) @ CRLF @ body @ stale"
    unfolding full_def append_assoc ..
  have via: "length (m_via (sip_msg_zero\<lparr>m_is_response := a, m_status := b\<rparr>)) + length (m_via m) \<le> 4" for a b
    using ok(2) by (simp add: sip_msg_zero_def)
  have len: "length body < 2 ^ 31" using body by simp
  define r1 where "r1 = sip_msg_zero\<lparr>m_is_response := True, m_status := st, m_via := m_via m,
         m_from := m_from m, m_from_tag := extract_tag (m_from m) 64, m_to := to, m_to_tag := extract_tag to 64,
         m_call_id := m_call_id m, m_cseq := m_cseq m, m_cseq_num := m_cseq_num m,
         m_cseq_method := snprintf 16 (m_method m)\<rparr>"
  have "parse_sip stack (full @ stale) (length full) = parse_body body (parse_lines ?rest (body @ stale) (parse_first_line stack (?first @ [CR]) sip_msg_zero))"
    unfolding app unfolding full_def by (rule parse_sip_lines [OF wf1 wf])
  also have "parse_lines ?rest (body @ stale) (parse_first_line stack (?first @ [CR]) sip_msg_zero)
      = parse_lines (xs @ ?tail) (body @ stale) r1"
    by (simp only: parse_first_line_response [OF st reason(1,2)] parse_lines_vias [OF ok(1) via]
        parse_lines_from [OF ok(3)] parse_lines_to [OF to] parse_lines_call_id [OF ok(5)]
        parse_lines_cseq [OF cs(1)] cs)
      (simp add: sip_msg_zero_def r1_def)
  also obtain k where "parse_lines (xs @ ?tail) (body @ stale) r1 = parse_lines ?tail (body @ stale) (r1\<lparr>m_contact := k\<rparr>)"
    using parse_lines_extras [OF xs(1), of ?tail "body @ stale" r1] by blast
  also obtain ct where "parse_lines ?tail (body @ stale) (r1\<lparr>m_contact := k\<rparr>)
      = r1\<lparr>m_contact := k, m_content_type := ct, m_content_length := int (length body)\<rparr>"
    using parse_lines_tail [OF len] by blast
  finally show ?thesis
    using t body by (intro exI [of _ full] exI [of _ "parse_sip stack (full @ stale) (length full)"])
      (simp add: parse_body_def r1_def sip_msg_zero_def to_def SM_SIP_MAX_MSG_def)
qed

definition sample_contact :: string where
  "sample_contact = ''Contact: <sip:modem@10.0.0.1:5060>''"

theorem response_mirrors_request_witness:
  "\<exists>t r. fst (build_response sample_invite 200 ''OK'' (lines_text [sample_contact]) ''v=0'' SM_SIP_MAX_MSG idle_sip) = Some t
     \<and> parse_sip [] t (length t) = r \<and> m_via r = m_via sample_invite \<and> m_body r = ''v=0''"
proof -
  have h: "request_ok sample_invite" "length (m_to sample_invite) < 299" "NUL \<notin> set ''OK''" "NL \<notin> set ''OK''"
    "length (lines_text [sample_contact]) < 512" "NL \<notin> set sample_contact"
    by code_simp+
  have "extra_line sample_contact" using h(6) by (auto simp: extra_line_def sample_contact_def)
  then have "list_all extra_line [sample_contact]" by simp
  from response_mirrors_request [OF h(1,2) _ _ _ h(3,4) this h(5), of 200 "''v=0''" idle_sip "[]" "[]"] show ?thesis by auto
qed

text \<open>The lines the handlers add are such lines.\<close>

lemma handlers_extras:
  assumes "sip_msg_ok m" and "NL \<notin> set (m_contact m)"
  shows "\<exists>l. extra_line l \<and> snprintf 512 (''Contact: ''
            @ (if m_contact m \<noteq> [] then m_contact m else ''<sip:modem@unknown>'') @ CRLF) = lines_text [l]"
    and "\<exists>l. extra_line l \<and> ''Allow: INVITE, ACK, CANCEL, BYE, OPTIONS, REGISTER'' @ CRLF = lines_text [l]"
proof -
  let ?v = "if m_contact m \<noteq> [] then m_contact m else ''<sip:modem@unknown>''"
  have "length ?v < 320" "NL \<notin> set ?v" using assms by (auto simp: sip_msg_ok_def fits_def NL_def)
  then show "\<exists>l. extra_line l \<and> snprintf 512 (''Contact: '' @ ?v @ CRLF) = lines_text [l]"
    by (intro exI [of _ "''Contact: '' @ ?v"]) (auto simp: extra_line_def snprintf_def CRLF_def NL_def)
  show "\<exists>l. extra_line l \<and> ''Allow: INVITE, ACK, CANCEL, BYE, OPTIONS, REGISTER'' @ CRLF = lines_text [l]"
    by (intro exI [of _ "''Allow: INVITE, ACK, CANCEL, BYE, OPTIONS, REGISTER''"]) (auto simp: extra_line_def NL_def)
qed


definition home :: sockaddr where
  "home = \<lparr>sa_addr = 0x7F000001, sa_port = 5060\<rparr>"

definition idle_env :: sip_env where
  "idle_env = \<lparr>en_rand = (\<lambda>_. 7), en_rand_n = 0, en_time = (\<lambda>_. 9), en_time_n = 0, en_send = [],
     en_recv = [], en_out = []\<rparr>"

definition idle_iter :: sip_iter where
  "idle_iter = \<lparr>it_poll = PollReady, it_daemon_gone = False, it_daemon_in = False, it_daemon_peek = 0,
     it_rtp_in = False, it_rtp_pkt = [], it_rtp_from = \<lparr>sa_addr = 0, sa_port = 0\<rparr>, it_sip_in = True,
     it_sip_buf = request_text sample_invite, it_sip_n = 20, it_sip_src = \<lparr>sa_addr = 0, sa_port = 0\<rparr>, it_stack = [],
     it_invite = \<lparr>iv_socket = 4, iv_bind = 0, iv_getsockname = 0, iv_rtp_port = 9,
       iv_daemon = \<lparr>oe_socket = 5, oe_pton = 1, oe_bind = 0, oe_listen = 0, oe_connect = 0\<rparr>,
       iv_send = [], iv_recv = [], iv_cap_rx = False, iv_cap_tx = False\<rparr>,
     it_now_peer = \<lparr>tv_sec = 0, tv_nsec = 0\<rparr>, it_now = \<lparr>tv_sec = 0, tv_nsec = 0\<rparr>, it_clocks = []\<rparr>"


text \<open>An INVITE during a call changes nothing but the output: the call's own INVITE again gets
  the kept 200 OK byte for byte, any other gets one 486.\<close>

theorem invite_during_call:
  assumes "sip_inv s" and "sip_msg_ok m" and "sp_call_active s"
  shows "handle_invite e m src s =
    (if m_call_id m = sp_call_id s then s\<lparr>en_out := en_out s @ [SipTx src (sp_last_ok s)]\<rparr>
     else s\<lparr>en_rand_n := Suc (en_rand_n s), en_time_n := Suc (en_time_n s),
            en_out := en_out s @ [SipTx src (response_text m 486 ''Busy Here'' [] [] s)]\<rparr>)"
proof -
  have "sp_last_ok s \<noteq> []" using assms by (simp add: sip_inv_def sip_link_def)
  moreover have "small_reply 486 ''Busy Here'' [] []" by (simp add: small_reply_def)
  ultimately show ?thesis
    using assms by (auto simp: handle_invite_def emit_def send_response_eq sent_def)
qed

definition busy_sip :: sm_sip where
  "busy_sip = idle_sip\<lparr>sp_call_active := True, sp_call_id := ''abc@y'', sp_rtp_fd := 4, sp_daemon_fd := 5,
     sp_last_ok := ''SIP/2.0 200 OK''\<rparr>"

lemma busy_sip_inv: "sip_inv busy_sip"
  by (simp add: sip_inv_def sip_base_def sip_link_def busy_sip_def idle_sip_def cfg_ok_def fits_def NUL_def
      rxq_inv_def SM_SIP_MAX_MSG_def)

lemma idle_sip_inv: "sip_inv idle_sip"
  by (simp add: sip_inv_def sip_base_def sip_link_def idle_sip_def cfg_ok_def fits_def NUL_def
      rxq_inv_def SM_SIP_MAX_MSG_def)

lemma sample_invite_ok: "sip_msg_ok sample_invite"
  by code_simp

theorem invite_during_call_witness:
  "handle_invite (it_invite idle_iter) sample_invite home busy_sip
     = busy_sip\<lparr>en_out := [SipTx home ''SIP/2.0 200 OK'']\<rparr>"
  using invite_during_call [OF busy_sip_inv sample_invite_ok, of "it_invite idle_iter" home]
  by (simp add: busy_sip_def sample_invite_def idle_sip_def)

text \<open>C18: a BYE is always answered 200; if it names the active call, both descriptors are closed, in
  this order, and the server is ready for the next call; otherwise the call goes on untouched.\<close>

theorem bye_ends_call:
  assumes "sip_inv s" and "sip_msg_ok m" and "m_method m = ''BYE''"
  shows "if sp_call_active s \<and> m_call_id m = sp_call_id s
    then en_out (dispatch e m src s) = en_out s @ [SipTx src (response_text m 200 ''OK'' [] [] s),
           CloseFd (sp_daemon_fd s), CloseFd (sp_rtp_fd s)]
         \<and> call_ended (dispatch e m src s) \<and> sp_calls_done (dispatch e m src s) = sp_calls_done s + 1
    else dispatch e m src s = s\<lparr>en_rand_n := Suc (en_rand_n s), en_time_n := Suc (en_time_n s),
           en_out := en_out s @ [SipTx src (response_text m 200 ''OK'' [] [] s)]\<rparr>"
proof -
  have "small_reply 200 ''OK'' [] []" by (simp add: small_reply_def)
  note r = send_response_eq [OF assms(2) this, of src s]
  have d: "dispatch e m src s = (let s1 = sent src (response_text m 200 ''OK'' [] [] s) s
      in if sp_call_active s1 \<and> sp_call_id s1 = m_call_id m then end_call s1 else s1)"
    using assms(3) by (simp add: dispatch_def handle_bye_def r)
  have fds: "sp_rtp_fd s \<ge> 0 \<and> sp_daemon_fd s \<ge> 0" if "sp_call_active s"
    using assms(1) that by (simp add: sip_inv_def sip_link_def)
  show ?thesis
  proof (cases "sp_call_active s \<and> m_call_id m = sp_call_id s")
    case True
    with fds have e: "en_out (end_call (sent src x s)) = en_out s @ [SipTx src x,
           CloseFd (sp_daemon_fd s), CloseFd (sp_rtp_fd s)]"
      "sp_calls_done (end_call (sent src x s)) = sp_calls_done s + 1" for x
      by (simp_all add: end_call_def emit_def sent_def Let_def)
    from True show ?thesis by (simp add: d e)
  next
    case False
    then show ?thesis by (auto simp: d Let_def) (simp_all add: sent_def)
  qed
qed

theorem bye_ends_call_witness:
  "call_ended (dispatch (it_invite idle_iter) (sample_invite\<lparr>m_method := ''BYE''\<rparr>) home busy_sip)"
proof -
  have "sip_msg_ok (sample_invite\<lparr>m_method := ''BYE''\<rparr>)" by code_simp
  from bye_ends_call [OF busy_sip_inv this, of "it_invite idle_iter" home] show ?thesis
    by (simp add: busy_sip_def sample_invite_def)
qed

text \<open>C17: an INVITE to an idle server, with an audio port in its SDP and the sockets available,
  is answered 100 and then 200; the 200 is kept for retransmission, and the call is active on the new
  sockets under the caller's Call-ID.\<close>

theorem invite_accepted:
  assumes inv: "sip_inv s" and m: "sip_msg_ok m" and idle: "\<not> sp_call_active s"
    and sdp: "extract_sdp m 64 = (ip, port, pt)" "port > 0"
    and env: "iv_socket e \<ge> 0" "iv_bind e \<ge> 0" "iv_getsockname e \<ge> 0"
    and conn: "sm_ast_connect (iv_daemon e) = (fd, cl)" "fd \<ge> 0"
    and s': "s' = handle_invite e m src s"
  shows "sp_call_active s' \<and> sp_call_id s' = m_call_id m \<and> sp_rtp_fd s' = iv_socket e \<and> sp_daemon_fd s' = fd
    \<and> rxq_frames s' = [] \<and> \<not> sp_media_active s' \<and> sp_last_ok s' \<noteq> []
    \<and> (\<exists>mid. en_out s' = en_out s @ [SipTx src (response_text m 100 ''Trying'' [] [] s)] @ mid
                          @ [SipTx src (sp_last_ok s')])"
proof -
  have "small_reply 100 ''Trying'' [] []" by (simp add: small_reply_def)
  note r = send_response_eq [OF m this, of src s]
  let ?t = "response_text m 100 ''Trying'' [] [] s"
  let ?s1 = "(sent src ?t s)\<lparr>sp_rtp_fd := iv_socket e\<rparr>"
  obtain f s2 where c: "daemon_connect e ?s1 = (f, s2)" by (cases "daemon_connect e ?s1") auto
  have f: "f = fd" using c conn by (simp add: daemon_connect_def split: prod.splits)
  from daemon_connect_spec [OF c] obtain new where s2: "en_out s2 = en_out ?s1 @ new" "sp_rtp_fd s2 = iv_socket e"
    by auto
  define s4 where "s4 = (case cf_capture_dir (sp_cfg (s2\<lparr>sp_daemon_fd := f\<rparr>)) of
     Some d \<Rightarrow> if d \<noteq> [] then s2\<lparr>sp_daemon_fd := f, sp_cap_rx := iv_cap_rx e, sp_cap_tx := iv_cap_tx e\<rparr>
               else s2\<lparr>sp_daemon_fd := f\<rparr>
   | None \<Rightarrow> s2\<lparr>sp_daemon_fd := f\<rparr>)"
  have s4: "en_out s4 = en_out s2" "sp_rtp_fd s4 = iv_socket e" "sp_daemon_fd s4 = fd"
    using s2(2) f by (simp_all add: s4_def split: option.split)
  have h: "s' = answer_call m src (iv_rtp_port e) (start_call m s4)"
    unfolding s' handle_invite_def using idle sdp env c f conn(2)
    by (simp add: r Let_def s4_def not_less [symmetric] split: option.split)
  obtain a b where ans: "s' = (start_call m s4)\<lparr>en_rand_n := a, en_time_n := b,
      en_out := en_out (start_call m s4) @ [SipTx src (answer_text m (iv_rtp_port e) (start_call m s4))],
      sp_last_ok := answer_text m (iv_rtp_port e) (start_call m s4)\<rparr>"
    using answer_call_eq(1) [OF m] h by metis
  have id: "snprintf 256 (m_call_id m) = m_call_id m"
    using m by (intro snprintf_fits) (simp add: sip_msg_ok_def fits_def)
  have fr: "rxq_frames s' = []" unfolding ans by (simp add: rxq_frames_def rxq_len_def start_call_def call_rand_def)
  show ?thesis
    using fr answer_call_eq(2) [OF m] by (simp add: ans start_call_facts s4 s2 id)
qed

definition sample_offer :: sip_msg where
  "sample_offer = sample_invite\<lparr>m_body := sdp_answer 1 2 ''10.0.0.9'' 4000\<rparr>"

lemma sample_offer_facts:
  "sip_msg_ok sample_offer" "extract_sdp sample_offer 64 = (''10.0.0.9'', 4000, 0)"
proof -
  show "sip_msg_ok sample_offer" by code_simp
  have "clean 64 ''10.0.0.9''" by code_simp
  then show "extract_sdp sample_offer 64 = (''10.0.0.9'', 4000, 0)"
    using extract_sdp_answer [of "''10.0.0.9''" 4000 sample_offer 1 2] by (simp add: sample_offer_def)
qed

lemma sample_connect: "sm_ast_connect (iv_daemon (it_invite idle_iter)) = (5, [])"
  by (simp add: sm_ast_connect_def idle_iter_def)

theorem invite_accepted_witness:
  "sp_call_active (handle_invite (it_invite idle_iter) sample_offer home idle_sip)"
proof -
  have e: "\<not> sp_call_active idle_sip" "iv_socket (it_invite idle_iter) \<ge> 0" "iv_bind (it_invite idle_iter) \<ge> 0"
    "iv_getsockname (it_invite idle_iter) \<ge> 0" "(4000::int) > 0" "(5::int) \<ge> 0"
    by (simp_all add: idle_sip_def idle_iter_def)
  show ?thesis
    by (rule invite_accepted [OF idle_sip_inv sample_offer_facts(1) e(1) sample_offer_facts(2) e(5) e(2,3,4)
          sample_connect e(6) refl, THEN conjunct1])
qed

text \<open>C26: an INVITE that fails for want of a socket is counted as a finished call, so a server told
  to serve one call returns without having served any.\<close>

theorem failed_invite_counts_as_call:
  assumes "sip_inv s" and "sip_msg_ok m" and "\<not> sp_call_active s"
    and "extract_sdp m 64 = (ip, port, pt)" and "port > 0" and "iv_socket e < 0" and "sp_calls_done s = 0"
  shows "sm_sip_run 1 its (handle_invite e m src s) = (Some 0, handle_invite e m src s)"
proof -
  have r: "small_reply 100 ''Trying'' [] []" "small_reply 500 ''Server Internal Error'' [] []"
    by (simp_all add: small_reply_def)
  have "sp_calls_done (handle_invite e m src s) = sp_calls_done s + 1"
    using assms(3-6) send_response_eq [OF assms(2) r(1)] send_response_eq [OF assms(2) r(2)]
    by (simp add: handle_invite_def Let_def end_call_def emit_def sent_def)
  with assms(7) show ?thesis by (subst sm_sip_run.simps) simp
qed

theorem failed_invite_counts_as_call_witness:
  "fst (sm_sip_run 1 [idle_iter] (handle_invite ((it_invite idle_iter)\<lparr>iv_socket := -1\<rparr>) sample_offer home idle_sip)) = Some 0"
proof -
  have e: "\<not> sp_call_active idle_sip" "iv_socket ((it_invite idle_iter)\<lparr>iv_socket := -1\<rparr>) < 0" "(4000::int) > 0"
    "sp_calls_done idle_sip = 0" by (simp_all add: idle_sip_def)
  show ?thesis
    unfolding failed_invite_counts_as_call [OF idle_sip_inv sample_offer_facts(1) e(1) sample_offer_facts(2) e(3) e(2) e(4)]
    by (rule fst_conv)
qed

text \<open>The 487 that answers the INVITE of a cancelled call carries the CSeq of the CANCEL: only
  the method field the response never prints is changed.\<close>

theorem cancel_487_keeps_cancel_cseq:
  assumes "sip_inv s" and "sip_msg_ok m" and "m_method m = ''CANCEL''"
    and "sp_call_active s" and "m_call_id m = sp_call_id s"
  shows "\<exists>s1. en_out (dispatch e m src s) = en_out s @ [SipTx src (response_text m 200 ''OK'' [] [] s),
      SipTx src (response_text m 487 ''Request Terminated'' [] [] s1),
      CloseFd (sp_daemon_fd s), CloseFd (sp_rtp_fd s)]"
proof -
  have r: "small_reply 200 ''OK'' [] []" "small_reply 487 ''Request Terminated'' [] []"
    by (simp_all add: small_reply_def)
  let ?inv = "m\<lparr>m_cseq_method := snprintf 16 ''INVITE''\<rparr>"
  have ok: "sip_msg_ok ?inv" using assms(2) by (simp add: sip_msg_ok_def fits_snprintf NUL_def)
  have same: "response_text ?inv a b c d t = response_text m a b c d t" for a b c d t
    by (simp add: response_text_def response_parts_def)
  have fds: "sp_rtp_fd s \<ge> 0 \<and> sp_daemon_fd s \<ge> 0"
    using assms(1,4) by (simp add: sip_inv_def sip_link_def)
  have "dispatch e m src s = end_call (sent src (response_text m 487 ''Request Terminated'' [] []
      (sent src (response_text m 200 ''OK'' [] [] s) s)) (sent src (response_text m 200 ''OK'' [] [] s) s))"
    using assms(3-5) by (simp add: dispatch_def handle_cancel_def send_response_eq [OF assms(2) r(1)]
        send_response_eq [OF ok r(2)] same Let_def)
  then show ?thesis
    using fds by (intro exI [of _ "sent src (response_text m 200 ''OK'' [] [] s) s"])
      (simp add: end_call_def emit_def sent_def Let_def)
qed

theorem cancel_487_keeps_cancel_cseq_witness:
  "\<exists>s1. SipTx home (response_text (sample_invite\<lparr>m_method := ''CANCEL'', m_cseq := ''101 CANCEL''\<rparr>) 487 ''Request Terminated'' [] [] s1)
     \<in> set (en_out (dispatch (it_invite idle_iter) (sample_invite\<lparr>m_method := ''CANCEL'', m_cseq := ''101 CANCEL''\<rparr>) home busy_sip))"
proof -
  have "sip_msg_ok (sample_invite\<lparr>m_method := ''CANCEL'', m_cseq := ''101 CANCEL''\<rparr>)" by code_simp
  from cancel_487_keeps_cancel_cseq [OF busy_sip_inv this, of "it_invite idle_iter" home] show ?thesis
    by (auto simp: busy_sip_def sample_invite_def)
qed

end
