(* ===== verification/Pppd.thy ===== *)
theory Pppd
  imports C_String
begin

text \<open>
  Launching pppd and the relay shim, \<open>src/src/ppp/sm_pppd.c\<close>. \<open>sm_pppd_spawn\<close> is the parent's and the
  child's half given the results of the system calls; the shim's loop is a step function on its two
  buffers, one per direction.
\<close>

subsection \<open>Spawning\<close>

record pppd_config =
  pc_pppd_path :: string
  pc_shim_exe :: string
  pc_local_ip :: string
  pc_peer_ip :: string
  pc_dns1 :: "string option"
  pc_dns2 :: "string option"
  pc_log_path :: "string option"
  pc_ip_up_script :: "string option"
  pc_ip_down_script :: "string option"
  pc_auth :: bool

definition SHIM_FD :: int where "SHIM_FD = 45"
definition SHIM_BUF :: nat where "SHIM_BUF = 8192"

text \<open>An option with its value, when the value is set and not empty.\<close>

definition opt_arg :: "string \<Rightarrow> string option \<Rightarrow> string list" where
  "opt_arg name v = (case v of None \<Rightarrow> [] | Some x \<Rightarrow> if x \<noteq> [] then [name, x] else [])"

definition pppd_args :: "pppd_config \<Rightarrow> string list" where
  "pppd_args cfg =
     (let shim_cmd = snprintf 1024 (pc_shim_exe cfg @ '' --shim '' @ dec_int SHIM_FD);
          ip_spec = snprintf 128 (pc_local_ip cfg @ '':'' @ pc_peer_ip cfg)
      in [pc_pppd_path cfg, ''pty'', shim_cmd, ''noauth'', ''local'', ''nocrtscts'', ''nodetach'',
          ''noipdefault'', ''debug'', ''lcp-max-configure'', ''120'', ''noccp'', ''novj'']
         @ (if pc_auth cfg then [''auth'', ''+pap'', ''-chap''] else [])
         @ opt_arg ''ms-dns'' (pc_dns1 cfg) @ opt_arg ''ms-dns'' (pc_dns2 cfg)
         @ opt_arg ''ip-up-script'' (pc_ip_up_script cfg) @ opt_arg ''ip-down-script'' (pc_ip_down_script cfg)
         @ [ip_spec])"

text \<open>The argument vector ends with a NULL pointer.\<close>

definition pppd_argv :: "pppd_config \<Rightarrow> string option list" where
  "pppd_argv cfg = map Some (pppd_args cfg) @ [None]"

text \<open>\<open>socketpair\<close>'s descriptors or None, and \<open>fork\<close>'s result.\<close>

record spawn_env =
  se_socketpair :: "(int \<times> int) option"
  se_fork :: int

text \<open>The parent's half: pid, the daemon's socket end, and the descriptors it closed.\<close>

definition sm_pppd_spawn :: "spawn_env \<Rightarrow> int \<times> int option \<times> int list" where
  "sm_pppd_spawn e =
     (case se_socketpair e of
        None \<Rightarrow> (-1, None, [])
      | Some (a, b) \<Rightarrow> if se_fork e < 0 then (-1, None, [a, b]) else (se_fork e, Some b, [a]))"

text \<open>What the child becomes: pppd with its arguments and the log file on descriptors 1 and 2, or an
  exit. The inputs are the results of \<open>dup2\<close> and of opening the log, and whether \<open>execv\<close> fails.\<close>

datatype child_end = ChildExec string "string option list" "string option" | ChildExit int

definition pppd_child :: "pppd_config \<Rightarrow> int \<Rightarrow> int \<Rightarrow> bool \<Rightarrow> child_end" where
  "pppd_child cfg dup lfd exec_fails =
     (if dup < 0 then ChildExit 127
      else if exec_fails then ChildExit 127
      else ChildExec (pc_pppd_path cfg) (pppd_argv cfg)
             (case pc_log_path cfg of None \<Rightarrow> None | Some p \<Rightarrow> if lfd \<ge> 0 then Some p else None))"

subsection \<open>The relay\<close>

record relay =
  rl_data :: "nat \<Rightarrow> u8"
  rl_len :: nat
  rl_off :: nat
  rl_bytes :: u64

datatype read_res = ReadEof | ReadError | ReadRetry | ReadData "u8 list"

definition relay_empty :: relay where
  "relay_empty = \<lparr>rl_data = (\<lambda>_. 0), rl_len = 0, rl_off = 0, rl_bytes = 0\<rparr>"

text \<open>Taking input; None when the loop returns. The copy is skipped when it does not fit, but the
  length grows all the same.\<close>

definition shim_in :: "read_res \<Rightarrow> relay \<Rightarrow> relay option" where
  "shim_in r b =
     (case r of
        ReadEof \<Rightarrow> None
      | ReadError \<Rightarrow> None
      | ReadRetry \<Rightarrow> Some b
      | ReadData xs \<Rightarrow>
          Some (b\<lparr>rl_bytes := rl_bytes b + of_nat (length xs),
                  rl_data := (if rl_len b + length xs \<le> SHIM_BUF
                              then mem_write (rl_data b) (rl_len b) xs else rl_data b),
                  rl_len := rl_len b + length xs\<rparr>))"

text \<open>Writing: \<open>w\<close> is the result of \<open>write\<close>, at most the \<open>len - off\<close> bytes asked for. The second
  component is what went out, the third whether the bytes offered lie inside the array.\<close>

definition shim_out :: "int \<Rightarrow> relay \<Rightarrow> relay \<times> u8 list \<times> bool" where
  "shim_out w b =
     (let b1 = (if w > 0 then b\<lparr>rl_off := rl_off b + nat w\<rparr> else b);
          b2 = (if rl_off b1 = rl_len b1 then b1\<lparr>rl_off := 0, rl_len := 0\<rparr> else b1)
      in (b2, (if w > 0 then mem_read (rl_data b) (rl_off b) (nat w) else []), rl_len b \<le> SHIM_BUF))"

datatype shim_poll = ShimPolled | ShimInterrupted | ShimPollError

text \<open>What one iteration gets from \<open>poll\<close>, \<open>read\<close> and \<open>write\<close>: the flags say whether the descriptor's
  \<open>revents\<close> had a bit the code tests.\<close>

record shim_ev =
  sh_poll :: shim_poll
  sh_in0 :: bool
  sh_read0 :: read_res
  sh_out3 :: bool
  sh_write3 :: int
  sh_in1 :: bool
  sh_read1 :: read_res
  sh_out2 :: bool
  sh_write2 :: int

record shim =
  sh_to_pppd :: relay
  sh_to_modem :: relay
  sh_pppd_out :: "u8 list"
  sh_modem_out :: "u8 list"
  sh_overread :: bool

datatype shim_step = ShimReturn int shim | ShimNext shim

definition shim_to_modem_io :: "shim_ev \<Rightarrow> shim \<Rightarrow> shim" where
  "shim_to_modem_io e s =
     (if rl_len (sh_to_modem s) > 0 \<and> sh_out3 e
      then (let (b, out, ok) = shim_out (sh_write3 e) (sh_to_modem s)
            in s\<lparr>sh_to_modem := b, sh_modem_out := sh_modem_out s @ out,
                 sh_overread := (sh_overread s \<or> \<not> ok)\<rparr>)
      else s)"

definition shim_to_pppd_io :: "shim_ev \<Rightarrow> shim \<Rightarrow> shim" where
  "shim_to_pppd_io e s =
     (if rl_len (sh_to_pppd s) > 0 \<and> sh_out2 e
      then (let (b, out, ok) = shim_out (sh_write2 e) (sh_to_pppd s)
            in s\<lparr>sh_to_pppd := b, sh_pppd_out := sh_pppd_out s @ out,
                 sh_overread := (sh_overread s \<or> \<not> ok)\<rparr>)
      else s)"

definition shim_iter :: "shim_ev \<Rightarrow> shim \<Rightarrow> shim_step" where
  "shim_iter e s =
     (case sh_poll e of
        ShimInterrupted \<Rightarrow> ShimNext s
      | ShimPollError \<Rightarrow> ShimReturn 1 s
      | ShimPolled \<Rightarrow>
          (case (if sh_in0 e then shim_in (sh_read0 e) (sh_to_modem s) else Some (sh_to_modem s)) of
             None \<Rightarrow> ShimReturn 0 s
           | Some b0 \<Rightarrow>
               (let s1 = shim_to_modem_io e (s\<lparr>sh_to_modem := b0\<rparr>)
                in case (if sh_in1 e then shim_in (sh_read1 e) (sh_to_pppd s1) else Some (sh_to_pppd s1)) of
                     None \<Rightarrow> ShimReturn 0 s1
                   | Some b1 \<Rightarrow> ShimNext (shim_to_pppd_io e (s1\<lparr>sh_to_pppd := b1\<rparr>)))))"

fun sm_pppd_shim_main :: "shim_ev list \<Rightarrow> shim \<Rightarrow> int option \<times> shim" where
  "sm_pppd_shim_main [] s = (None, s)"
| "sm_pppd_shim_main (e # es) s =
     (case shim_iter e s of ShimReturn r s' \<Rightarrow> (Some r, s') | ShimNext s' \<Rightarrow> sm_pppd_shim_main es s')"

definition shim_start :: shim where
  "shim_start = \<lparr>sh_to_pppd = relay_empty, sh_to_modem = relay_empty, sh_pppd_out = [],
     sh_modem_out = [], sh_overread = False\<rparr>"

subsection \<open>A relay with back-pressure\<close>

definition read_bytes :: "read_res \<Rightarrow> u8 list" where
  "read_bytes r = (case r of ReadData xs \<Rightarrow> xs | _ \<Rightarrow> [])"

definition relay_inv :: "relay \<Rightarrow> bool" where
  "relay_inv b \<longleftrightarrow> rl_off b \<le> rl_len b \<and> rl_len b \<le> SHIM_BUF"

definition relay_pending :: "relay \<Rightarrow> u8 list" where
  "relay_pending b = mem_read (rl_data b) (rl_off b) (rl_len b - rl_off b)"

text \<open>The calls keep their contracts: \<open>write\<close> takes at most what it is offered, \<open>read\<close> gives at most
  the scratch array, and input is reported only while it was asked for, that is with an empty buffer.\<close>

definition polite :: "bool \<Rightarrow> read_res \<Rightarrow> bool \<Rightarrow> int \<Rightarrow> relay \<Rightarrow> bool" where
  "polite ready r wr w b \<longleftrightarrow>
     (ready \<longrightarrow> rl_len b = 0) \<and> length (read_bytes r) \<le> 4096 \<and> (\<not> ready \<longrightarrow> read_bytes r = [])
     \<and> (wr \<longrightarrow> w \<le> int (rl_len b + length (read_bytes r) - rl_off b)) \<and> (r = ReadData [] \<longrightarrow> False)"

lemma relay_empty_inv: "relay_inv relay_empty" "relay_pending relay_empty = []"
  by (simp_all add: relay_inv_def relay_empty_def relay_pending_def SHIM_BUF_def)

lemma shim_in_step:
  assumes "relay_inv b" and "rl_len b = 0" and "shim_in r b = Some b'" and "length (read_bytes r) \<le> 4096"
  shows "relay_inv b'" and "relay_pending b' = relay_pending b @ read_bytes r"
    and "rl_len b' = length (read_bytes r)" and "rl_off b' = rl_off b"
  using assms mem_read_write_append [of "rl_data b" 0]
  by (auto simp: shim_in_def relay_inv_def relay_pending_def read_bytes_def SHIM_BUF_def split: read_res.splits)

lemma mem_read_split: "k \<le> n \<Longrightarrow> mem_read a off n = mem_read a off k @ mem_read a (off + k) (n - k)"
  by (rule nth_equalityI) (auto simp: mem_read_def nth_append)

lemma shim_out_step:
  assumes "relay_inv b" and "w \<le> int (rl_len b - rl_off b)" and "shim_out w b = (b', out, ok)"
  shows "relay_inv b'" and "out @ relay_pending b' = relay_pending b" and "ok"
proof -
  have w: "nat w \<le> rl_len b - rl_off b" using assms(2) by simp
  show "relay_inv b'"
    using assms w by (auto simp: shim_out_def relay_inv_def SHIM_BUF_def Let_def split: if_splits)
  show "out @ relay_pending b' = relay_pending b"
    using assms(3) mem_read_split [OF w, of "rl_data b" "rl_off b"] assms(1)
    by (auto simp: shim_out_def relay_pending_def relay_inv_def Let_def split: if_splits)
  show "ok" using assms by (auto simp: shim_out_def relay_inv_def Let_def)
qed

text \<open>The bytes an iteration reads from pppd and from the modem side, and whether its system calls
  keep their contracts.\<close>

definition from_pppd :: "shim_ev \<Rightarrow> u8 list" where
  "from_pppd e = (if sh_poll e = ShimPolled \<and> sh_in0 e then read_bytes (sh_read0 e) else [])"

definition from_modem :: "shim_ev \<Rightarrow> u8 list" where
  "from_modem e = (if sh_poll e = ShimPolled \<and> \<not> (sh_in0 e \<and> sh_read0 e \<in> {ReadEof, ReadError}) \<and> sh_in1 e
     then read_bytes (sh_read1 e) else [])"

definition polite_ev :: "shim_ev \<Rightarrow> shim \<Rightarrow> bool" where
  "polite_ev e s \<longleftrightarrow> polite (sh_in0 e) (sh_read0 e) (sh_out3 e) (sh_write3 e) (sh_to_modem s)
     \<and> polite (sh_in1 e) (sh_read1 e) (sh_out2 e) (sh_write2 e) (sh_to_pppd s)"

fun polite_run :: "shim_ev list \<Rightarrow> shim \<Rightarrow> bool" where
  "polite_run [] s = True"
| "polite_run (e # es) s = (polite_ev e s \<and> (case shim_iter e s of ShimReturn r s' \<Rightarrow> True | ShimNext s' \<Rightarrow> polite_run es s'))"

fun reads :: "(shim_ev \<Rightarrow> u8 list) \<Rightarrow> shim_ev list \<Rightarrow> shim \<Rightarrow> u8 list" where
  "reads f [] s = []"
| "reads f (e # es) s = f e @ (case shim_iter e s of ShimReturn r s' \<Rightarrow> [] | ShimNext s' \<Rightarrow> reads f es s')"

definition shim_inv :: "shim \<Rightarrow> bool" where
  "shim_inv s \<longleftrightarrow> relay_inv (sh_to_pppd s) \<and> relay_inv (sh_to_modem s) \<and> \<not> sh_overread s"

text \<open>Everything that has gone towards the modem, delivered or still in the buffer; and towards pppd.\<close>

definition modem_side :: "shim \<Rightarrow> u8 list" where
  "modem_side s = sh_modem_out s @ relay_pending (sh_to_modem s)"

definition pppd_side :: "shim \<Rightarrow> u8 list" where
  "pppd_side s = sh_pppd_out s @ relay_pending (sh_to_pppd s)"

lemma polite_in:
  assumes "relay_inv b" and "polite rdy r wr w b"
    and "(if rdy then shim_in r b else Some b) = Some b'"
  shows "relay_inv b' \<and> relay_pending b' = relay_pending b @ (if rdy then read_bytes r else [])
    \<and> (wr \<longrightarrow> w \<le> int (rl_len b' - rl_off b'))"
proof (cases rdy)
  case True
  with assms have "rl_len b = 0" "shim_in r b = Some b'" "length (read_bytes r) \<le> 4096" by (simp_all add: polite_def)
  with shim_in_step [OF assms(1) this] True assms(2) show ?thesis by (simp add: polite_def)
qed (use assms in \<open>auto simp: polite_def\<close>)

lemma modem_io_step:
  assumes "shim_inv s" and "sh_out3 e \<longrightarrow> sh_write3 e \<le> int (rl_len (sh_to_modem s) - rl_off (sh_to_modem s))"
  shows "shim_inv (shim_to_modem_io e s) \<and> modem_side (shim_to_modem_io e s) = modem_side s
    \<and> pppd_side (shim_to_modem_io e s) = pppd_side s \<and> sh_to_pppd (shim_to_modem_io e s) = sh_to_pppd s"
proof (cases "rl_len (sh_to_modem s) > 0 \<and> sh_out3 e")
  case True
  obtain b out ok where o: "shim_out (sh_write3 e) (sh_to_modem s) = (b, out, ok)" by (metis prod_cases3)
  with shim_out_step [OF _ _ o] True assms show ?thesis
    by (simp add: shim_to_modem_io_def shim_inv_def modem_side_def pppd_side_def)
qed (use assms(1) in \<open>auto simp: shim_to_modem_io_def\<close>)

lemma pppd_io_step:
  assumes "shim_inv s" and "sh_out2 e \<longrightarrow> sh_write2 e \<le> int (rl_len (sh_to_pppd s) - rl_off (sh_to_pppd s))"
  shows "shim_inv (shim_to_pppd_io e s) \<and> modem_side (shim_to_pppd_io e s) = modem_side s
    \<and> pppd_side (shim_to_pppd_io e s) = pppd_side s"
proof (cases "rl_len (sh_to_pppd s) > 0 \<and> sh_out2 e")
  case True
  obtain b out ok where o: "shim_out (sh_write2 e) (sh_to_pppd s) = (b, out, ok)" by (metis prod_cases3)
  with shim_out_step [OF _ _ o] True assms show ?thesis
    by (simp add: shim_to_pppd_io_def shim_inv_def modem_side_def pppd_side_def)
qed (use assms(1) in \<open>auto simp: shim_to_pppd_io_def\<close>)

definition iter_end :: "shim_step \<Rightarrow> shim" where
  "iter_end st = (case st of ShimReturn r s \<Rightarrow> s | ShimNext s \<Rightarrow> s)"

lemma shim_iter_step:
  assumes inv: "shim_inv s" and pol: "polite_ev e s"
  shows "shim_inv (iter_end (shim_iter e s)) \<and> modem_side (iter_end (shim_iter e s)) = modem_side s @ from_pppd e
    \<and> pppd_side (iter_end (shim_iter e s)) = pppd_side s @ from_modem e"
proof (cases "sh_poll e = ShimPolled")
  case False
  then show ?thesis using inv by (cases "sh_poll e") (simp_all add: shim_iter_def iter_end_def from_pppd_def from_modem_def)
next
  case polled: True
  let ?i0 = "if sh_in0 e then shim_in (sh_read0 e) (sh_to_modem s) else Some (sh_to_modem s)"
  have ret: "sh_read0 e \<in> {ReadEof, ReadError}" if "sh_in0 e" "shim_in (sh_read0 e) b = None" for b
    using that by (auto simp: shim_in_def split: read_res.splits)
  have ret1: "sh_read1 e \<in> {ReadEof, ReadError}" if "sh_in1 e" "shim_in (sh_read1 e) b = None" for b
    using that by (auto simp: shim_in_def split: read_res.splits)
  have nret: "sh_read0 e \<notin> {ReadEof, ReadError}" if "sh_in0 e" "shim_in (sh_read0 e) b = Some b'" for b b'
    using that by (auto simp: shim_in_def split: read_res.splits)
  show ?thesis
  proof (cases ?i0)
    case None
    then have "sh_in0 e" "sh_read0 e \<in> {ReadEof, ReadError}" using ret by (auto split: if_splits)
    moreover have "shim_iter e s = ShimReturn 0 s" using None polled by (simp add: shim_iter_def)
    ultimately show ?thesis using inv polled
      by (auto simp: iter_end_def from_pppd_def from_modem_def read_bytes_def)
  next
    case (Some b0)
    from inv pol have b0: "relay_inv b0" "relay_pending b0 = relay_pending (sh_to_modem s) @ (if sh_in0 e then read_bytes (sh_read0 e) else [])"
      "sh_out3 e \<longrightarrow> sh_write3 e \<le> int (rl_len b0 - rl_off b0)"
      using polite_in [OF _ _ Some] by (auto simp: shim_inv_def polite_ev_def)
    let ?s0 = "s\<lparr>sh_to_modem := b0\<rparr>" and ?s1 = "shim_to_modem_io e (s\<lparr>sh_to_modem := b0\<rparr>)"
    have "shim_inv ?s0" using inv b0(1) by (simp add: shim_inv_def)
    note s1 = modem_io_step [OF this, of e]
    have side0: "modem_side ?s0 = modem_side s @ from_pppd e" "pppd_side ?s0 = pppd_side s"
      using b0(2) polled by (simp_all add: modem_side_def pppd_side_def from_pppd_def)
    let ?i1 = "if sh_in1 e then shim_in (sh_read1 e) (sh_to_pppd ?s1) else Some (sh_to_pppd ?s1)"
    have n0: "\<not> (sh_in0 e \<and> sh_read0 e \<in> {ReadEof, ReadError})" using Some nret by (auto split: if_splits)
    show ?thesis
    proof (cases ?i1)
      case None
      then have "sh_in1 e" "sh_read1 e \<in> {ReadEof, ReadError}" using ret1 by (auto split: if_splits)
      moreover have "shim_iter e s = ShimReturn 0 ?s1" using None Some polled by (simp add: shim_iter_def Let_def)
      ultimately show ?thesis using s1 side0 b0(3)
        by (auto simp: iter_end_def from_modem_def read_bytes_def)
    next
      case i1: (Some b1)
      have pe: "polite (sh_in1 e) (sh_read1 e) (sh_out2 e) (sh_write2 e) (sh_to_pppd ?s1)"
        using pol s1 b0(3) by (simp add: polite_ev_def)
      have r1: "relay_inv (sh_to_pppd ?s1)" using inv s1 b0(3) by (simp add: shim_inv_def)
      note b1 = polite_in [OF r1 pe i1]
      let ?s2 = "?s1\<lparr>sh_to_pppd := b1\<rparr>"
      have "shim_inv ?s2" using s1 b0(3) b1 by (simp add: shim_inv_def)
      note s2 = pppd_io_step [OF this, of e]
      have "modem_side ?s2 = modem_side s @ from_pppd e" "pppd_side ?s2 = pppd_side s @ from_modem e"
        using s1 b0(3) side0 b1 n0 polled by (auto simp: modem_side_def pppd_side_def from_modem_def)
      moreover have "shim_iter e s = ShimNext (shim_to_pppd_io e ?s2)"
        using i1 Some polled by (simp add: shim_iter_def Let_def)
      ultimately show ?thesis using s2 b1 by (simp add: iter_end_def)
    qed
  qed
qed

lemma shim_run:
  assumes "shim_inv s" and "polite_run es s"
  shows "shim_inv (snd (sm_pppd_shim_main es s))
    \<and> modem_side (snd (sm_pppd_shim_main es s)) = modem_side s @ reads from_pppd es s
    \<and> pppd_side (snd (sm_pppd_shim_main es s)) = pppd_side s @ reads from_modem es s"
  using assms
proof (induction es arbitrary: s)
  case (Cons e es)
  then have st: "shim_inv (iter_end (shim_iter e s))"
    "modem_side (iter_end (shim_iter e s)) = modem_side s @ from_pppd e"
    "pppd_side (iter_end (shim_iter e s)) = pppd_side s @ from_modem e"
    using shim_iter_step [of s e] by simp_all
  show ?case
  proof (cases "shim_iter e s")
    case (ShimReturn r s')
    with st show ?thesis by (simp add: iter_end_def)
  next
    case (ShimNext s')
    with st Cons show ?thesis by (simp add: iter_end_def)
  qed
qed simp

subsection \<open>Properties\<close>

text \<open>The argument vector always fits the 32 slots with its terminating NULL, which stands only at
  the end; the address pair comes last, and when authentication is asked for, \<open>auth\<close> comes after the
  \<open>noauth\<close> it overrides.\<close>

theorem pppd_argv_fits:
  "length (pppd_argv cfg) \<le> 26 \<and> last (pppd_argv cfg) = None \<and> None \<notin> set (butlast (pppd_argv cfg))
   \<and> last (butlast (pppd_argv cfg)) = Some (snprintf 128 (pc_local_ip cfg @ '':'' @ pc_peer_ip cfg))
   \<and> pppd_argv cfg ! 3 = Some ''noauth''
   \<and> (if pc_auth cfg then take 3 (drop 13 (pppd_argv cfg)) = [Some ''auth'', Some ''+pap'', Some ''-chap''] else True)"
proof -
  have o: "length (opt_arg n v) \<le> 2" for n v by (simp add: opt_arg_def split: option.split)
  have len: "length (pppd_args cfg) \<le> 25"
    using o [of "''ms-dns''" "pc_dns1 cfg"] o [of "''ms-dns''" "pc_dns2 cfg"]
      o [of "''ip-up-script''" "pc_ip_up_script cfg"] o [of "''ip-down-script''" "pc_ip_down_script cfg"]
    by (simp add: pppd_args_def Let_def)
  show ?thesis
    using len by (simp add: pppd_argv_def butlast_append) (simp add: pppd_args_def Let_def eval_nat_numeral)
qed

text \<open>C19: with back-pressure the relay loses nothing and reorders nothing: as long as the system calls
  keep their contracts and input is reported only when it was asked for, what has been written to each
  side plus what waits in its buffer is exactly what was read from the other, and no write is offered
  bytes outside the buffer.\<close>

theorem shim_relays_in_order:
  assumes "polite_run es shim_start"
  shows "\<not> sh_overread (snd (sm_pppd_shim_main es shim_start))
    \<and> sh_modem_out (snd (sm_pppd_shim_main es shim_start))
        @ relay_pending (sh_to_modem (snd (sm_pppd_shim_main es shim_start))) = reads from_pppd es shim_start
    \<and> sh_pppd_out (snd (sm_pppd_shim_main es shim_start))
        @ relay_pending (sh_to_pppd (snd (sm_pppd_shim_main es shim_start))) = reads from_modem es shim_start"
proof -
  have "shim_inv shim_start" "modem_side shim_start = []" "pppd_side shim_start = []"
    by (simp_all add: shim_start_def shim_inv_def modem_side_def pppd_side_def relay_empty_inv)
  with shim_run [OF this(1) assms] show ?thesis by (simp add: shim_inv_def modem_side_def pppd_side_def)
qed

definition relay_ev :: "bool \<Rightarrow> read_res \<Rightarrow> bool \<Rightarrow> int \<Rightarrow> shim_ev" where
  "relay_ev rdy r wr w = \<lparr>sh_poll = ShimPolled, sh_in0 = rdy, sh_read0 = r, sh_out3 = wr, sh_write3 = w,
     sh_in1 = False, sh_read1 = ReadRetry, sh_out2 = False, sh_write2 = 0\<rparr>"

theorem shim_relays_in_order_witness:
  "sh_modem_out (snd (sm_pppd_shim_main [relay_ev True (ReadData [1, 2, 3]) True 2, relay_ev False ReadRetry True 1] shim_start)) = [1, 2, 3]"
proof -
  let ?es = "[relay_ev True (ReadData [1, 2, 3]) True 2, relay_ev False ReadRetry True 1]"
  have "polite_run ?es shim_start" by code_simp
  note r = shim_relays_in_order [OF this]
  have "reads from_pppd ?es shim_start = [1, 2, 3]" by code_simp
  moreover have "relay_pending (sh_to_modem (snd (sm_pppd_shim_main ?es shim_start))) = []" by code_simp
  ultimately show ?thesis using r by simp
qed

text \<open>C31: a hang-up is reported even when no input was asked for. Bytes read then, with others still
  waiting, are dropped when they do not fit, yet counted: the following \<open>write\<close> is offered bytes beyond
  the end of the buffer.\<close>

theorem shim_hangup_overreads:
  assumes "rl_len (sh_to_modem s) + length xs > SHIM_BUF" and "xs \<noteq> []"
    and "e = relay_ev True (ReadData xs) True w" and "0 \<le> w"
  shows "\<exists>s'. shim_iter e s = ShimNext s' \<and> sh_overread s'
    \<and> sh_modem_out s' = sh_modem_out s @ mem_read (rl_data (sh_to_modem s)) (rl_off (sh_to_modem s)) (nat w)"
  using assms by (auto simp: relay_ev_def shim_iter_def shim_in_def shim_to_modem_io_def shim_to_pppd_io_def
      shim_out_def Let_def)

theorem shim_hangup_overreads_witness:
  "\<exists>s'. shim_iter (relay_ev True (ReadData (replicate 300 7)) True 0)
          (shim_start\<lparr>sh_to_modem := relay_empty\<lparr>rl_len := 8000\<rparr>\<rparr>) = ShimNext s' \<and> sh_overread s'"
  using shim_hangup_overreads [of "shim_start\<lparr>sh_to_modem := relay_empty\<lparr>rl_len := 8000\<rparr>\<rparr>" "replicate 300 7" _ 0]
  by (auto simp: SHIM_BUF_def)

end
