(* ===== verification/V22_Tx.thy ===== *)
theory V22_Tx
  imports Prelude
begin

text \<open>
  The V.22bis transmitter of \<open>src/src/modem/v22bis/v22bis_tx.c\<close> and the modem's state. Floating
  point is a parameter: the record \<open>fp\<close> holds the operations on \<open>float\<close> (type \<open>'f\<close>) and \<open>double\<close> (type
  \<open>'d\<close>) the code uses, and the generated filter tables, so that what is proved holds for IEEE
  arithmetic. The callbacks act on the user data, a value of type \<open>'u\<close> threaded through.
\<close>

record ('f, 'd) fp =
  fp_add :: "'f \<Rightarrow> 'f \<Rightarrow> 'f"
  fp_sub :: "'f \<Rightarrow> 'f \<Rightarrow> 'f"
  fp_mul :: "'f \<Rightarrow> 'f \<Rightarrow> 'f"
  fp_div :: "'f \<Rightarrow> 'f \<Rightarrow> 'f"
  fp_less :: "'f \<Rightarrow> 'f \<Rightarrow> bool"
  fp_neg :: "'f \<Rightarrow> 'f"
  fp_le :: "'f \<Rightarrow> 'f \<Rightarrow> bool"
  fp_eq :: "'f \<Rightarrow> 'f \<Rightarrow> bool"
  fp_lit :: "int \<Rightarrow> int \<Rightarrow> 'f"
  fp_of_int :: "int \<Rightarrow> 'f"
  fp_to_int :: "'f \<Rightarrow> int"
  fp_lrint :: "'f \<Rightarrow> int"
  fp_cos :: "'f \<Rightarrow> 'f"
  fp_sin :: "'f \<Rightarrow> 'f"
  fp_sqrt :: "'f \<Rightarrow> 'f"
  fp_pow10 :: "'f \<Rightarrow> 'f"
  dp_add :: "'d \<Rightarrow> 'd \<Rightarrow> 'd"
  dp_sub :: "'d \<Rightarrow> 'd \<Rightarrow> 'd"
  dp_mul :: "'d \<Rightarrow> 'd \<Rightarrow> 'd"
  dp_div :: "'d \<Rightarrow> 'd \<Rightarrow> 'd"
  dp_less :: "'d \<Rightarrow> 'd \<Rightarrow> bool"
  dp_lit :: "int \<Rightarrow> int \<Rightarrow> 'd"
  dp_of_f :: "'f \<Rightarrow> 'd"
  dp_to_f :: "'d \<Rightarrow> 'f"
  dp_exp :: "'d \<Rightarrow> 'd"
  dp_pow10 :: "'d \<Rightarrow> 'd"
  tab_tx :: "nat \<Rightarrow> nat \<Rightarrow> 'f"
  tab_1200_re :: "nat \<Rightarrow> nat \<Rightarrow> 'f"
  tab_1200_im :: "nat \<Rightarrow> nat \<Rightarrow> 'f"
  tab_2400_re :: "nat \<Rightarrow> nat \<Rightarrow> 'f"
  tab_2400_im :: "nat \<Rightarrow> nat \<Rightarrow> 'f"

datatype v22_status = TrainingSucceeded | TrainingFailed | CarrierUp | CarrierDown | RetrainOccurred

datatype rx_training = RxNormal | RxSymbolAcquisition | RxUnscrambledOnes | RxUnscrambledOnesSustaining
  | RxScrambledOnes1200 | RxScrambledOnes1200Sustaining | RxWaitScrambledOnes2400 | RxParked

datatype tx_training = TxNormal | TxInitialSilence | TxInitialTimedSilence | TxU11 | TxU0011 | TxS11
  | TxTimedS11 | TxS1111 | TxParked

record 'u v22_cb =
  cb_get :: "'u \<Rightarrow> int \<times> 'u"
  cb_put :: "(int \<Rightarrow> 'u \<Rightarrow> 'u) option"
  cb_status :: "(v22_status \<Rightarrow> 'u \<Rightarrow> 'u) option"

record ('f, 'd) v22 =
  v_bit_rate :: int
  v_options :: int
  v_calling :: bool
  v_negotiated :: int
  r_rrc_filter_step :: nat
  r_scramble_reg :: u32
  r_pattern_count :: int
  r_training :: rx_training
  r_training_count :: int
  r_signal_present :: bool
  r_carrier_phase :: u32
  r_carrier_rate :: u32
  r_power :: 'd
  r_decay :: 'd
  r_on_power :: 'd
  r_off_power :: 'd
  r_constellation :: nat
  r_agc :: 'f
  r_rrc_filter :: "nat \<Rightarrow> 'f"
  r_eq_delta :: 'f
  r_eq_coeff :: "nat \<Rightarrow> 'f \<times> 'f"
  r_eq_buf :: "nat \<Rightarrow> 'f \<times> 'f"
  r_track_p :: 'f
  r_track_i :: 'f
  r_down_count :: int
  r_eq_step :: nat
  r_eq_put_step :: int
  r_gardner_integrate :: int
  r_gardner_step :: int
  r_timing_correction :: int
  r_baud_phase :: nat
  r_sixteen_way :: bool
  r_pattern_repeats :: int
  r_last_raw :: nat
  r_raw_history :: u64
  r_raw_hist_count :: int
  t_guard_gain :: 'f
  t_gain :: 'f
  t_rrc_re :: "nat \<Rightarrow> 'f"
  t_rrc_im :: "nat \<Rightarrow> 'f"
  t_rrc_step :: nat
  t_scramble_reg :: u32
  t_pattern_count :: int
  t_training :: tx_training
  t_training_count :: int
  t_carrier_phase :: u32
  t_carrier_rate :: u32
  t_guard_phase :: u32
  t_guard_rate :: u32
  t_baud_phase :: nat
  t_constellation :: nat
  t_shutdown :: int
  t_fake_get :: bool

definition V22BIS_TX_FILTER_STEPS :: nat where "V22BIS_TX_FILTER_STEPS = 9"
definition V22BIS_TX_PHASES :: nat where "V22BIS_TX_PHASES = 40"
definition V22BIS_TX_PHASE_STEP :: nat where "V22BIS_TX_PHASE_STEP = 3"

definition ms_to_symbols :: "int \<Rightarrow> int" where
  "ms_to_symbols t = c_div (t * 600) 1000"

text \<open>The quadrant code's phase advance and the 16 points; indices are what the code computes.\<close>

definition phase_steps :: "nat \<Rightarrow> nat" where
  "phase_steps b = [1, 0, 2, 3] ! b"

definition v22bis_constellation :: "nat \<Rightarrow> int \<times> int" where
  "v22bis_constellation k =
     [(1, 1), (3, 1), (1, 3), (3, 3), (-1, 1), (-1, 3), (-3, 1), (-3, 3),
      (-1, -1), (-3, -1), (-1, -3), (-3, -3), (1, -1), (1, -3), (3, -1), (3, -3)] ! k"

definition report_status :: "'u v22_cb \<Rightarrow> v22_status \<Rightarrow> 'u \<Rightarrow> 'u" where
  "report_status cb st u = (case cb_status cb of None \<Rightarrow> u | Some f \<Rightarrow> f st u)"

definition fake_get_bit :: int where
  "fake_get_bit = 1"

subsection \<open>The scrambler\<close>

definition scramble :: "int \<Rightarrow> ('f, 'd) v22 \<Rightarrow> nat \<times> ('f, 'd) v22" where
  "scramble bt0 s0 =
     (let (bt, s) = (if t_pattern_count s0 \<ge> 64 then (bt0 XOR 1, s0\<lparr>t_pattern_count := 0\<rparr>) else (bt0, s0));
          reg = t_scramble_reg s;
          out = (word_of_int bt XOR drop_bit 13 reg XOR drop_bit 16 reg) AND 1
      in (unat out,
          s\<lparr>t_scramble_reg := push_bit 1 reg OR out,
            t_pattern_count := (if out = 1 then t_pattern_count s + 1 else 0)\<rparr>))"

definition get_scrambled_bit :: "'u v22_cb \<Rightarrow> ('f, 'd) v22 \<times> 'u \<Rightarrow> nat \<times> ('f, 'd) v22 \<times> 'u" where
  "get_scrambled_bit cb su =
     (case su of (s, u) \<Rightarrow>
       (let (bt, u1) = (if t_fake_get s then (fake_get_bit, u) else cb_get cb u);
            (bt1, s1) = (if bt = -1 then (1, s\<lparr>t_fake_get := True, t_shutdown := 1\<rparr>) else (bt, s));
            (out, s2) = scramble bt1 s1
        in (out, s2, u1)))"

text \<open>Two scrambled bits, the first the more significant.\<close>

definition get_dibit :: "'u v22_cb \<Rightarrow> ('f, 'd) v22 \<times> 'u \<Rightarrow> nat \<times> ('f, 'd) v22 \<times> 'u" where
  "get_dibit cb su =
     (let (a, su1) = get_scrambled_bit cb su; (b, su2) = get_scrambled_bit cb su1 in (2 * a + b, su2))"

definition scramble_ones :: "('f, 'd) v22 \<Rightarrow> nat \<times> ('f, 'd) v22" where
  "scramble_ones s = (let (a, s1) = scramble 1 s; (b, s2) = scramble 1 s1 in (2 * a + b, s2))"

definition advance :: "nat \<Rightarrow> ('f, 'd) v22 \<Rightarrow> ('f, 'd) v22" where
  "advance bits s = s\<lparr>t_constellation := (t_constellation s + phase_steps bits) mod 4\<rparr>"

definition point :: "nat \<Rightarrow> ('f, 'd) v22 \<Rightarrow> int \<times> int" where
  "point bits s = v22bis_constellation (4 * t_constellation s + bits)"

definition tx_normal :: "'u v22_cb \<Rightarrow> ('f, 'd) v22 \<times> 'u \<Rightarrow> ('f, 'd) v22 \<times> 'u" where
  "tx_normal cb su =
     (case su of (s, u) \<Rightarrow> (s\<lparr>t_training_count := 0, t_training := TxNormal, t_fake_get := False\<rparr>,
        report_status cb TrainingSucceeded u))"

text \<open>The scrambled ones of S11 and TIMED-S11, four phases.\<close>

definition send_s11 :: "('f, 'd) v22 \<times> 'u \<Rightarrow> (int \<times> int) \<times> ('f, 'd) v22 \<times> 'u" where
  "send_s11 su =
     (case su of (s, u) \<Rightarrow>
       (let (bits, s1) = scramble_ones s; s2 = advance bits s1 in (point 1 s2, s2, u)))"

definition training_get :: "'u v22_cb \<Rightarrow> ('f, 'd) v22 \<times> 'u \<Rightarrow> (int \<times> int) \<times> ('f, 'd) v22 \<times> 'u" where
  "training_get cb su =
     (case su of (s, u) \<Rightarrow>
       (let count = t_training_count s + 1;
            sc = s\<lparr>t_training_count := count\<rparr>
        in case t_training s of
             TxInitialTimedSilence \<Rightarrow>
               (let s1 = (if count \<ge> ms_to_symbols 75
                          then sc\<lparr>t_training_count := 0, t_training := TxU11\<rparr> else sc)
                in ((0, 0), s1\<lparr>t_constellation := 0\<rparr>, u))
           | TxInitialSilence \<Rightarrow> ((0, 0), s\<lparr>t_constellation := 0\<rparr>, u)
           | TxU11 \<Rightarrow> (let s1 = advance 3 s in (point 1 s1, s1, u))
           | TxU0011 \<Rightarrow>
               (let s1 = advance (3 * (nat (t_training_count s) mod 2)) sc;
                    s2 = (if count \<ge> ms_to_symbols 100
                          then (if v_calling s1 then s1\<lparr>t_training_count := 0, t_training := TxS11\<rparr>
                                else s1\<lparr>t_training_count := ms_to_symbols (756 - (600 - 100)),
                                        t_training := TxTimedS11\<rparr>)
                          else s1)
                in (point 1 s2, s2, u))
           | TxTimedS11 \<Rightarrow>
               send_s11 (if count \<ge> ms_to_symbols 756
                         then (if v_negotiated sc = 2400
                               then (sc\<lparr>t_training_count := 0, t_training := TxS1111\<rparr>, u)
                               else tx_normal cb (sc, u))
                         else (sc, u))
           | TxS11 \<Rightarrow> send_s11 (s, u)
           | TxS1111 \<Rightarrow>
               (let (bits0, s1) = scramble_ones s;
                    s2 = advance bits0 s1;
                    (bits, s3) = scramble_ones s2;
                    s4 = s3\<lparr>t_training_count := count\<rparr>;
                    (s5, u1) = (if count \<ge> ms_to_symbols 200 then tx_normal cb (s4, u) else (s4, u))
                in (point bits s5, s5, u1))
           | _ \<Rightarrow> ((0, 0), s, u)))"

definition getbaud :: "'u v22_cb \<Rightarrow> ('f, 'd) v22 \<times> 'u \<Rightarrow> (int \<times> int) \<times> ('f, 'd) v22 \<times> 'u" where
  "getbaud cb su =
     (case su of (s, u) \<Rightarrow>
       if t_training s \<noteq> TxNormal then training_get cb (s, u)
       else (let s0 = (if t_shutdown s \<noteq> 0 then s\<lparr>t_shutdown := t_shutdown s + 1\<rparr> else s)
             in if t_shutdown s \<noteq> 0 \<and> t_shutdown s0 > 10 then ((0, 0), s0, u)
                else (let (bits0, s1, u1) = get_dibit cb (s0, u);
                          s2 = advance bits0 s1;
                          (bits, s3, u3) = (if v_negotiated s2 = 1200 then (1, s2, u1) else get_dibit cb (s2, u1))
                      in (point bits s3, s3, u3))))"

subsection \<open>Samples\<close>

text \<open>\<open>sm_sat16\<close>: saturation, and rounding of what is in range.\<close>

definition sm_sat16 :: "('f, 'd) fp \<Rightarrow> 'f \<Rightarrow> int" where
  "sm_sat16 F x =
     (if fp_le F (fp_lit F 32767 1) x then 32767
      else if fp_le F x (fp_lit F (-32768) 1) then -32768
      else sint (word_of_int (fp_lrint F x) :: 16 word))"

definition dds_phase :: "('f, 'd) fp \<Rightarrow> u32 \<Rightarrow> 'f" where
  "dds_phase F phase =
     dp_to_f F (dp_mul F (dp_of_f F (fp_of_int F (uint phase)))
       (dp_div F (dp_lit F 628318530717958647692 100000000000000000000) (dp_lit F 4294967296 1)))"

definition sm_dds_complex :: "('f, 'd) fp \<Rightarrow> u32 \<Rightarrow> 'f \<times> 'f" where
  "sm_dds_complex F phase = (fp_cos F (dds_phase F phase), fp_sin F (dds_phase F phase))"

text \<open>Phase rate of a frequency: \<open>(int32_t) (freq / 8000.0f * 4294967296.0f)\<close>.\<close>

definition dds_rate :: "('f, 'd) fp \<Rightarrow> 'f \<Rightarrow> u32" where
  "dds_rate F freq = word_of_int (fp_to_int F (fp_mul F (fp_div F freq (fp_of_int F 8000)) (fp_lit F 4294967296 1)))"

fun mac :: "('f, 'd) fp \<Rightarrow> (nat \<Rightarrow> 'f) \<Rightarrow> (nat \<Rightarrow> 'f) \<Rightarrow> nat \<Rightarrow> nat \<Rightarrow> nat \<Rightarrow> nat \<Rightarrow> 'f \<Rightarrow> 'f" where
  "mac F buf cf len 0 i step acc = acc"
| "mac F buf cf len (Suc n) i step acc =
     mac F buf cf len n (Suc i) (if Suc step \<ge> len then 0 else Suc step)
       (fp_add F acc (fp_mul F (buf step) (cf i)))"

text \<open>The start of a sample: 3 fortieths of a symbol on, a new point enters the delay lines when the
  symbol is over.\<close>

definition tx_symbol :: "('f, 'd) fp \<Rightarrow> 'u v22_cb \<Rightarrow> ('f, 'd) v22 \<times> 'u \<Rightarrow> ('f, 'd) v22 \<times> 'u" where
  "tx_symbol F cb su =
     (case su of (s0, u0) \<Rightarrow>
       (let s1 = s0\<lparr>t_baud_phase := t_baud_phase s0 + V22BIS_TX_PHASE_STEP\<rparr>
        in if t_baud_phase s1 \<ge> V22BIS_TX_PHASES
           then (let ((re, im), s, u) = getbaud cb (s1\<lparr>t_baud_phase := t_baud_phase s1 - V22BIS_TX_PHASES\<rparr>, u0)
                 in (s\<lparr>t_rrc_re := (t_rrc_re s)(t_rrc_step s := fp_of_int F re),
                        t_rrc_im := (t_rrc_im s)(t_rrc_step s := fp_of_int F im),
                        t_rrc_step := (if Suc (t_rrc_step s) \<ge> V22BIS_TX_FILTER_STEPS then 0
                                       else Suc (t_rrc_step s))\<rparr>, u))
           else (s1, u0)))"

text \<open>Pulse shaping, modulation, and the guard tone while symbols are present.\<close>

definition tx_modulate :: "('f, 'd) fp \<Rightarrow> ('f, 'd) v22 \<Rightarrow> int \<times> ('f, 'd) v22" where
  "tx_modulate F s =
     (let cf = tab_tx F (40 - 1 - t_baud_phase s);
          x_re = mac F (t_rrc_re s) cf V22BIS_TX_FILTER_STEPS V22BIS_TX_FILTER_STEPS 0 (t_rrc_step s) (fp_lit F 0 1);
          x_im = mac F (t_rrc_im s) cf V22BIS_TX_FILTER_STEPS V22BIS_TX_FILTER_STEPS 0 (t_rrc_step s) (fp_lit F 0 1);
          (z_re, z_im) = sm_dds_complex F (t_carrier_phase s);
          famp0 = fp_mul F (fp_sub F (fp_mul F x_re z_re) (fp_mul F x_im z_im)) (t_gain s);
          nz = (\<lambda>x. \<not> fp_eq F x (fp_lit F 0 1));
          guard = (t_guard_rate s \<noteq> 0 \<and> (nz (t_rrc_re s (t_rrc_step s)) \<or> nz (t_rrc_im s (t_rrc_step s))));
          famp = (if guard then fp_add F famp0 (fp_mul F (t_guard_gain s) (fp_cos F (dds_phase F (t_guard_phase s))))
                  else famp0)
      in (sm_sat16 F famp,
          s\<lparr>t_guard_phase := (if guard then t_guard_phase s + t_guard_rate s else t_guard_phase s),
            t_carrier_phase := t_carrier_phase s + t_carrier_rate s\<rparr>))"

definition tx_sample :: "('f, 'd) fp \<Rightarrow> 'u v22_cb \<Rightarrow> ('f, 'd) v22 \<times> 'u \<Rightarrow> int \<times> ('f, 'd) v22 \<times> 'u" where
  "tx_sample F cb su =
     (let (s1, u1) = tx_symbol F cb su; (a, s2) = tx_modulate F s1 in (a, s2, u1))"

fun tx_samples :: "('f, 'd) fp \<Rightarrow> 'u v22_cb \<Rightarrow> nat \<Rightarrow> ('f, 'd) v22 \<times> 'u \<Rightarrow> int list \<times> ('f, 'd) v22 \<times> 'u" where
  "tx_samples F cb 0 su = ([], su)"
| "tx_samples F cb (Suc n) su =
     (let (a, su1) = tx_sample F cb su; (as, su2) = tx_samples F cb n su1 in (a # as, su2))"

text \<open>Returns the samples written; their number is the result of the function.\<close>

definition v22bis_tx :: "('f, 'd) fp \<Rightarrow> 'u v22_cb \<Rightarrow> nat \<Rightarrow> ('f, 'd) v22 \<times> 'u \<Rightarrow> int list \<times> ('f, 'd) v22 \<times> 'u" where
  "v22bis_tx F cb len su = (if t_shutdown (fst su) > 10 then ([], su) else tx_samples F cb len su)"

definition v22bis_tx_power :: "('f, 'd) fp \<Rightarrow> 'f \<Rightarrow> ('f, 'd) v22 \<Rightarrow> ('f, 'd) v22" where
  "v22bis_tx_power F pw s =
     (let gain = (\<lambda>p. fp_mul F (fp_pow10 F (fp_div F p (fp_lit F 20 1))) (fp_lit F 32768 1));
          (sig, guard) =
            (if t_guard_rate s = dds_rate F (fp_lit F 550 1)
             then (let sp = fp_sub F pw (fp_lit F 1 1)
                   in (sp, gain (fp_sub F (fp_sub F sp (fp_lit F 3 1)) (fp_lit F 314 100))))
             else if t_guard_rate s = dds_rate F (fp_lit F 1800 1)
             then (let sp = fp_sub F pw (fp_lit F 55 100)
                   in (sp, gain (fp_sub F (fp_sub F sp (fp_lit F 6 1)) (fp_lit F 314 100))))
             else (pw, fp_lit F 0 1))
      in s\<lparr>t_guard_gain := guard,
           t_gain := fp_mul F (fp_mul F (fp_lit F 4490 10000)
              (fp_pow10 F (fp_div F (fp_sub F sig (fp_lit F 314 100)) (fp_lit F 20 1)))) (fp_lit F 32768 1)\<rparr>)"

subsection \<open>Resets\<close>

definition equalizer_reset :: "('f, 'd) fp \<Rightarrow> ('f, 'd) v22 \<Rightarrow> ('f, 'd) v22" where
  "equalizer_reset F s =
     s\<lparr>r_eq_coeff := (\<lambda>i. if i = 8 then (fp_lit F 3 1, fp_lit F 0 1)
                           else if i < 17 then (fp_lit F 0 1, fp_lit F 0 1) else r_eq_coeff s i),
       r_eq_buf := (\<lambda>i. if i < 17 then (fp_lit F 0 1, fp_lit F 0 1) else r_eq_buf s i),
       r_eq_delta := fp_div F (fp_lit F 25 100) (fp_of_int F 17),
       r_eq_put_step := 20 - 1, r_eq_step := 0\<rparr>"

definition power_meter_level_dbm0 :: "('f, 'd) fp \<Rightarrow> 'f \<Rightarrow> 'd" where
  "power_meter_level_dbm0 F level0 =
     (let l1 = fp_sub F level0 (fp_lit F 616 100);
          l2 = (if fp_less F (fp_lit F 0 1) l1 then fp_lit F 0 1 else l1)
      in dp_mul F (dp_pow10 F (dp_of_f F (fp_div F l2 (fp_lit F 10 1))))
           (dp_mul F (dp_lit F 32767 1) (dp_lit F 32767 1)))"

definition v22bis_rx_set_signal_cutoff :: "('f, 'd) fp \<Rightarrow> 'f \<Rightarrow> ('f, 'd) v22 \<Rightarrow> ('f, 'd) v22" where
  "v22bis_rx_set_signal_cutoff F cutoff s =
     s\<lparr>r_on_power := dp_mul F (power_meter_level_dbm0 F (fp_add F cutoff (fp_lit F 25 10))) (dp_of_f F (fp_lit F 232 1000)),
       r_off_power := dp_mul F (power_meter_level_dbm0 F (fp_sub F cutoff (fp_lit F 25 10))) (dp_of_f F (fp_lit F 232 1000))\<rparr>"

definition sm_power_meter_init :: "('f, 'd) fp \<Rightarrow> 'd \<Rightarrow> ('f, 'd) v22 \<Rightarrow> ('f, 'd) v22" where
  "sm_power_meter_init F tc s =
     s\<lparr>r_power := dp_lit F 0 1,
       r_decay := dp_exp F (dp_div F (dp_lit F (-1) 1) (dp_mul F tc (dp_lit F 8000 1)))\<rparr>"

definition v22bis_rx_restart :: "('f, 'd) fp \<Rightarrow> ('f, 'd) v22 \<Rightarrow> ('f, 'd) v22" where
  "v22bis_rx_restart F s =
     (let s1 = s\<lparr>r_rrc_filter := (\<lambda>i. if i < 27 then fp_lit F 0 1 else r_rrc_filter s i),
                 r_rrc_filter_step := 0, r_scramble_reg := 0, r_pattern_count := 0,
                 r_training := RxSymbolAcquisition, r_training_count := 0, r_signal_present := False,
                 r_carrier_rate := dds_rate F (if v_calling s then fp_lit F 2400 1 else fp_lit F 1200 1),
                 r_carrier_phase := 0\<rparr>;
          s2 = v22bis_rx_set_signal_cutoff F (fp_lit F (-455) 10) (sm_power_meter_init F (dp_lit F 4 1000) s1);
          s3 = s2\<lparr>r_agc := fp_mul F (fp_lit F 5 10000) (fp_lit F 25 1000), r_constellation := 0,
                  r_sixteen_way := False, r_down_count := 0\<rparr>
      in (equalizer_reset F s3)\<lparr>r_pattern_repeats := 0, r_last_raw := 0, r_raw_history := 0,
            r_raw_hist_count := 0, r_gardner_integrate := 0, r_gardner_step := 256, r_baud_phase := 0,
            r_timing_correction := 0,
            r_track_i := (if v_calling s then fp_lit F 8000 1 else fp_lit F 40000 1),
            r_track_p := fp_lit F 8000000 1, v_negotiated := 1200\<rparr>)"

definition v22bis_restart :: "('f, 'd) fp \<Rightarrow> ('f, 'd) v22 \<Rightarrow> ('f, 'd) v22" where
  "v22bis_restart F s =
     (let s1 = s\<lparr>t_rrc_re := (\<lambda>i. if i < 9 then fp_lit F 0 1 else t_rrc_re s i),
                 t_rrc_im := (\<lambda>i. if i < 9 then fp_lit F 0 1 else t_rrc_im s i),
                 t_rrc_step := 0, t_scramble_reg := 0, t_pattern_count := 0,
                 t_training := (if v_calling s then TxInitialSilence else TxInitialTimedSilence),
                 t_training_count := 0, t_carrier_phase := 0, t_guard_phase := 0, t_baud_phase := 0,
                 t_constellation := 0, t_fake_get := True, t_shutdown := 0,
                 t_carrier_rate := dds_rate F (if v_calling s then fp_lit F 1200 1 else fp_lit F 2400 1),
                 t_guard_gain := fp_lit F 0 1\<rparr>;
          s2 = v22bis_tx_power F (fp_lit F (-14) 1) s1
      in v22bis_rx_restart F (s2\<lparr>v_negotiated := 1200\<rparr>))"

definition v22_zero :: "('f, 'd) fp \<Rightarrow> bool \<Rightarrow> int \<Rightarrow> ('f, 'd) v22" where
  "v22_zero F calling rate =
     (let z = fp_lit F 0 1; d = dp_lit F 0 1
      in \<lparr>v_bit_rate = rate, v_options = 0, v_calling = calling, v_negotiated = 1200,
          r_rrc_filter_step = 0, r_scramble_reg = 0, r_pattern_count = 0, r_training = RxNormal,
          r_training_count = 0, r_signal_present = False, r_carrier_phase = 0, r_carrier_rate = 0,
          r_power = d, r_decay = d, r_on_power = d, r_off_power = d, r_constellation = 0, r_agc = z,
          r_rrc_filter = (\<lambda>_. z), r_eq_delta = z, r_eq_coeff = (\<lambda>_. (z, z)), r_eq_buf = (\<lambda>_. (z, z)),
          r_track_p = z, r_track_i = z, r_down_count = 0, r_eq_step = 0, r_eq_put_step = 0,
          r_gardner_integrate = 0, r_gardner_step = 0, r_timing_correction = 0, r_baud_phase = 0,
          r_sixteen_way = False, r_pattern_repeats = 0, r_last_raw = 0, r_raw_history = 0,
          r_raw_hist_count = 0, t_guard_gain = z, t_gain = z, t_rrc_re = (\<lambda>_. z), t_rrc_im = (\<lambda>_. z),
          t_rrc_step = 0, t_scramble_reg = 0, t_pattern_count = 0, t_training = TxNormal,
          t_training_count = 0, t_carrier_phase = 0, t_carrier_rate = 0, t_guard_phase = 0,
          t_guard_rate = 0, t_baud_phase = 0, t_constellation = 0, t_shutdown = 0, t_fake_get = False\<rparr>)"

text \<open>\<open>options\<close> is 0 after the clearing, so no guard tone is ever chosen here.\<close>

definition v22bis_init :: "('f, 'd) fp \<Rightarrow> bool \<Rightarrow> int \<Rightarrow> ('f, 'd) v22" where
  "v22bis_init F calling rate =
     (let s = v22_zero F calling rate;
          opt = v_options s AND 0xFF;
          s1 = (if \<not> calling
                then s\<lparr>t_guard_rate := (if opt = 1 then dds_rate F (fp_lit F 550 1)
                                        else if opt = 2 then dds_rate F (fp_lit F 1800 1) else 0)\<rparr>
                else s)
      in v22bis_restart F s1)"

definition v22bis_set_bit_rate :: "('f, 'd) fp \<Rightarrow> int \<Rightarrow> ('f, 'd) v22 \<Rightarrow> ('f, 'd) v22" where
  "v22bis_set_bit_rate F rate s = v22bis_restart F (s\<lparr>v_bit_rate := rate\<rparr>)"

end
