(* ===== verification/V22_Rx.thy ===== *)
theory V22_Rx
  imports V22_Tx
begin

text \<open>
  The V.22bis receiver of \<open>src/src/modem/v22bis/v22bis_rx.c\<close> on the state of \<open>V22_Tx\<close>: descrambler,
  slicers, equaliser, carrier and symbol timing loops, the training state machine and the sample
  loop. Arithmetic is the parameter \<open>F\<close>; tables of constants that are integers are integers here.
\<close>

definition V22BIS_EQUALIZER_LEN :: nat where "V22BIS_EQUALIZER_LEN = 17"
definition V22BIS_RX_FILTER_STEPS :: nat where "V22BIS_RX_FILTER_STEPS = 27"
definition V22BIS_RX_COEFF_SETS :: int where "V22BIS_RX_COEFF_SETS = 12"

text \<open>Index of the point closest to an integer cell, by real and imaginary part.\<close>

definition space_map_v22bis :: "nat \<Rightarrow> nat \<Rightarrow> nat" where
  "space_map_v22bis re im =
     [[11, 9, 9, 6, 6, 7],
      [10, 8, 8, 4, 4, 5],
      [10, 8, 8, 4, 4, 5],
      [13, 12, 12, 0, 0, 2],
      [13, 12, 12, 0, 0, 2],
      [15, 14, 14, 1, 1, 3]] ! re ! im"

subsection \<open>Descrambler and data output\<close>

definition descramble :: "nat \<Rightarrow> ('f, 'd) v22 \<Rightarrow> nat \<times> ('f, 'd) v22" where
  "descramble bt0 s =
     (let bt = of_nat bt0 AND 1;
          reg = r_scramble_reg s;
          out = (bt XOR drop_bit 13 reg XOR drop_bit 16 reg) AND 1;
          flip = r_pattern_count s \<ge> 64;
          out1 = (if flip then out XOR 1 else out);
          count = (if flip then 0 else r_pattern_count s)
      in (unat out1,
          s\<lparr>r_scramble_reg := push_bit 1 reg OR bt,
            r_pattern_count := (if bt \<noteq> 0 then count + 1 else 0)\<rparr>))"

definition put_bit :: "'u v22_cb \<Rightarrow> nat \<Rightarrow> ('f, 'd) v22 \<times> 'u \<Rightarrow> ('f, 'd) v22 \<times> 'u" where
  "put_bit cb bt su =
     (case su of (s, u) \<Rightarrow>
       (case cb_put cb of
          None \<Rightarrow> (s, u)
        | Some f \<Rightarrow> (let (b, s1) = descramble bt s in (s1, f (int b) u))))"

text \<open>The quadrant code between the last point and this one.\<close>

definition quadrant_code :: "nat \<Rightarrow> ('f, 'd) v22 \<Rightarrow> nat" where
  "quadrant_code nearest s = phase_steps ((4 + nearest div 4 - r_constellation s div 4) mod 4)"

definition decode_baud :: "'u v22_cb \<Rightarrow> nat \<Rightarrow> ('f, 'd) v22 \<times> 'u \<Rightarrow> ('f, 'd) v22 \<times> 'u" where
  "decode_baud cb nearest su =
     (case su of (s, u) \<Rightarrow>
       (let raw = quadrant_code nearest s;
            su1 = put_bit cb (raw mod 2) (put_bit cb (raw div 2) (s\<lparr>r_constellation := nearest\<rparr>, u))
        in if r_sixteen_way (fst su1)
           then put_bit cb (nearest mod 2) (put_bit cb (nearest div 2) su1) else su1))"

definition decode_baudx :: "nat \<Rightarrow> ('f, 'd) v22 \<Rightarrow> nat \<times> ('f, 'd) v22" where
  "decode_baudx nearest s =
     (let raw = quadrant_code nearest s;
          (a, s1) = descramble (raw div 2) (s\<lparr>r_constellation := nearest\<rparr>);
          (b, s2) = descramble (raw mod 2) s1;
          out = 2 * a + b
      in if r_sixteen_way s2
         then (let (c, s3) = descramble (nearest div 2) s2; (d, s4) = descramble (nearest mod 2) s3
               in (4 * out + 2 * c + d, s4))
         else (out, s2))"

subsection \<open>Equaliser and tracking loops\<close>

definition sm_cf_mul :: "('f, 'd) fp \<Rightarrow> 'f \<times> 'f \<Rightarrow> 'f \<times> 'f \<Rightarrow> 'f \<times> 'f" where
  "sm_cf_mul F a b =
     (fp_sub F (fp_mul F (fst a) (fst b)) (fp_mul F (snd a) (snd b)),
      fp_add F (fp_mul F (fst a) (snd b)) (fp_mul F (snd a) (fst b)))"

definition rot45 :: "('f, 'd) fp \<Rightarrow> 'f \<times> 'f" where
  "rot45 F = (fp_lit F 894427 1000000, fp_lit F 44721 100000)"

definition eq_next :: "nat \<Rightarrow> nat" where
  "eq_next j = (if Suc j \<ge> V22BIS_EQUALIZER_LEN then 0 else Suc j)"

fun eq_sum :: "('f, 'd) fp \<Rightarrow> (nat \<Rightarrow> 'f \<times> 'f) \<Rightarrow> (nat \<Rightarrow> 'f \<times> 'f) \<Rightarrow> nat \<Rightarrow> nat \<Rightarrow> nat \<Rightarrow> 'f \<times> 'f \<Rightarrow> 'f \<times> 'f" where
  "eq_sum F buf co 0 i j z = z"
| "eq_sum F buf co (Suc n) i j (re, im) =
     eq_sum F buf co n (Suc i) (eq_next j)
       (fp_add F re (fp_sub F (fp_mul F (fst (buf j)) (fst (co i))) (fp_mul F (snd (buf j)) (snd (co i)))),
        fp_add F im (fp_add F (fp_mul F (fst (buf j)) (snd (co i))) (fp_mul F (snd (buf j)) (fst (co i)))))"

definition equalizer_get :: "('f, 'd) fp \<Rightarrow> ('f, 'd) v22 \<Rightarrow> 'f \<times> 'f" where
  "equalizer_get F s =
     eq_sum F (r_eq_buf s) (r_eq_coeff s) V22BIS_EQUALIZER_LEN 0 (r_eq_step s) (fp_lit F 0 1, fp_lit F 0 1)"

fun eq_tune :: "('f, 'd) fp \<Rightarrow> (nat \<Rightarrow> 'f \<times> 'f) \<Rightarrow> 'f \<times> 'f \<Rightarrow> nat \<Rightarrow> nat \<Rightarrow> nat \<Rightarrow> (nat \<Rightarrow> 'f \<times> 'f) \<Rightarrow> nat \<Rightarrow> 'f \<times> 'f" where
  "eq_tune F buf err 0 i j co = co"
| "eq_tune F buf err (Suc n) i j co =
     eq_tune F buf err n (Suc i) (eq_next j)
       (co(i := (fp_add F (fst (co i)) (fp_add F (fp_mul F (fst (buf j)) (fst err)) (fp_mul F (snd (buf j)) (snd err))),
                 fp_add F (snd (co i)) (fp_sub F (fp_mul F (fst (buf j)) (snd err)) (fp_mul F (snd (buf j)) (fst err))))))"

definition tune_equalizer :: "('f, 'd) fp \<Rightarrow> 'f \<times> 'f \<Rightarrow> 'f \<times> 'f \<Rightarrow> ('f, 'd) v22 \<Rightarrow> ('f, 'd) v22" where
  "tune_equalizer F z target s =
     (let err = (fp_mul F (fp_sub F (fst target) (fst z)) (r_eq_delta s),
                 fp_mul F (fp_sub F (snd target) (snd z)) (r_eq_delta s))
      in s\<lparr>r_eq_coeff := eq_tune F (r_eq_buf s) err V22BIS_EQUALIZER_LEN 0 (r_eq_step s) (r_eq_coeff s)\<rparr>)"

definition track_carrier :: "('f, 'd) fp \<Rightarrow> 'f \<times> 'f \<Rightarrow> 'f \<times> 'f \<Rightarrow> ('f, 'd) v22 \<Rightarrow> ('f, 'd) v22" where
  "track_carrier F z target s =
     (let error = fp_sub F (fp_mul F (snd z) (fst target)) (fp_mul F (fst z) (snd target))
      in s\<lparr>r_carrier_rate := r_carrier_rate s + word_of_int (fp_to_int F (fp_mul F (r_track_i s) error)),
           r_carrier_phase := r_carrier_phase s + word_of_int (fp_to_int F (fp_mul F (r_track_p s) error))\<rparr>)"

text \<open>The \<open>i\<close>-th position before the insertion point of the equaliser's buffer.\<close>

definition eq_prev :: "nat \<Rightarrow> nat" where
  "eq_prev j = (if j = 0 then V22BIS_EQUALIZER_LEN - 1 else j - 1)"

definition symbol_sync :: "('f, 'd) fp \<Rightarrow> ('f, 'd) v22 \<Rightarrow> ('f, 'd) v22" where
  "symbol_sync F s =
     (let a0 = eq_prev (r_eq_step s); a1 = eq_prev a0; a2 = eq_prev a1;
          buf = r_eq_buf s;
          (p, q) = (if r_sixteen_way s
            then (fp_mul F (fp_sub F (fst (buf a2)) (fst (buf a0))) (fst (buf a1)),
                  fp_mul F (fp_sub F (snd (buf a2)) (snd (buf a0))) (snd (buf a1)))
            else (let a = sm_cf_mul F (buf a2) (rot45 F); b = sm_cf_mul F (buf a1) (rot45 F);
                      c = sm_cf_mul F (buf a0) (rot45 F)
                  in (fp_mul F (fp_sub F (fst a) (fst c)) (fst b),
                      fp_mul F (fp_sub F (snd a) (snd c)) (snd b))));
          g = r_gardner_integrate s
                + (if fp_less F (fp_lit F 0 1) (fp_add F p q) then r_gardner_step s else - r_gardner_step s)
      in if \<bar>g\<bar> \<ge> 16
         then s\<lparr>r_eq_put_step := r_eq_put_step s + c_div g 16,
                r_timing_correction := r_timing_correction s + c_div g 16,
                r_gardner_integrate := 0\<rparr>
         else s\<lparr>r_gardner_integrate := g\<rparr>)"

subsection \<open>Slicers\<close>

definition clamp_cell :: "int \<Rightarrow> nat" where
  "clamp_cell k = (if k > 5 then 5 else if k < 0 then 0 else nat k)"

definition slice_16 :: "('f, 'd) fp \<Rightarrow> 'f \<times> 'f \<Rightarrow> nat" where
  "slice_16 F z =
     space_map_v22bis (clamp_cell (fp_to_int F (fp_add F (fst z) (fp_lit F 3 1))))
       (clamp_cell (fp_to_int F (fp_add F (snd z) (fp_lit F 3 1))))"

definition slice_4 :: "('f, 'd) fp \<Rightarrow> 'f \<times> 'f \<Rightarrow> nat" where
  "slice_4 F z =
     (let zz = sm_cf_mul F z (rot45 F);
          n0 = (0x01 :: nat);
          n1 = (if fp_less F (fst zz) (fp_lit F 0 1) then n0 OR 0x04 else n0)
      in if fp_less F (snd zz) (fp_lit F 0 1) then (n1 XOR 0x04) OR 0x08 else n1)"

definition slice :: "('f, 'd) fp \<Rightarrow> 'f \<times> 'f \<Rightarrow> ('f, 'd) v22 \<Rightarrow> nat" where
  "slice F z s = (if r_sixteen_way s then slice_16 F z else slice_4 F z)"

subsection \<open>Training\<close>

text \<open>Each case of the \<open>switch\<close> returns the raw bits it leaves for \<open>last_raw_bits\<close>.\<close>

definition target_of :: "('f, 'd) fp \<Rightarrow> nat \<Rightarrow> 'f \<times> 'f" where
  "target_of F k = (case v22bis_constellation k of (re, im) \<Rightarrow> (fp_lit F re 1, fp_lit F im 1))"

definition track_tune :: "('f, 'd) fp \<Rightarrow> 'f \<times> 'f \<Rightarrow> nat \<Rightarrow> ('f, 'd) v22 \<Rightarrow> ('f, 'd) v22" where
  "track_tune F z nearest s =
     tune_equalizer F z (target_of F nearest) (track_carrier F z (target_of F nearest) s)"

definition rx_normal :: "('f, 'd) fp \<Rightarrow> 'u v22_cb \<Rightarrow> 'f \<times> 'f \<Rightarrow> nat \<Rightarrow> ('f, 'd) v22 \<times> 'u \<Rightarrow> nat \<times> ('f, 'd) v22 \<times> 'u" where
  "rx_normal F cb z nearest su =
     (case su of (s0, u) \<Rightarrow>
       (let s = track_tune F z nearest s0;
            raw = quadrant_code nearest s;
            su1 = (if r_last_raw s XOR raw = 3
              then (s\<lparr>r_pattern_repeats := r_pattern_repeats s + 1\<rparr>, u)
              else (let (s1, u1) = (if r_pattern_repeats s \<ge> 50 \<and> (r_last_raw s = 3 \<or> r_last_raw s = 0)
                          then (equalizer_reset F
                                  (s\<lparr>r_pattern_repeats := 0, r_training_count := 0,
                                     r_training := RxScrambledOnes1200, t_training_count := 0,
                                     t_training := TxU0011\<rparr>),
                                report_status cb RetrainOccurred u)
                          else (s, u))
                    in (s1\<lparr>r_pattern_repeats := 0\<rparr>, u1)))
        in (raw, decode_baud cb nearest su1)))"

definition rx_acquisition :: "('f, 'd) v22 \<Rightarrow> ('f, 'd) v22" where
  "rx_acquisition s0 =
     (let count = r_training_count s0 + 1; s = s0\<lparr>r_training_count := count\<rparr>
      in if count \<ge> 40
         then s\<lparr>r_gardner_step := 4, r_pattern_repeats := 0,
                r_training := (if v_calling s then RxUnscrambledOnes else RxScrambledOnes1200),
                v_negotiated := 1200\<rparr>
         else if count = 30 then s\<lparr>r_gardner_step := 32\<rparr> else s)"

text \<open>The quadrant code and the new reference point, as every training state takes them.\<close>

definition code_step :: "nat \<Rightarrow> ('f, 'd) v22 \<Rightarrow> nat \<times> ('f, 'd) v22" where
  "code_step nearest s = (quadrant_code nearest s, s\<lparr>r_constellation := nearest\<rparr>)"

definition rx_unscrambled :: "('f, 'd) fp \<Rightarrow> 'f \<times> 'f \<Rightarrow> nat \<Rightarrow> ('f, 'd) v22 \<Rightarrow> nat \<times> ('f, 'd) v22" where
  "rx_unscrambled F z nearest s0 =
     (let (raw, s1) = code_step nearest (track_carrier F z (target_of F nearest) s0);
          s2 = s1\<lparr>r_pattern_repeats := (if raw \<noteq> r_last_raw s1 then 0 else r_pattern_repeats s1 + 1),
                  r_training_count := r_training_count s1 + 1\<rparr>
      in (raw,
          if r_training_count s2 = ms_to_symbols (155 + 456)
          then (let s3 = (if raw = r_last_raw s2 \<and> (raw = 3 \<or> raw = 0)
                             \<and> r_pattern_repeats s2 \<ge> ms_to_symbols 456
                          then s2\<lparr>t_training := (if v_bit_rate s2 = 2400 then TxU0011 else TxS11),
                                  t_training_count := 0\<rparr>
                          else s2)
                in s3\<lparr>r_pattern_repeats := 0, r_training_count := 0,
                      r_training := RxUnscrambledOnesSustaining\<rparr>)
          else s2))"

definition rx_unscrambled_sustaining :: "('f, 'd) fp \<Rightarrow> 'f \<times> 'f \<Rightarrow> nat \<Rightarrow> ('f, 'd) v22 \<Rightarrow> nat \<times> ('f, 'd) v22" where
  "rx_unscrambled_sustaining F z nearest s0 =
     (let (raw, s1) = code_step nearest (track_carrier F z (target_of F nearest) s0)
      in (raw,
          if raw \<noteq> r_last_raw s1
          then s1\<lparr>t_training_count := 0, t_training := TxTimedS11, r_training_count := 0,
                  r_training := RxScrambledOnes1200, r_pattern_repeats := 0\<rparr>
          else s1))"

text \<open>How many of the 31 pairs of neighbours among the last 32 raw dibits alternate between 0 and 3,
  or 1 and 2.\<close>

definition alternations :: "u64 \<Rightarrow> nat" where
  "alternations h =
     length (filter (\<lambda>k. (drop_bit (2 * k) h AND 3) XOR (drop_bit (2 * (k + 1)) h AND 3) = 3) [0..<31])"

definition s1_search :: "nat \<Rightarrow> ('f, 'd) v22 \<Rightarrow> ('f, 'd) v22" where
  "s1_search raw s0 =
     (let s = s0\<lparr>r_raw_history := push_bit 2 (r_raw_history s0) OR of_nat raw,
                 r_raw_hist_count := r_raw_hist_count s0 + 1\<rparr>
      in if r_raw_hist_count s \<ge> 16
         then s\<lparr>r_pattern_repeats :=
                  (if alternations (r_raw_history s) \<ge> 23 \<and> (r_last_raw s = 3 \<or> r_last_raw s = 0)
                   then int (alternations (r_raw_history s)) else 0)\<rparr>
         else s)"

definition s1_found :: "('f, 'd) v22 \<Rightarrow> ('f, 'd) v22" where
  "s1_found s =
     (let s1 = (if v_bit_rate s = 2400
                then (if \<not> v_calling s then s\<lparr>t_training := TxU0011, t_training_count := 0\<rparr> else s)
                       \<lparr>v_negotiated := 2400\<rparr>
                else s)
      in s1\<lparr>r_pattern_repeats := 0, r_raw_hist_count := 0, r_training_count := 0\<rparr>)"

definition rx_scrambled_1200 :: "('f, 'd) fp \<Rightarrow> 'f \<times> 'f \<Rightarrow> nat \<Rightarrow> ('f, 'd) v22 \<Rightarrow> nat \<times> ('f, 'd) v22" where
  "rx_scrambled_1200 F z nearest s0 =
     (let s = track_tune F z nearest s0;
          raw = quadrant_code nearest s;
          s1 = snd (decode_baudx nearest s);
          s2 = s1\<lparr>r_training_count := r_training_count s1 + 1\<rparr>
      in (raw,
          if v_negotiated s2 = 1200
          then (let s3 = s1_search raw s2
                in if r_pattern_repeats s3 \<ge> 23 \<and> (r_last_raw s3 = 3 \<or> r_last_raw s3 = 0)
                   then s1_found s3
                   else if r_training_count s3 \<ge> ms_to_symbols 400
                   then (if v_calling s3
                         then s3\<lparr>t_training_count := 0, t_training := TxTimedS11, r_training := RxNormal,
                                 r_track_i := fp_lit F 8000 1\<rparr>
                         else s3\<lparr>t_training_count := 0, t_training := TxTimedS11,
                                 r_training := RxScrambledOnes1200Sustaining\<rparr>)
                   else s3)
          else if v_calling s2
          then (if r_training_count s2 \<ge> ms_to_symbols (100 + 450)
                then s2\<lparr>r_sixteen_way := True, r_training := RxWaitScrambledOnes2400,
                        r_pattern_repeats := 0, r_track_i := fp_lit F 8000 1\<rparr>
                else s2)
          else (if r_training_count s2 \<ge> ms_to_symbols 450
                then s2\<lparr>r_sixteen_way := True, r_training := RxWaitScrambledOnes2400,
                        r_pattern_repeats := 0\<rparr>
                else s2)))"

definition rx_sustaining_1200 :: "('f, 'd) fp \<Rightarrow> 'f \<times> 'f \<Rightarrow> nat \<Rightarrow> ('f, 'd) v22 \<Rightarrow> ('f, 'd) v22" where
  "rx_sustaining_1200 F z nearest s0 =
     (let s = snd (decode_baudx nearest (track_tune F z nearest s0));
          count = r_training_count s + 1
      in if count > ms_to_symbols (270 + 765)
         then s\<lparr>r_training_count := count, r_training := RxNormal\<rparr>
         else s\<lparr>r_training_count := count\<rparr>)"

definition rx_wait_2400 :: "('f, 'd) fp \<Rightarrow> 'f \<times> 'f \<Rightarrow> nat \<Rightarrow> ('f, 'd) v22 \<Rightarrow> ('f, 'd) v22" where
  "rx_wait_2400 F z nearest s0 =
     (let (bits, s) = decode_baudx nearest (track_tune F z nearest s0)
      in if bits = 0xF
         then (let n = r_pattern_repeats s + 1
               in if n \<ge> 9 then s\<lparr>r_pattern_repeats := n, r_training := RxNormal\<rparr>
                  else s\<lparr>r_pattern_repeats := n\<rparr>)
         else s\<lparr>r_pattern_repeats := 0\<rparr>)"

definition rx_training_step :: "('f, 'd) fp \<Rightarrow> 'u v22_cb \<Rightarrow> 'f \<times> 'f \<Rightarrow> nat \<Rightarrow> ('f, 'd) v22 \<times> 'u \<Rightarrow> nat \<times> ('f, 'd) v22 \<times> 'u" where
  "rx_training_step F cb z nearest su =
     (case su of (s, u) \<Rightarrow>
       (let pure = (\<lambda>(raw, s'). (raw, s', u)); silent = (\<lambda>s'. (0, s', u))
        in case r_training s of
             RxNormal \<Rightarrow> rx_normal F cb z nearest su
           | RxSymbolAcquisition \<Rightarrow> silent (rx_acquisition s)
           | RxUnscrambledOnes \<Rightarrow> pure (rx_unscrambled F z nearest s)
           | RxUnscrambledOnesSustaining \<Rightarrow> pure (rx_unscrambled_sustaining F z nearest s)
           | RxScrambledOnes1200 \<Rightarrow> pure (rx_scrambled_1200 F z nearest s)
           | RxScrambledOnes1200Sustaining \<Rightarrow> silent (rx_sustaining_1200 F z nearest s)
           | RxWaitScrambledOnes2400 \<Rightarrow> silent (rx_wait_2400 F z nearest s)
           | RxParked \<Rightarrow> silent s))"

text \<open>A whole symbol, and the raw bits remembered for the next.\<close>

definition rx_symbol :: "('f, 'd) fp \<Rightarrow> 'u v22_cb \<Rightarrow> ('f, 'd) v22 \<times> 'u \<Rightarrow> ('f, 'd) v22 \<times> 'u" where
  "rx_symbol F cb su =
     (case su of (s0, u) \<Rightarrow>
       (let s = symbol_sync F s0;
            z = equalizer_get F s;
            (raw, s', u') = rx_training_step F cb z (slice F z s) (s, u)
        in (s'\<lparr>r_last_raw := raw\<rparr>, u')))"

text \<open>Half a symbol enters the equaliser's buffer; every other one completes a symbol.\<close>

definition process_half_baud :: "('f, 'd) fp \<Rightarrow> 'u v22_cb \<Rightarrow> 'f \<times> 'f \<Rightarrow> ('f, 'd) v22 \<times> 'u \<Rightarrow> ('f, 'd) v22 \<times> 'u" where
  "process_half_baud F cb sample su =
     (case su of (s0, u) \<Rightarrow>
       (let s1 = s0\<lparr>r_eq_buf := (r_eq_buf s0)(r_eq_step s0 := sample),
                    r_eq_step := eq_next (r_eq_step s0), r_baud_phase := r_baud_phase s0 XOR 1\<rparr>
        in if r_baud_phase s1 \<noteq> 0 then (s1, u) else rx_symbol F cb (s1, u)))"

subsection \<open>Samples\<close>

text \<open>The pulse-shaping sums read the circular delay line from its insertion point on.\<close>

definition sm_power_meter_update :: "('f, 'd) fp \<Rightarrow> int \<Rightarrow> ('f, 'd) v22 \<Rightarrow> ('f, 'd) v22" where
  "sm_power_meter_update F sample s =
     s\<lparr>r_power := dp_add F (dp_mul F (r_power s) (r_decay s))
         (dp_mul F (dp_sub F (dp_lit F 1 1) (r_decay s)) (dp_mul F (dp_lit F sample 1) (dp_lit F sample 1)))\<rparr>"

definition rx_tables :: "('f, 'd) fp \<Rightarrow> ('f, 'd) v22 \<Rightarrow> (nat \<Rightarrow> nat \<Rightarrow> 'f) \<times> (nat \<Rightarrow> nat \<Rightarrow> 'f)" where
  "rx_tables F s = (if v_calling s then (tab_2400_re F, tab_2400_im F) else (tab_1200_re F, tab_1200_im F))"

definition rx_filter :: "('f, 'd) fp \<Rightarrow> (nat \<Rightarrow> 'f) \<Rightarrow> ('f, 'd) v22 \<Rightarrow> 'f" where
  "rx_filter F cf s =
     mac F (r_rrc_filter s) cf V22BIS_RX_FILTER_STEPS V22BIS_RX_FILTER_STEPS 0 (r_rrc_filter_step s) (fp_lit F 0 1)"

text \<open>A new sample enters the delay line and the power meter.\<close>

definition rx_intake :: "('f, 'd) fp \<Rightarrow> int \<Rightarrow> ('f, 'd) v22 \<Rightarrow> ('f, 'd) v22" where
  "rx_intake F amp s =
     (let s1 = s\<lparr>r_rrc_filter := (r_rrc_filter s)(r_rrc_filter_step s := fp_of_int F amp),
                 r_rrc_filter_step := (if Suc (r_rrc_filter_step s) \<ge> V22BIS_RX_FILTER_STEPS then 0
                                       else Suc (r_rrc_filter_step s))\<rparr>;
          ii = rx_filter F (fst (rx_tables F s1) 6) s1
      in sm_power_meter_update F (sint (word_of_int (fp_to_int F ii) :: 16 word)) s1)"

text \<open>Carrier detection; False is the \<open>continue\<close> of the code, with the state it leaves.\<close>

definition rx_carrier :: "('f, 'd) fp \<Rightarrow> 'u v22_cb \<Rightarrow> ('f, 'd) v22 \<times> 'u \<Rightarrow> bool \<times> ('f, 'd) v22 \<times> 'u" where
  "rx_carrier F cb su =
     (case su of (s, u) \<Rightarrow>
       if r_signal_present s
       then (if dp_less F (r_power s) (r_off_power s)
             then (let s1 = s\<lparr>r_down_count := r_down_count s + 1\<rparr>
                   in if r_down_count s1 \<ge> 800
                      then (False, v22bis_rx_restart F s1, report_status cb CarrierDown u)
                      else (True, s1, u))
             else (True, s\<lparr>r_down_count := 0\<rparr>, u))
       else if dp_less F (r_power s) (r_on_power s) then (False, s, u)
       else (True, s\<lparr>r_signal_present := True, r_down_count := 0\<rparr>, report_status cb CarrierUp u))"

definition rx_agc :: "('f, 'd) fp \<Rightarrow> ('f, 'd) v22 \<Rightarrow> ('f, 'd) v22" where
  "rx_agc F s =
     (if r_training s = RxSymbolAcquisition
      then (let root0 = fp_sqrt F (dp_to_f F (r_power s));
                root = (if fp_less F root0 (fp_lit F 1 1) then fp_lit F 1 1 else root0)
            in s\<lparr>r_agc := fp_div F (fp_mul F (fp_lit F 18 100) (fp_lit F 360 100)) root\<rparr>)
      else s)"

definition coeff_set :: "int \<Rightarrow> int" where
  "coeff_set put_step = (if - put_step > V22BIS_RX_COEFF_SETS - 1 then V22BIS_RX_COEFF_SETS - 1 else - put_step)"

text \<open>Half a symbol: pulse shaping with the coefficient set of the fractional position, AGC, and mixing
  down to baseband.\<close>

definition rx_half_symbol :: "('f, 'd) fp \<Rightarrow> 'u v22_cb \<Rightarrow> ('f, 'd) v22 \<times> 'u \<Rightarrow> ('f, 'd) v22 \<times> 'u" where
  "rx_half_symbol F cb su =
     (case su of (s0, u) \<Rightarrow>
       (let s = rx_agc F s0;
            step = nat (coeff_set (r_eq_put_step s));
            re = fp_mul F (rx_filter F (fst (rx_tables F s) step) s) (r_agc s);
            im = fp_mul F (rx_filter F (snd (rx_tables F s) step) s) (r_agc s);
            (z_re, z_im) = sm_dds_complex F (r_carrier_phase s);
            zz = (fp_sub F (fp_mul F re z_re) (fp_mul F im z_im),
                  fp_sub F (fp_mul F (fp_neg F re) z_im) (fp_mul F im z_re))
        in process_half_baud F cb zz
             (s\<lparr>r_eq_put_step := r_eq_put_step s + c_div (V22BIS_RX_COEFF_SETS * 40) (3 * 2)\<rparr>, u)))"

definition rx_advance :: "('f, 'd) v22 \<Rightarrow> ('f, 'd) v22" where
  "rx_advance s = s\<lparr>r_carrier_phase := r_carrier_phase s + r_carrier_rate s\<rparr>"

definition rx_sample :: "('f, 'd) fp \<Rightarrow> 'u v22_cb \<Rightarrow> int \<Rightarrow> ('f, 'd) v22 \<times> 'u \<Rightarrow> ('f, 'd) v22 \<times> 'u" where
  "rx_sample F cb amp su =
     (case su of (s0, u0) \<Rightarrow>
       (let (go, s1, u1) = rx_carrier F cb (rx_intake F amp s0, u0)
        in if \<not> go \<or> r_training s1 = RxParked then (s1, u1)
           else (let s2 = s1\<lparr>r_eq_put_step := r_eq_put_step s1 - V22BIS_RX_COEFF_SETS\<rparr>;
                     (s3, u3) = (if r_eq_put_step s2 \<le> 0 then rx_half_symbol F cb (s2, u1) else (s2, u1))
                 in (rx_advance s3, u3))))"

definition v22bis_rx :: "('f, 'd) fp \<Rightarrow> 'u v22_cb \<Rightarrow> int list \<Rightarrow> ('f, 'd) v22 \<times> 'u \<Rightarrow> ('f, 'd) v22 \<times> 'u" where
  "v22bis_rx F cb amp su = foldl (\<lambda>su a. rx_sample F cb a su) su amp"

definition v22bis_rx_carrier_frequency :: "('f, 'd) fp \<Rightarrow> ('f, 'd) v22 \<Rightarrow> 'f" where
  "v22bis_rx_carrier_frequency F s =
     fp_mul F (fp_div F (fp_of_int F (sint (r_carrier_rate s))) (fp_lit F 4294967296 1)) (fp_of_int F 8000)"

definition v22bis_rx_fillin :: "nat \<Rightarrow> ('f, 'd) v22 \<Rightarrow> ('f, 'd) v22" where
  "v22bis_rx_fillin len s = (if \<not> r_signal_present s then s else (rx_advance ^^ len) s)"

definition v22bis_equalizer_state :: "('f, 'd) v22 \<Rightarrow> nat \<times> ('f \<times> 'f) list" where
  "v22bis_equalizer_state s = (V22BIS_EQUALIZER_LEN, map (r_eq_coeff s) [0..<V22BIS_EQUALIZER_LEN])"

end
