(* ===== verification/V22_Clock.thy ===== *)
theory V22_Clock
  imports V22_Tx Complex_Main
begin

text \<open>
  The V.22bis transmitter's timing: the training sequence as a table over segments and symbols, which
  the transmitter refines; the symbol clock of the sample loop; and exact arithmetic as an instance of
  the arithmetic parameter.
\<close>

subsection \<open>Shape of the state\<close>

definition tx_inv :: "('f, 'd) v22 \<Rightarrow> bool" where
  "tx_inv s \<longleftrightarrow> t_baud_phase s < V22BIS_TX_PHASES \<and> t_rrc_step s < V22BIS_TX_FILTER_STEPS \<and> t_constellation s < 4"

text \<open>The scrambler touches its own two fields only.\<close>

lemma unat_and_1: "unat (w AND 1 :: u32) < 2"
  using word_and_le1 [of w 1] by (simp add: word_le_nat_alt)

definition scr_upd :: "u32 \<Rightarrow> int \<Rightarrow> ('f, 'd) v22 \<Rightarrow> ('f, 'd) v22" where
  "scr_upd r c s = s\<lparr>t_scramble_reg := r, t_pattern_count := c\<rparr>"

lemma scr_upd_simps [simp]:
  "t_baud_phase (scr_upd r c s) = t_baud_phase s" "t_rrc_step (scr_upd r c s) = t_rrc_step s"
  "t_constellation (scr_upd r c s) = t_constellation s" "t_training (scr_upd r c s) = t_training s"
  "t_training_count (scr_upd r c s) = t_training_count s" "v_calling (scr_upd r c s) = v_calling s"
  "v_negotiated (scr_upd r c s) = v_negotiated s" "t_shutdown (scr_upd r c s) = t_shutdown s"
  "t_fake_get (scr_upd r c s) = t_fake_get s"
  "scr_upd r2 c2 (scr_upd r c s) = scr_upd r2 c2 s"
  by (simp_all add: scr_upd_def)

lemma scramble_upd:
  obtains r c out where "scramble b s = (out, scr_upd r c s)" and "out < 2"
proof -
  have "snd (scramble b s) = scr_upd (t_scramble_reg (snd (scramble b s))) (t_pattern_count (snd (scramble b s))) s"
    by (simp add: scramble_def scr_upd_def Let_def)
  moreover have "fst (scramble b s) < 2"
    using unat_and_1 by (simp add: scramble_def Let_def split: prod.split)
  ultimately show ?thesis using that by (metis prod.collapse)
qed

lemma scramble_ones_upd:
  obtains r c bits where "scramble_ones s = (bits, scr_upd r c s)" and "bits < 4"
proof -
  obtain r c a where 1: "scramble 1 s = (a, scr_upd r c s)" "a < 2" by (rule scramble_upd)
  obtain r2 c2 b where 2: "scramble 1 (scr_upd r c s) = (b, scr_upd r2 c2 (scr_upd r c s))" "b < 2"
    by (rule scramble_upd)
  show ?thesis using 1 2 by (intro that [of "2 * a + b" r2 c2]) (simp_all add: scramble_ones_def)
qed

lemma get_scrambled_bit_upd:
  obtains bt s1 u1 r c out where "get_scrambled_bit cb (s, u) = (out, scr_upd r c s1, u1)" and "out < 2"
    and "s1 = s \<or> s1 = s\<lparr>t_fake_get := True, t_shutdown := 1\<rparr>"
proof -
  obtain bt u1 where g: "(if t_fake_get s then (fake_get_bit, u) else cb_get cb u) = (bt, u1)" by fastforce
  define s1 where "s1 = (if bt = -1 then s\<lparr>t_fake_get := True, t_shutdown := 1\<rparr> else s)"
  obtain r c out where "scramble (if bt = -1 then 1 else bt) s1 = (out, scr_upd r c s1)" "out < 2"
    by (rule scramble_upd)
  with g show ?thesis
    by (intro that [of out r c s1 u1]) (auto simp: get_scrambled_bit_def s1_def split: if_splits)
qed

lemma get_dibit_frame:
  assumes "get_dibit cb (s, u) = (bits, s', u')"
  shows "bits < 4 \<and> t_baud_phase s' = t_baud_phase s \<and> t_rrc_step s' = t_rrc_step s
    \<and> t_constellation s' = t_constellation s \<and> t_training s' = t_training s \<and> v_negotiated s' = v_negotiated s
    \<and> v_calling s' = v_calling s"
proof -
  obtain s1 u1 r c a where 1: "get_scrambled_bit cb (s, u) = (a, scr_upd r c s1, u1)" "a < 2"
    "s1 = s \<or> s1 = s\<lparr>t_fake_get := True, t_shutdown := 1\<rparr>" by (rule get_scrambled_bit_upd)
  obtain s2 u2 r2 c2 b where 2: "get_scrambled_bit cb (scr_upd r c s1, u1) = (b, scr_upd r2 c2 s2, u2)" "b < 2"
    "s2 = scr_upd r c s1 \<or> s2 = (scr_upd r c s1)\<lparr>t_fake_get := True, t_shutdown := 1\<rparr>" by (rule get_scrambled_bit_upd)
  from assms 1(1) 2(1) have "bits = 2 * a + b" "s' = scr_upd r2 c2 s2" by (simp_all add: get_dibit_def)
  with 1(2,3) 2(2,3) show ?thesis by (elim disjE) simp_all
qed

subsection \<open>The training sequence\<close>

text \<open>The training as a table over the segment and the symbols spent in it: 45 symbols of silence, 60
  of S1, scrambled ones from 153 to 453, 120 of scrambled ones at 2400.\<close>

definition tx_next :: "bool \<Rightarrow> int \<Rightarrow> tx_training \<times> int \<Rightarrow> tx_training \<times> int" where
  "tx_next calling neg tc =
     (case tc of (tr, c) \<Rightarrow>
        (case tr of
           TxInitialTimedSilence \<Rightarrow> if c + 1 \<ge> 45 then (TxU11, 0) else (tr, c + 1)
         | TxU0011 \<Rightarrow> if c + 1 \<ge> 60 then (if calling then (TxS11, 0) else (TxTimedS11, 153)) else (tr, c + 1)
         | TxTimedS11 \<Rightarrow> if c + 1 \<ge> 453 then (if neg = 2400 then (TxS1111, 0) else (TxNormal, 0)) else (tr, c + 1)
         | TxS1111 \<Rightarrow> if c + 1 \<ge> 120 then (TxNormal, 0) else (tr, c + 1)
         | _ \<Rightarrow> (tr, c)))"

definition tx_abs :: "('f, 'd) v22 \<Rightarrow> tx_training \<times> int" where
  "tx_abs s = (t_training s, t_training_count s)"

lemma ms_values:
  "ms_to_symbols 75 = 45" "ms_to_symbols 100 = 60" "ms_to_symbols 756 = 453"
  "ms_to_symbols 256 = 153" "ms_to_symbols 200 = 120" "ms_to_symbols 611 = 366" "ms_to_symbols 456 = 273"
  "ms_to_symbols 400 = 240" "ms_to_symbols 550 = 330" "ms_to_symbols 450 = 270" "ms_to_symbols 1035 = 621"
  by (simp_all add: ms_to_symbols_def c_div_nonneg)

lemma advance_simps [simp]:
  "t_baud_phase (advance b s) = t_baud_phase s" "t_rrc_step (advance b s) = t_rrc_step s"
  "t_training (advance b s) = t_training s" "t_training_count (advance b s) = t_training_count s"
  "v_calling (advance b s) = v_calling s" "v_negotiated (advance b s) = v_negotiated s"
  "t_constellation (advance b s) < 4" "t_shutdown (advance b s) = t_shutdown s"
  "t_fake_get (advance b s) = t_fake_get s"
  by (simp_all add: advance_def)

text \<open>One training symbol follows the table, keeps the indices in range, and reports success on
  entering data mode, then only.\<close>

definition tx_kept :: "('f, 'd) v22 \<Rightarrow> ('f, 'd) v22 \<Rightarrow> bool" where
  "tx_kept s s' \<longleftrightarrow> t_baud_phase s' = t_baud_phase s \<and> t_rrc_step s' = t_rrc_step s
     \<and> v_calling s' = v_calling s \<and> v_negotiated s' = v_negotiated s \<and> (t_constellation s < 4 \<longrightarrow> t_constellation s' < 4)"

lemma send_s11_step:
  assumes "send_s11 (s, u) = (p, s', u')"
  shows "tx_abs s' = tx_abs s \<and> tx_kept s s' \<and> u' = u"
proof -
  obtain r c bits where "scramble_ones s = (bits, scr_upd r c s)" by (rule scramble_ones_upd)
  with assms have "s' = advance bits (scr_upd r c s)" "u' = u" by (auto simp: send_s11_def Let_def)
  then show ?thesis by (simp add: tx_abs_def tx_kept_def)
qed

lemma training_get_step:
  assumes "training_get cb (s, u) = (p, s', u')"
  shows "tx_abs s' = tx_next (v_calling s) (v_negotiated s) (tx_abs s) \<and> tx_kept s s'
    \<and> u' = (if t_training s \<noteq> TxNormal \<and> t_training s' = TxNormal then report_status cb TrainingSucceeded u else u)"
proof (cases "t_training s")
  case TxTimedS11
  then show ?thesis
    using assms
    by (auto simp: training_get_def ms_values tx_next_def tx_abs_def tx_kept_def tx_normal_def Let_def
        split: if_splits dest!: send_s11_step)
next
  case TxS11
  then show ?thesis
    using assms by (auto simp: training_get_def tx_next_def tx_abs_def tx_kept_def Let_def dest!: send_s11_step)
next
  case TxS1111
  obtain r c bits where 1: "scramble_ones s = (bits, scr_upd r c s)" by (rule scramble_ones_upd)
  obtain r2 c2 bits2 where 2: "scramble_ones (advance bits (scr_upd r c s)) = (bits2, scr_upd r2 c2 (advance bits (scr_upd r c s)))"
    by (rule scramble_ones_upd)
  from TxS1111 1 2 assms show ?thesis
    by (auto simp: training_get_def ms_values tx_next_def tx_abs_def tx_kept_def tx_normal_def Let_def split: if_splits)
qed (use assms in \<open>auto simp: training_get_def ms_values tx_next_def tx_abs_def tx_kept_def Let_def split: if_splits\<close>)

definition bauds :: "'u v22_cb \<Rightarrow> nat \<Rightarrow> ('f, 'd) v22 \<times> 'u \<Rightarrow> ('f, 'd) v22 \<times> 'u" where
  "bauds cb n = (\<lambda>su. snd (getbaud cb su)) ^^ n"

lemma bauds_simps [simp]:
  "bauds cb 0 su = su" "bauds cb (Suc n) su = snd (getbaud cb (bauds cb n su))"
  by (simp_all add: bauds_def)

lemma getbaud_kept: "getbaud cb (s, u) = (p, s', u') \<Longrightarrow> tx_kept s s'"
proof (cases "t_training s = TxNormal")
  case True
  assume g: "getbaud cb (s, u) = (p, s', u')"
  define s0 where "s0 = (if t_shutdown s \<noteq> 0 then s\<lparr>t_shutdown := t_shutdown s + 1\<rparr> else s)"
  obtain b1 s1 u1 where 1: "get_dibit cb (s0, u) = (b1, s1, u1)" by (metis prod_cases3)
  obtain b3 s3 u3 where 3: "(if v_negotiated (advance b1 s1) = 1200 then (1, advance b1 s1, u1) else get_dibit cb (advance b1 s1, u1)) = (b3, s3, u3)"
    by (metis prod_cases3)
  from g True 1 3 have "s' = s0 \<or> s' = s3"
    by (auto simp: getbaud_def s0_def Let_def split: if_splits)
  moreover have "tx_kept s s0" by (simp add: tx_kept_def s0_def)
  moreover have "tx_kept s s3"
    using 3 get_dibit_frame [OF 1] get_dibit_frame [of cb "advance b1 s1" u1 b3 s3 u3]
    by (auto simp: tx_kept_def s0_def split: if_splits)
  ultimately show ?thesis by blast
next
  case False
  assume "getbaud cb (s, u) = (p, s', u')"
  with False show ?thesis using training_get_step [of cb s u p s' u'] by (simp add: getbaud_def)
qed

lemma bauds_training:
  assumes "\<And>k. k < n \<Longrightarrow> fst ((tx_next (v_calling s) (v_negotiated s) ^^ k) (tx_abs s)) \<noteq> TxNormal"
  shows "tx_abs (fst (bauds cb n (s, u))) = (tx_next (v_calling s) (v_negotiated s) ^^ n) (tx_abs s)
    \<and> v_calling (fst (bauds cb n (s, u))) = v_calling s \<and> v_negotiated (fst (bauds cb n (s, u))) = v_negotiated s
    \<and> snd (bauds cb n (s, u)) = (if fst ((tx_next (v_calling s) (v_negotiated s) ^^ n) (tx_abs s)) = TxNormal \<and> 0 < n
         then report_status cb TrainingSucceeded u else u)"
  using assms
proof (induction n)
  case 0
  then show ?case by simp
next
  case (Suc n)
  obtain s1 u1 where 1: "bauds cb n (s, u) = (s1, u1)" by fastforce
  obtain p s2 u2 where 2: "getbaud cb (s1, u1) = (p, s2, u2)" by (metis prod_cases3)
  have IH: "tx_abs s1 = (tx_next (v_calling s) (v_negotiated s) ^^ n) (tx_abs s)" "v_calling s1 = v_calling s"
    "v_negotiated s1 = v_negotiated s" "u1 = u"
    using Suc.IH Suc.prems [of n] Suc.prems 1 by auto
  have "t_training s1 \<noteq> TxNormal" using Suc.prems [of n] IH(1) by (metis tx_abs_def fst_conv lessI)
  moreover from this 2 have "training_get cb (s1, u1) = (p, s2, u2)" by (simp add: getbaud_def)
  ultimately show ?case
    using training_get_step [of cb s1 u1 p s2 u2] 1 2 IH by (simp add: tx_kept_def tx_abs_def split: if_splits) (metis fst_conv)+
qed

text \<open>The table, run from the start of S1 in the answering modem.\<close>

lemma answer_table:
  "(tx_next False neg ^^ n) (TxU0011, 0)
     = (if n < 60 then (TxU0011, int n)
        else if n < 360 then (TxTimedS11, 153 + (int n - 60))
        else if neg = 2400 \<and> n < 480 then (TxS1111, int n - 360) else (TxNormal, 0))"
  by (induction n) (auto simp: tx_next_def split: if_splits)

subsection \<open>The sample loop and the symbol clock\<close>

text \<open>The sample loop's own fields: filter delay lines, phases. No symbol depends on them.\<close>

definition line_upd :: "(nat \<Rightarrow> 'f) \<times> (nat \<Rightarrow> 'f) \<times> nat \<times> nat \<times> u32 \<times> u32 \<Rightarrow> ('f, 'd) v22 \<Rightarrow> ('f, 'd) v22" where
  "line_upd l s = (case l of (re, im, st, ph, cp, gp) \<Rightarrow>
     s\<lparr>t_rrc_re := re, t_rrc_im := im, t_rrc_step := st, t_baud_phase := ph, t_carrier_phase := cp, t_guard_phase := gp\<rparr>)"

lemma line_upd_simps [simp]:
  "v_calling (line_upd l s) = v_calling s" "v_negotiated (line_upd l s) = v_negotiated s"
  "t_training (line_upd l s) = t_training s" "t_training_count (line_upd l s) = t_training_count s"
  "t_constellation (line_upd l s) = t_constellation s" "t_shutdown (line_upd l s) = t_shutdown s"
  "t_fake_get (line_upd l s) = t_fake_get s" "t_scramble_reg (line_upd l s) = t_scramble_reg s"
  "t_pattern_count (line_upd l s) = t_pattern_count s"
  "line_upd l (line_upd l' s) = line_upd l s"
  "(line_upd l s)\<lparr>t_training := a\<rparr> = line_upd l (s\<lparr>t_training := a\<rparr>)"
  "(line_upd l s)\<lparr>t_training_count := b\<rparr> = line_upd l (s\<lparr>t_training_count := b\<rparr>)"
  "(line_upd l s)\<lparr>t_constellation := c\<rparr> = line_upd l (s\<lparr>t_constellation := c\<rparr>)"
  "(line_upd l s)\<lparr>t_shutdown := d\<rparr> = line_upd l (s\<lparr>t_shutdown := d\<rparr>)"
  "(line_upd l s)\<lparr>t_fake_get := e\<rparr> = line_upd l (s\<lparr>t_fake_get := e\<rparr>)"
  "(line_upd l s)\<lparr>t_scramble_reg := r\<rparr> = line_upd l (s\<lparr>t_scramble_reg := r\<rparr>)"
  "(line_upd l s)\<lparr>t_pattern_count := k\<rparr> = line_upd l (s\<lparr>t_pattern_count := k\<rparr>)"
  by (simp_all add: line_upd_def split: prod.split)

lemma scramble_line [simp]: "scramble b (line_upd l s) = apsnd (line_upd l) (scramble b s)"
  by (simp add: scramble_def Let_def)

lemma get_scrambled_bit_line [simp]:
  "get_scrambled_bit cb (line_upd l s, u) = apsnd (apfst (line_upd l)) (get_scrambled_bit cb (s, u))"
  by (simp add: get_scrambled_bit_def split: prod.split)

lemma get_dibit_line [simp]:
  "get_dibit cb (line_upd l s, u) = apsnd (apfst (line_upd l)) (get_dibit cb (s, u))"
  by (simp add: get_dibit_def split: prod.split)

lemma scramble_ones_line [simp]: "scramble_ones (line_upd l s) = apsnd (line_upd l) (scramble_ones s)"
  by (simp add: scramble_ones_def split: prod.split)

lemma advance_line [simp]: "advance b (line_upd l s) = line_upd l (advance b s)"
  by (simp add: advance_def)

lemma point_line [simp]: "point b (line_upd l s) = point b s"
  by (simp add: point_def)

lemma send_s11_line [simp]: "send_s11 (line_upd l s, u) = apsnd (apfst (line_upd l)) (send_s11 (s, u))"
  by (simp add: send_s11_def Let_def split: prod.split)

lemma training_get_line [simp]:
  "training_get cb (line_upd l s, u) = apsnd (apfst (line_upd l)) (training_get cb (s, u))"
  by (cases "t_training s") (auto simp: training_get_def tx_normal_def Let_def split: prod.split)

lemma getbaud_line [simp]:
  "getbaud cb (line_upd l s, u) = apsnd (apfst (line_upd l)) (getbaud cb (s, u))"
  by (auto simp: getbaud_def Let_def split: prod.split)

lemma bauds_line [simp]:
  "bauds cb n (line_upd l s, u) = apfst (line_upd l) (bauds cb n (s, u))"
proof (induction n)
  case (Suc n)
  obtain s1 u1 where "bauds cb n (s, u) = (s1, u1)" by fastforce
  moreover obtain p s2 u2 where "getbaud cb (s1, u1) = (p, s2, u2)" by (metis prod_cases3)
  ultimately show ?case using Suc by simp
qed simp

lemma line_upd_self: "line_upd (t_rrc_re s, t_rrc_im s, t_rrc_step s, t_baud_phase s, t_carrier_phase s, t_guard_phase s) s = s"
  by (simp add: line_upd_def)

text \<open>Whatever the sample loop does to a state after the symbol is a change of its own fields.\<close>

lemma line_upd_absorb [simp]:
  "line_upd l (s\<lparr>t_carrier_phase := c\<rparr>) = line_upd l s" "line_upd l (s\<lparr>t_guard_phase := c\<rparr>) = line_upd l s"
  "line_upd l (s\<lparr>t_baud_phase := p\<rparr>) = line_upd l s" "line_upd l (s\<lparr>t_rrc_step := p\<rparr>) = line_upd l s"
  "line_upd l (s\<lparr>t_rrc_re := re\<rparr>) = line_upd l s" "line_upd l (s\<lparr>t_rrc_im := re\<rparr>) = line_upd l s"
  by (simp_all add: line_upd_def split: prod.split)

definition line_rel :: "('f, 'd) v22 \<Rightarrow> ('f, 'd) v22 \<Rightarrow> bool" where
  "line_rel s s' \<longleftrightarrow> (\<forall>l. line_upd l s' = line_upd l s)"

lemma line_relD: "line_rel s s' \<Longrightarrow> \<exists>l. s' = line_upd l s"
  unfolding line_rel_def by (rule exI, rule trans [OF line_upd_self [symmetric]], drule spec, assumption)

lemma getbaud_rel:
  assumes "line_rel s s'" and "getbaud cb (s, u) = (p, s1, u1)"
  shows "\<exists>s1'. getbaud cb (s', u) = (p, s1', u1) \<and> line_rel s1 s1'"
  using line_relD [OF assms(1)] assms(2) by (auto simp: line_rel_def)

lemma bauds_rel:
  assumes "line_rel s s'"
  shows "snd (bauds cb n (s', u)) = snd (bauds cb n (s, u)) \<and> line_rel (fst (bauds cb n (s, u))) (fst (bauds cb n (s', u)))"
  using line_relD [OF assms] by (auto simp: line_rel_def)

text \<open>A sample advances the phase by 3 fortieths of a symbol; if that ends the symbol, the next is
  taken.\<close>

lemma tx_modulate_frame:
  assumes "tx_modulate F s = (a, s')"
  shows "line_rel s s'" and "t_baud_phase s' = t_baud_phase s" and "t_rrc_step s' = t_rrc_step s"
    and "t_constellation s' = t_constellation s"
  using assms by (simp_all add: tx_modulate_def line_rel_def Let_def split: prod.splits) auto

lemma tx_symbol_step:
  assumes "tx_symbol F cb (s, u) = (s', u')" and "tx_inv s"
  shows "line_rel (fst (bauds cb ((t_baud_phase s + 3) div 40) (s, u))) s'
    \<and> u' = snd (bauds cb ((t_baud_phase s + 3) div 40) (s, u))
    \<and> t_baud_phase s' = (t_baud_phase s + 3) mod 40 \<and> tx_inv s'"
proof (cases "t_baud_phase s + 3 \<ge> 40")
  case True
  define s1 where "s1 = s\<lparr>t_baud_phase := t_baud_phase s + 3 - 40\<rparr>"
  obtain re im s2 u2 where g: "getbaud cb (s1, u) = ((re, im), s2, u2)" by (metis prod_cases3 prod.collapse)
  have k: "tx_kept s1 s2" using getbaud_kept [OF g] .
  have "line_rel s1 s" by (simp add: line_rel_def s1_def)
  from getbaud_rel [OF this g] obtain sb where sb: "getbaud cb (s, u) = ((re, im), sb, u2)" "line_rel s2 sb" by blast
  have s': "s' = s2\<lparr>t_rrc_re := (t_rrc_re s2)(t_rrc_step s2 := fp_of_int F re),
     t_rrc_im := (t_rrc_im s2)(t_rrc_step s2 := fp_of_int F im),
     t_rrc_step := (if Suc (t_rrc_step s2) \<ge> V22BIS_TX_FILTER_STEPS then 0 else Suc (t_rrc_step s2))\<rparr>" "u' = u2"
    using assms(1) g True
    by (simp_all add: tx_symbol_def s1_def V22BIS_TX_PHASE_STEP_def V22BIS_TX_PHASES_def)
  have "t_baud_phase s < 40" using assms(2) by (simp add: tx_inv_def V22BIS_TX_PHASES_def)
  then have d: "(t_baud_phase s + 3) div 40 = 1" "(t_baud_phase s + 3) mod 40 = t_baud_phase s + 3 - 40"
    using True by (simp_all add: div_if mod_if)
  show ?thesis
    unfolding d using s' sb k assms(2) True
    by (auto simp: line_rel_def tx_inv_def tx_kept_def s1_def V22BIS_TX_PHASES_def V22BIS_TX_FILTER_STEPS_def)
next
  case False
  with assms show ?thesis
    by (auto simp: tx_symbol_def line_rel_def tx_inv_def V22BIS_TX_PHASE_STEP_def V22BIS_TX_PHASES_def)
qed

lemma tx_sample_step:
  assumes "tx_sample F cb (s, u) = (a, s', u')" and "tx_inv s"
  shows "line_rel (fst (bauds cb ((t_baud_phase s + 3) div 40) (s, u))) s'
    \<and> u' = snd (bauds cb ((t_baud_phase s + 3) div 40) (s, u))
    \<and> t_baud_phase s' = (t_baud_phase s + 3) mod 40 \<and> tx_inv s'"
proof -
  obtain s1 u1 where 1: "tx_symbol F cb (s, u) = (s1, u1)" by fastforce
  obtain b s2 where 2: "tx_modulate F s1 = (b, s2)" by fastforce
  from assms(1) 1 2 have "s' = s2" "u' = u1" by (simp_all add: tx_sample_def)
  with tx_symbol_step [OF 1 assms(2)] tx_modulate_frame [OF 2] show ?thesis
    by (auto simp: line_rel_def tx_inv_def)
qed

lemma bauds_add: "bauds cb (m + n) su = bauds cb n (bauds cb m su)"
  by (induction n) simp_all

text \<open>Over \<open>n\<close> samples exactly \<open>(phase + 3 n) div 40\<close> symbols go out: 600 a second.\<close>

lemma tx_samples_symbols:
  assumes "tx_inv s"
  shows "line_rel (fst (bauds cb ((t_baud_phase s + 3 * n) div 40) (s, u))) (fst (snd (tx_samples F cb n (s, u))))
    \<and> snd (snd (tx_samples F cb n (s, u))) = snd (bauds cb ((t_baud_phase s + 3 * n) div 40) (s, u))
    \<and> tx_inv (fst (snd (tx_samples F cb n (s, u))))"
  using assms
proof (induction n arbitrary: s u)
  case 0
  then show ?case by (simp add: line_rel_def tx_inv_def V22BIS_TX_PHASES_def)
next
  case (Suc n)
  obtain a s1 u1 where 1: "tx_sample F cb (s, u) = (a, s1, u1)" by (metis prod_cases3)
  have st: "line_rel (fst (bauds cb ((t_baud_phase s + 3) div 40) (s, u))) s1"
    "u1 = snd (bauds cb ((t_baud_phase s + 3) div 40) (s, u))"
    "t_baud_phase s1 = (t_baud_phase s + 3) mod 40" "tx_inv s1"
    using tx_sample_step [OF 1 Suc.prems] by auto
  let ?k = "(t_baud_phase s + 3) div 40"
  have "t_baud_phase s + 3 * Suc n = (t_baud_phase s1 + 3 * n) + 40 * ?k" using st by simp
  then have k: "(t_baud_phase s + 3 * Suc n) div 40 = ?k + (t_baud_phase s1 + 3 * n) div 40"
    by (simp only: div_mult_self2 [of 40, OF zero_neq_numeral [symmetric]])
  obtain sk uk where k1: "bauds cb ?k (s, u) = (sk, uk)" by fastforce
  obtain sn un where k2: "tx_samples F cb n (s1, u1) = (fst (tx_samples F cb n (s1, u1)), sn, un)"
    by (metis prod.collapse)
  have IH: "line_rel (fst (bauds cb ((t_baud_phase s1 + 3 * n) div 40) (s1, u1))) sn
    \<and> un = snd (bauds cb ((t_baud_phase s1 + 3 * n) div 40) (s1, u1)) \<and> tx_inv sn"
    using Suc.IH [OF st(4), of u1] k2 by (metis fst_conv snd_conv)
  have r: "line_rel sk s1" "u1 = uk" using st(1,2) k1 by simp_all
  have e: "snd (tx_samples F cb (Suc n) (s, u)) = (sn, un)"
    using 1 k2 by (simp split: prod.split) (metis prod.inject)
  show ?case
    unfolding e k bauds_add k1
    using IH bauds_rel [OF r(1), of cb "(t_baud_phase s1 + 3 * n) div 40" u1] r(2) by (simp add: line_rel_def)
qed

lemma sm_sat16_range: "-32768 \<le> sm_sat16 F x \<and> sm_sat16 F x \<le> 32767"
  using sint_greater_eq [of "word_of_int (fp_lrint F x) :: 16 word"] sint_lt [of "word_of_int (fp_lrint F x) :: 16 word"]
  by (simp add: sm_sat16_def)

lemma tx_samples_range: "\<forall>a \<in> set (fst (tx_samples F cb n su)). -32768 \<le> a \<and> a \<le> 32767"
proof (induction n arbitrary: su)
  case (Suc n)
  obtain a su1 where 1: "tx_sample F cb su = (a, su1)" by (cases "tx_sample F cb su") auto
  then have "\<exists>x. a = sm_sat16 F x"
    by (auto simp: tx_sample_def tx_modulate_def Let_def split: prod.splits)
  with 1 Suc [of su1] sm_sat16_range [of F] show ?case by (auto split: prod.split)
qed simp

lemma length_tx_samples [simp]: "length (fst (tx_samples F cb n su)) = n"
proof (induction n arbitrary: su)
  case (Suc n)
  show ?case using Suc [of "snd (tx_sample F cb su)"]
    by (cases "tx_sample F cb su"; cases "tx_samples F cb n (snd (tx_sample F cb su))") simp
qed simp

lemma restart_tx: "tx_inv (v22bis_restart F s)" "t_baud_phase (v22bis_restart F s) = 0"
  "t_training (v22bis_restart F s) = (if v_calling s then TxInitialSilence else TxInitialTimedSilence)"
  "t_training_count (v22bis_restart F s) = 0" "v_calling (v22bis_restart F s) = v_calling s"
  "v_negotiated (v22bis_restart F s) = 1200" "t_shutdown (v22bis_restart F s) = 0"
  by (simp_all add: v22bis_restart_def v22bis_tx_power_def v22bis_rx_restart_def v22bis_rx_set_signal_cutoff_def
      sm_power_meter_init_def equalizer_reset_def tx_inv_def V22BIS_TX_PHASES_def V22BIS_TX_FILTER_STEPS_def Let_def)

lemma line_rel_tx: "line_rel s s' \<Longrightarrow> t_training s' = t_training s"
  by (metis line_relD line_upd_simps(3))

text \<open>The table from a restart of the answering modem.\<close>

lemma silence_table:
  "(tx_next False neg ^^ n) (TxInitialTimedSilence, 0) = (if n < 45 then (TxInitialTimedSilence, int n) else (TxU11, 0))"
  by (induction n) (auto simp: tx_next_def split: if_splits)

subsection \<open>Exact arithmetic\<close>

text \<open>The parameter instantiated by exact real arithmetic, with the filter tables left open.\<close>

definition c_trunc :: "real \<Rightarrow> int" where
  "c_trunc x = (if x < 0 then - \<lfloor>- x\<rfloor> else \<lfloor>x\<rfloor>)"

definition exact_fp :: "(nat \<Rightarrow> nat \<Rightarrow> real) \<Rightarrow> (nat \<Rightarrow> nat \<Rightarrow> real) \<Rightarrow> (nat \<Rightarrow> nat \<Rightarrow> real) \<Rightarrow>
    (nat \<Rightarrow> nat \<Rightarrow> real) \<Rightarrow> (nat \<Rightarrow> nat \<Rightarrow> real) \<Rightarrow> (real, real) fp" where
  "exact_fp tx r12 i12 r24 i24 =
     \<lparr>fp_add = (+), fp_sub = (-), fp_mul = (*), fp_div = (/), fp_less = (<), fp_neg = uminus, fp_le = (\<le>), fp_eq = (=),
      fp_lit = (\<lambda>n d. of_int n / of_int d), fp_of_int = of_int, fp_to_int = c_trunc, fp_lrint = round,
      fp_cos = cos, fp_sin = sin, fp_sqrt = sqrt, fp_pow10 = (\<lambda>x. 10 powr x),
      dp_add = (+), dp_sub = (-), dp_mul = (*), dp_div = (/), dp_less = (<), dp_lit = (\<lambda>n d. of_int n / of_int d),
      dp_of_f = id, dp_to_f = id, dp_exp = exp, dp_pow10 = (\<lambda>x. 10 powr x),
      tab_tx = tx, tab_1200_re = r12, tab_1200_im = i12, tab_2400_re = r24, tab_2400_im = i24\<rparr>"

definition plain_fp :: "(real, real) fp" where
  "plain_fp = exact_fp (\<lambda>_ _. 1) (\<lambda>_ _. 1) (\<lambda>_ _. 1) (\<lambda>_ _. 1) (\<lambda>_ _. 1)"

definition idle_cb :: "unit v22_cb" where
  "idle_cb = \<lparr>cb_get = (\<lambda>u. (1, u)), cb_put = None, cb_status = None\<rparr>"

subsection \<open>Properties\<close>

text \<open>C11: the symbol clock is exact: over any number of samples the transmitter takes
  \<open>(phase + 3 n) div 40\<close> symbols, as if they had been asked for one by one, since nothing the sample loop keeps for
  itself has an influence on them; the indices of its delay lines and of the 40 filter phases stay in
  range and every sample fits 16 bits, for any arithmetic and any callbacks.\<close>

theorem tx_symbol_clock:
  assumes "tx_inv s" and "t_shutdown s \<le> 10" and "v22bis_tx F cb n (s, u) = (amp, s', u')"
  shows "length amp = n \<and> (\<forall>a \<in> set amp. -32768 \<le> a \<and> a \<le> 32767) \<and> tx_inv s'
    \<and> (\<exists>l. (s', u') = apfst (line_upd l) (bauds cb ((t_baud_phase s + 3 * n) div 40) (s, u)))"
proof -
  from assms(2,3) have e: "tx_samples F cb n (s, u) = (amp, s', u')" by (simp add: v22bis_tx_def)
  have "line_rel (fst (bauds cb ((t_baud_phase s + 3 * n) div 40) (s, u))) s'"
    "u' = snd (bauds cb ((t_baud_phase s + 3 * n) div 40) (s, u))" "tx_inv s'"
    using tx_samples_symbols [OF assms(1), where F = F and cb = cb and n = n and u = u] e by simp_all
  then show ?thesis
    using line_relD [of _ s'] tx_samples_range [of F cb n "(s, u)"] length_tx_samples [of F cb n "(s, u)"] e
    by (fastforce simp: apfst_def map_prod_def split: prod.split)
qed

theorem tx_symbol_clock_witness:
  "length (fst (v22bis_tx plain_fp idle_cb 160 (v22bis_init plain_fp False 2400, ()))) = 160"
proof -
  obtain amp s' u' where e: "v22bis_tx plain_fp idle_cb 160 (v22bis_init plain_fp False 2400, ()) = (amp, s', u')"
    by (metis prod_cases3)
  have "tx_inv (v22bis_init plain_fp False 2400)" "t_shutdown (v22bis_init plain_fp False 2400) \<le> 10"
    by (simp_all add: v22bis_init_def restart_tx Let_def)
  from tx_symbol_clock [OF this e] show ?thesis unfolding e by simp
qed

text \<open>The answering modem's start, sample-exact: after a restart it is silent for its 45 symbols,
  that is 600 samples, and from then on sends unscrambled ones until the receiver moves it on.\<close>

theorem answer_silence_samples:
  assumes "\<not> v_calling s0" and "s = v22bis_restart F s0"
  shows "t_training (fst (snd (v22bis_tx F cb n (s, u)))) = (if n < 600 then TxInitialTimedSilence else TxU11)
    \<and> snd (snd (v22bis_tx F cb n (s, u))) = u"
proof -
  have a: "tx_abs s = (TxInitialTimedSilence, 0)" "v_calling s = False" "t_baud_phase s = 0" "tx_inv s" "t_shutdown s = 0"
    using assms restart_tx [of F s0] by (simp_all add: tx_abs_def)
  have n: "3 * n div 40 < 45 \<longleftrightarrow> n < 600" by (simp add: div_less_iff_less_mult)
  have "tx_abs (fst (bauds cb (3 * n div 40) (s, u))) = (if n < 600 then (TxInitialTimedSilence, int (3 * n div 40)) else (TxU11, 0))
      \<and> snd (bauds cb (3 * n div 40) (s, u)) = u"
    using bauds_training [of "3 * n div 40" s cb u] a n silence_table [where neg = "v_negotiated s"] by auto
  then show ?thesis
    using tx_samples_symbols [OF a(4), where F = F and cb = cb and n = n and u = u] a
      line_rel_tx [of "fst (bauds cb (3 * n div 40) (s, u))"]
    by (auto simp: v22bis_tx_def tx_abs_def split: if_splits)
qed

theorem answer_silence_samples_witness:
  "t_training (fst (snd (v22bis_tx plain_fp idle_cb 599 (v22bis_restart plain_fp (v22_zero plain_fp False 2400), ()))))
     = TxInitialTimedSilence"
proof -
  have "\<not> v_calling (v22_zero plain_fp False 2400)" by (simp add: v22_zero_def Let_def)
  from answer_silence_samples [OF this refl, of plain_fp idle_cb 599 "()"] show ?thesis by simp
qed

lemma timed_table:
  "(tx_next False neg ^^ n) (TxTimedS11, 0)
     = (if n < 453 then (TxTimedS11, int n)
        else if neg = 2400 \<and> n < 573 then (TxS1111, int n - 453) else (TxNormal, 0))"
  by (induction n) (auto simp: tx_next_def split: if_splits)

text \<open>C33: the training segments of the answering modem, symbol by symbol: from a restart 45 symbols of silence, then
  unscrambled ones for as long as the receiver leaves it there. When the receiver has found S1: 60 symbols of S1, 300 of
  scrambled ones (500 ms, since the count starts at 153 of 453), with 2400 negotiated another 120 at 2400, and data.
  When the receiver has not found S1: 453 symbols of scrambled ones (755 ms), another 120 with 2400
  negotiated, and data. Success is reported once, on entering data mode.\<close>

theorem answer_training_times:
  assumes "\<not> v_calling s" and "t_training_count s = 0"
  shows "(t_training s = TxInitialTimedSilence \<longrightarrow>
       t_training (fst (bauds cb n (s, u))) = (if n < 45 then TxInitialTimedSilence else TxU11) \<and> snd (bauds cb n (s, u)) = u)
    \<and> (t_training s = TxU0011 \<and> n \<le> (if v_negotiated s = 2400 then 480 else 360) \<longrightarrow>
       t_training (fst (bauds cb n (s, u))) =
         (if n < 60 then TxU0011 else if n < 360 then TxTimedS11
          else if v_negotiated s = 2400 \<and> n < 480 then TxS1111 else TxNormal)
       \<and> snd (bauds cb n (s, u)) =
         (if n = (if v_negotiated s = 2400 then 480 else 360) then report_status cb TrainingSucceeded u else u))
    \<and> (t_training s = TxTimedS11 \<and> n \<le> (if v_negotiated s = 2400 then 573 else 453) \<longrightarrow>
       t_training (fst (bauds cb n (s, u))) =
         (if n < 453 then TxTimedS11 else if v_negotiated s = 2400 \<and> n < 573 then TxS1111 else TxNormal)
       \<and> snd (bauds cb n (s, u)) =
         (if n = (if v_negotiated s = 2400 then 573 else 453) then report_status cb TrainingSucceeded u else u))"
proof -
  have a: "tx_abs s = (t_training s, 0)" "v_calling s = False" using assms by (simp_all add: tx_abs_def)
  have 1: "t_training (fst (bauds cb n (s, u))) = (if n < 45 then TxInitialTimedSilence else TxU11) \<and> snd (bauds cb n (s, u)) = u"
    if "t_training s = TxInitialTimedSilence"
    using bauds_training [of n s cb u] a that silence_table [where neg = "v_negotiated s"]
    by (auto simp: tx_abs_def split: if_splits)
  have 2: "t_training (fst (bauds cb n (s, u))) =
         (if n < 60 then TxU0011 else if n < 360 then TxTimedS11
          else if v_negotiated s = 2400 \<and> n < 480 then TxS1111 else TxNormal)
       \<and> snd (bauds cb n (s, u)) =
         (if n = (if v_negotiated s = 2400 then 480 else 360) then report_status cb TrainingSucceeded u else u)"
    if "t_training s = TxU0011" "n \<le> (if v_negotiated s = 2400 then 480 else 360)"
    using bauds_training [of n s cb u] a that answer_table [where neg = "v_negotiated s"]
    by (auto simp: tx_abs_def split: if_splits)
  have 3: "t_training (fst (bauds cb n (s, u))) =
         (if n < 453 then TxTimedS11 else if v_negotiated s = 2400 \<and> n < 573 then TxS1111 else TxNormal)
       \<and> snd (bauds cb n (s, u)) =
         (if n = (if v_negotiated s = 2400 then 573 else 453) then report_status cb TrainingSucceeded u else u)"
    if "t_training s = TxTimedS11" "n \<le> (if v_negotiated s = 2400 then 573 else 453)"
    using bauds_training [of n s cb u] a that timed_table [where neg = "v_negotiated s"]
    by (auto simp: tx_abs_def split: if_splits)
  from 1 2 3 show ?thesis by blast
qed

theorem answer_training_times_witness:
  "t_training (fst (bauds idle_cb 45 ((v22_zero plain_fp False 2400)\<lparr>t_training := TxInitialTimedSilence\<rparr>, ()))) = TxU11
   \<and> t_training (fst (bauds idle_cb 100 ((v22_zero plain_fp False 2400)\<lparr>t_training := TxU0011\<rparr>, ()))) = TxTimedS11
   \<and> t_training (fst (bauds idle_cb 100 ((v22_zero plain_fp False 2400)\<lparr>t_training := TxTimedS11\<rparr>, ()))) = TxTimedS11"
proof -
  let ?s = "\<lambda>tr. (v22_zero plain_fp False 2400)\<lparr>t_training := tr\<rparr>"
  have h: "\<not> v_calling (?s tr)" "t_training_count (?s tr) = 0" for tr
    by (simp_all add: v22_zero_def Let_def)
  from answer_training_times [OF h, of TxInitialTimedSilence idle_cb 45 "()"]
    answer_training_times [OF h, of TxU0011 idle_cb 100 "()"] answer_training_times [OF h, of TxTimedS11 idle_cb 100 "()"]
  show ?thesis by simp
qed

end
