(* ===== verification/V22_Link.thy ===== *)
theory V22_Link
  imports V22_Rx V22_Clock
begin

text \<open>
  The V.22bis data link: the descrambler undoes the scrambler and synchronises by itself, the slicers
  are right in exact arithmetic with a noise margin of half the point distance, and so the receiver
  hands out the bits the transmitter took.
\<close>

subsection \<open>The scramblers\<close>

text \<open>The feedback the two sides take from their registers, and when they agree.\<close>

definition tap :: "u32 \<Rightarrow> bool" where
  "tap reg = (bit reg 13 \<noteq> bit reg 16)"

definition synced :: "('f, 'd) v22 \<Rightarrow> ('g, 'e) v22 \<Rightarrow> bool" where
  "synced t r \<longleftrightarrow> (\<forall>i < 17. bit (t_scramble_reg t) i = bit (r_scramble_reg r) i) \<and> t_pattern_count t = r_pattern_count r"

lemma tap_word: "(w XOR drop_bit 13 reg XOR drop_bit 16 reg) AND 1 = (of_bool (odd w \<noteq> tap reg) :: u32)"
  by (rule bit_word_eqI) (auto simp: bit_simps tap_def bit_0 bit_1_iff even_drop_bit_iff_not_bit elim: oddE)

lemma word_of_bit: "b = 0 \<or> b = 1 \<Longrightarrow> odd (word_of_int b :: u32) = (b = 1)"
  by auto

definition shift_in :: "u32 \<Rightarrow> bool \<Rightarrow> u32" where
  "shift_in reg b = push_bit 1 reg OR of_bool b"

lemma shifted_in: "bit (shift_in reg b) i = (if i = 0 then b else i < 32 \<and> bit reg (i - 1))"
  by (auto simp: shift_in_def bit_or_iff bit_push_bit_iff bit_of_bool_iff simp del: push_bit_of_1 push_bit_numeral push_bit_Suc)

lemma scramble_bool:
  assumes "b = 0 \<or> b = 1"
  shows "scramble b s =
    (let flip = t_pattern_count s \<ge> 64;
         o1 = (((b = 1) \<noteq> flip) \<noteq> tap (t_scramble_reg s));
         c = (if flip then 0 else t_pattern_count s)
     in (of_bool o1, s\<lparr>t_scramble_reg := shift_in (t_scramble_reg s) o1,
          t_pattern_count := (if o1 then c + 1 else 0)\<rparr>))"
  using assms by (auto simp: scramble_def Let_def tap_word shift_in_def)

lemma descramble_bool:
  "descramble (of_bool b) s =
    (let flip = r_pattern_count s \<ge> 64;
         c = (if flip then 0 else r_pattern_count s)
     in (of_bool ((b \<noteq> tap (r_scramble_reg s)) \<noteq> flip), s\<lparr>r_scramble_reg := shift_in (r_scramble_reg s) b,
          r_pattern_count := (if b then c + 1 else 0)\<rparr>))"
  by (cases b) (auto simp: descramble_def Let_def tap_word shift_in_def)

text \<open>A bit sent through the scrambler and received comes back, and the registers still agree.\<close>

lemma descramble_scramble:
  assumes "synced t r" and "b = 0 \<or> b = 1"
  shows "\<exists>o1. scramble b t = (o1, snd (scramble b t)) \<and> o1 < 2
    \<and> fst (descramble o1 r) = nat b \<and> synced (snd (scramble b t)) (snd (descramble o1 r))"
proof -
  define o1 where "o1 = (((b = 1) \<noteq> (t_pattern_count t \<ge> 64)) \<noteq> tap (t_scramble_reg t))"
  have t: "tap (r_scramble_reg r) = tap (t_scramble_reg t)" "r_pattern_count r = t_pattern_count t"
    using assms(1) by (simp_all add: synced_def tap_def)
  define c where "c = (if t_pattern_count t \<ge> 64 then 0 else t_pattern_count t)"
  have s: "scramble b t = (of_bool o1, t\<lparr>t_scramble_reg := shift_in (t_scramble_reg t) o1,
      t_pattern_count := (if o1 then c + 1 else 0)\<rparr>)"
    unfolding scramble_bool [OF assms(2)] Let_def o1_def c_def by simp
  have d: "descramble (of_bool o1) r = (of_bool (b = 1), r\<lparr>r_scramble_reg := shift_in (r_scramble_reg r) o1,
      r_pattern_count := (if o1 then c + 1 else 0)\<rparr>)"
    unfolding descramble_bool t Let_def o1_def c_def by auto
  from s d assms show ?thesis by (intro exI [of _ "of_bool o1"]) (auto simp: synced_def shifted_in)
qed

text \<open>The descrambler locks on by itself: 17 received bits fill the part of the register in use.\<close>

fun descramble_all :: "bool list \<Rightarrow> ('f, 'd) v22 \<Rightarrow> ('f, 'd) v22" where
  "descramble_all [] r = r"
| "descramble_all (b # bs) r = descramble_all bs (snd (descramble (of_bool b) r))"


subsection \<open>The slicers in exact arithmetic\<close>

lemma plain_fp_simps [simp]:
  "fp_add plain_fp = (+)" "fp_sub plain_fp = (-)" "fp_mul plain_fp = (*)" "fp_less plain_fp = (<)"
  "fp_lit plain_fp n d = of_int n / of_int d" "fp_to_int plain_fp = c_trunc"
  by (simp_all add: plain_fp_def exact_fp_def)

lemma c_trunc_floor: "0 \<le> x \<Longrightarrow> c_trunc x = \<lfloor>x\<rfloor>"
  by (simp add: c_trunc_def)

lemma c_trunc_neg: "x < 0 \<Longrightarrow> c_trunc x \<le> 0"
  by (simp add: c_trunc_def)

text \<open>The level of one coordinate: the row or column of the slicer's table and the value it stands for.\<close>

definition cell :: "real \<Rightarrow> nat" where
  "cell x = clamp_cell (c_trunc (x + 3))"

definition level :: "nat \<Rightarrow> int" where
  "level i = [-3, -1, -1, 1, 1, 3] ! i"

lemma cell_bounds: "cell x < 6"
  unfolding cell_def clamp_cell_def by auto

lemma cell_floor: "of_int k \<le> x + 3 \<Longrightarrow> x + 3 < of_int k + 1 \<Longrightarrow> 0 \<le> k \<Longrightarrow> k < 6 \<Longrightarrow> cell x = nat k"
proof -
  assume a: "of_int k \<le> x + 3" "x + 3 < of_int k + 1" "0 \<le> k" "k < 6"
  then have "\<lfloor>x + 3\<rfloor> = k" by (intro floor_unique)
  moreover have "0 \<le> x + 3" using a(1,3) by linarith
  ultimately have "c_trunc (x + 3) = k" using c_trunc_floor [of "x + 3"] by simp
  then show "cell x = nat k" using a(3,4) by (simp only: cell_def clamp_cell_def) auto
qed

lemma cell_cases:
  "x < -2 \<Longrightarrow> cell x = 0" "-2 \<le> x \<Longrightarrow> x < -1 \<Longrightarrow> cell x = 1" "-1 \<le> x \<Longrightarrow> x < 0 \<Longrightarrow> cell x = 2"
  "0 \<le> x \<Longrightarrow> x < 1 \<Longrightarrow> cell x = 3" "1 \<le> x \<Longrightarrow> x < 2 \<Longrightarrow> cell x = 4" "2 \<le> x \<Longrightarrow> cell x = 5"
proof -
  assume x: "x < -2"
  show "cell x = 0"
  proof (cases "x + 3 < 0")
    case True
    have "clamp_cell k = 0" if "k \<le> 0" for k using that by (simp add: clamp_cell_def)
    then show ?thesis using c_trunc_neg [OF True] by (simp only: cell_def)
  next
    case False
    then show ?thesis using x cell_floor [of 0 x] by simp
  qed
next
  assume x: "2 \<le> x"
  have "5 \<le> \<lfloor>x + 3\<rfloor>" by (subst le_floor_iff) (use x in simp)
  moreover have "c_trunc (x + 3) = \<lfloor>x + 3\<rfloor>" using x by (intro c_trunc_floor) simp
  moreover have "clamp_cell k = 5" if "5 \<le> k" for k using that by (cases "k = 5") (simp_all add: clamp_cell_def)
  ultimately show "cell x = 5" by (simp only: cell_def)
qed (use cell_floor [of 1 x] cell_floor [of 2 x] cell_floor [of 3 x] cell_floor [of 4 x] in simp_all)

lemma cell_level: "\<bar>x - of_int (level (cell x))\<bar> \<le> \<bar>x - v\<bar>" if "v \<in> {-3, -1, 1, 3}"
proof -
  consider "x < -2" | "-2 \<le> x" "x < -1" | "-1 \<le> x" "x < 0" | "0 \<le> x" "x < 1" | "1 \<le> x" "x < 2" | "2 \<le> x" by linarith
  then show ?thesis using that by cases (auto simp: cell_cases level_def)
qed

lemma slice_16_cells: "slice_16 plain_fp z = space_map_v22bis (cell (fst z)) (cell (snd z))"
  by (simp add: slice_16_def cell_def)

lemma less_6: "(i :: nat) < 6 \<longleftrightarrow> i \<in> {0, 1, 2, 3, 4, 5}"
  by auto

text \<open>The table's entries are the points with the two levels.\<close>

lemma space_map_point:
  assumes "i < 6" and "j < 6"
  shows "space_map_v22bis i j < 16" and "v22bis_constellation (space_map_v22bis i j) = (level i, level j)"
  using assms unfolding less_6 by (auto simp: space_map_v22bis_def v22bis_constellation_def level_def eval_nat_numeral)

lemma point_levels: "k < 16 \<Longrightarrow> fst (v22bis_constellation k) \<in> {-3, -1, 1, 3} \<and> snd (v22bis_constellation k) \<in> {-3, -1, 1, 3}"
  by (auto simp: v22bis_constellation_def less_Suc_eq eval_nat_numeral)

lemma point_inj: "i < 16 \<Longrightarrow> j < 16 \<Longrightarrow> v22bis_constellation i = v22bis_constellation j \<Longrightarrow> i = j"
proof -
  have "distinct (map v22bis_constellation [0..<16])" by code_simp
  then have "inj_on v22bis_constellation {0..<16}" by (simp add: distinct_map)
  then show "i < 16 \<Longrightarrow> j < 16 \<Longrightarrow> v22bis_constellation i = v22bis_constellation j \<Longrightarrow> i = j"
    by (simp add: inj_on_def)
qed

definition near :: "real \<times> real \<Rightarrow> nat \<Rightarrow> bool" where
  "near z k \<longleftrightarrow> \<bar>fst z - of_int (fst (v22bis_constellation k))\<bar> < 1 \<and> \<bar>snd z - of_int (snd (v22bis_constellation k))\<bar> < 1"

lemma level_cases:
  "x < -2 \<Longrightarrow> level (cell x) = -3" "-2 \<le> x \<Longrightarrow> x < 0 \<Longrightarrow> level (cell x) = -1"
  "0 \<le> x \<Longrightarrow> x < 2 \<Longrightarrow> level (cell x) = 1" "2 \<le> x \<Longrightarrow> level (cell x) = 3"
proof -
  assume "-2 \<le> x" "x < 0"
  then show "level (cell x) = -1" using cell_cases(2,3) [of x] by (cases "x < -1") (simp_all add: level_def)
next
  assume "0 \<le> x" "x < 2"
  then show "level (cell x) = 1" using cell_cases(4,5) [of x] by (cases "x < 1") (simp_all add: level_def)
qed (simp_all add: cell_cases level_def)

lemma level_near: "v \<in> {-3, -1, 1, 3 :: int} \<Longrightarrow> \<bar>x - of_int v\<bar> < 1 \<Longrightarrow> level (cell x) = v"
proof -
  assume v: "v \<in> {-3, -1, 1, 3}" and "\<bar>x - of_int v\<bar> < 1"
  then have b: "of_int v - 1 < x" "x < of_int v + 1" by linarith+
  from v consider "v = -3" | "v = -1" | "v = 1" | "v = 3" by blast
  then show "level (cell x) = v" using b by cases (simp_all add: level_cases)
qed

lemma slice_16_near: "k < 16 \<Longrightarrow> near z k \<Longrightarrow> slice_16 plain_fp z = k"
proof (rule point_inj)
  assume k: "k < 16" and n: "near z k"
  then show "v22bis_constellation (slice_16 plain_fp z) = v22bis_constellation k"
    using point_levels [OF k] level_near by (simp add: near_def slice_16_cells space_map_point cell_bounds prod_eq_iff)
qed (simp add: slice_16_cells space_map_point cell_bounds)

lemma slice_4_signs:
  "slice_4 plain_fp (x, y) =
     (if x * (44721 / 100000) + y * (894427 / 1000000) < 0
      then (if x * (894427 / 1000000) - y * (44721 / 100000) < 0 then 9 else 13)
      else (if x * (894427 / 1000000) - y * (44721 / 100000) < 0 then 5 else 1))"
  by (simp add: slice_4_def sm_cf_mul_def rot45_def Let_def add.commute)

lemma slice_4_near:
  assumes "q < 4" and "near z (4 * q + 1)"
  shows "slice_4 plain_fp z = 4 * q + 1"
proof -
  obtain x y where z: "z = (x, y)" by fastforce
  have q: "q = 0 \<or> q = 1 \<or> q = 2 \<or> q = 3" using assms(1) by auto
  then obtain a b :: int where p: "v22bis_constellation (4 * q + 1) = (a, b)"
    "(q, a, b) = (0, 3, 1) \<or> (q, a, b) = (1, -1, 3) \<or> (q, a, b) = (2, -3, -1) \<or> (q, a, b) = (3, 1, -3)"
    by (fastforce simp: v22bis_constellation_def)
  with assms(2) z have b: "\<bar>x - of_int a\<bar> < 1" "\<bar>y - of_int b\<bar> < 1" by (simp_all add: near_def)
  have cb: "of_int a - 1 < x" "x < of_int a + 1" "of_int b - 1 < y" "y < of_int b + 1"
    using b by linarith+
  show ?thesis
    using p(2) unfolding z slice_4_signs
  proof (elim disjE)
    assume e: "(q, a, b) = (0, 3, 1)"
    have "\<not> x * (44721 / 100000) + y * (894427 / 1000000) < 0" "\<not> x * (894427 / 1000000) - y * (44721 / 100000) < 0"
      using cb e by (simp_all, (linarith+)?)
    then show "(if x * (44721 / 100000) + y * (894427 / 1000000) < 0
      then (if x * (894427 / 1000000) - y * (44721 / 100000) < 0 then 9 else 13)
      else (if x * (894427 / 1000000) - y * (44721 / 100000) < 0 then 5 else 1)) = 4 * q + 1" using e by simp
  next
    assume e: "(q, a, b) = (1, -1, 3)"
    have "\<not> x * (44721 / 100000) + y * (894427 / 1000000) < 0" "x * (894427 / 1000000) - y * (44721 / 100000) < 0"
      using cb e by (simp_all, (linarith+)?)
    then show "(if x * (44721 / 100000) + y * (894427 / 1000000) < 0
      then (if x * (894427 / 1000000) - y * (44721 / 100000) < 0 then 9 else 13)
      else (if x * (894427 / 1000000) - y * (44721 / 100000) < 0 then 5 else 1)) = 4 * q + 1" using e by simp
  next
    assume e: "(q, a, b) = (2, -3, -1)"
    have "x * (44721 / 100000) + y * (894427 / 1000000) < 0" "x * (894427 / 1000000) - y * (44721 / 100000) < 0"
      using cb e by (simp_all, (linarith+)?)
    then show "(if x * (44721 / 100000) + y * (894427 / 1000000) < 0
      then (if x * (894427 / 1000000) - y * (44721 / 100000) < 0 then 9 else 13)
      else (if x * (894427 / 1000000) - y * (44721 / 100000) < 0 then 5 else 1)) = 4 * q + 1" using e by simp
  next
    assume e: "(q, a, b) = (3, 1, -3)"
    have "x * (44721 / 100000) + y * (894427 / 1000000) < 0" "\<not> x * (894427 / 1000000) - y * (44721 / 100000) < 0"
      using cb e by (simp_all, (linarith+)?)
    then show "(if x * (44721 / 100000) + y * (894427 / 1000000) < 0
      then (if x * (894427 / 1000000) - y * (44721 / 100000) < 0 then 9 else 13)
      else (if x * (894427 / 1000000) - y * (44721 / 100000) < 0 then 5 else 1)) = 4 * q + 1" using e by simp
  qed
qed

subsection \<open>The data link\<close>

text \<open>The bits a callback hands out from a given user state on.\<close>

fun gets :: "'u v22_cb \<Rightarrow> 'u \<Rightarrow> int list \<Rightarrow> 'u \<Rightarrow> bool" where
  "gets cb u [] u' = (u' = u)"
| "gets cb u (b # bs) u' = (fst (cb_get cb u) = b \<and> (b = 0 \<or> b = 1) \<and> gets cb (snd (cb_get cb u)) bs u')"

lemma gets_append: "gets cb u (as @ bs) u' \<longleftrightarrow> (\<exists>v. gets cb u as v \<and> gets cb v bs u')"
  by (induction as arbitrary: u) auto

text \<open>Both modems in data mode at the same rate, with agreeing scramblers and quadrants.\<close>

definition data_mode :: "('f, 'd) v22 \<Rightarrow> ('g, 'e) v22 \<Rightarrow> bool" where
  "data_mode s r \<longleftrightarrow> t_training s = TxNormal \<and> \<not> t_fake_get s \<and> t_shutdown s = 0
     \<and> (r_sixteen_way r \<longleftrightarrow> v_negotiated s \<noteq> 1200) \<and> synced s r"

definition linked :: "('f, 'd) v22 \<Rightarrow> ('g, 'e) v22 \<Rightarrow> bool" where
  "linked s r \<longleftrightarrow> data_mode s r \<and> t_constellation s < 4 \<and> r_constellation r div 4 = t_constellation s"

lemma bit_link:
  assumes "data_mode s r" and "gets cb u [b] u'" and "cb_put cb' = Some f"
  shows "\<exists>c s' r'. get_scrambled_bit cb (s, u) = (c, s', u') \<and> c < 2 \<and> put_bit cb' c (r, w) = (r', f b w)
    \<and> data_mode s' r' \<and> t_constellation s' = t_constellation s \<and> r_constellation r' = r_constellation r
    \<and> v_negotiated s' = v_negotiated s"
proof -
  have b: "b = 0 \<or> b = 1" and g: "cb_get cb u = (b, u')" using assms(2) by (auto simp: prod_eq_iff)
  have m: "synced s r" "\<not> t_fake_get s" using assms(1) by (simp_all add: data_mode_def)
  obtain c where c: "scramble b s = (c, snd (scramble b s))" "c < 2" "fst (descramble c r) = nat b"
    "synced (snd (scramble b s)) (snd (descramble c r))"
    using descramble_scramble [OF m(1) b] by blast
  obtain x y where "snd (scramble b s) = scr_upd x y s" using scramble_upd [of b s] by (metis snd_conv)
  moreover have "r_sixteen_way (snd (descramble c r)) = r_sixteen_way r" "r_constellation (snd (descramble c r)) = r_constellation r"
    by (simp_all add: descramble_def Let_def)
  moreover have "get_scrambled_bit cb (s, u) = (c, snd (scramble b s), u')"
    using m g b c(1) by (auto simp: get_scrambled_bit_def split: prod.splits)
  moreover have "put_bit cb' c (r, w) = (snd (descramble c r), f b w)"
    using c(3) b assms(3) by (auto simp: put_bit_def split: prod.splits)
  ultimately show ?thesis
    using c assms(1) by (intro exI [of _ c] exI [of _ "snd (scramble b s)"] exI [of _ "snd (descramble c r)"])
      (auto simp: data_mode_def)
qed

lemma dibit_link:
  assumes "data_mode s r" and "gets cb u [b1, b2] u'" and "cb_put cb' = Some f"
  shows "\<exists>c s' r'. get_dibit cb (s, u) = (c, s', u') \<and> c < 4
    \<and> put_bit cb' (c mod 2) (put_bit cb' (c div 2) (r, w)) = (r', f b2 (f b1 w))
    \<and> data_mode s' r' \<and> t_constellation s' = t_constellation s \<and> r_constellation r' = r_constellation r
    \<and> v_negotiated s' = v_negotiated s"
proof -
  obtain v where g: "gets cb u [b1] v" "gets cb v [b2] u'" using assms(2) by auto
  obtain c1 s1 r1 where 1: "get_scrambled_bit cb (s, u) = (c1, s1, v)" "c1 < 2" "put_bit cb' c1 (r, w) = (r1, f b1 w)"
    "data_mode s1 r1" "t_constellation s1 = t_constellation s" "r_constellation r1 = r_constellation r"
    "v_negotiated s1 = v_negotiated s"
    using bit_link [OF assms(1) g(1) assms(3)] by blast
  obtain c2 s2 r2 where 2: "get_scrambled_bit cb (s1, v) = (c2, s2, u')" "c2 < 2" "put_bit cb' c2 (r1, f b1 w) = (r2, f b2 (f b1 w))"
    "data_mode s2 r2" "t_constellation s2 = t_constellation s1" "r_constellation r2 = r_constellation r1"
    "v_negotiated s2 = v_negotiated s1"
    using bit_link [OF 1(4) g(2) assms(3)] by blast
  have "(2 * c1 + c2) mod 2 = c2" "(2 * c1 + c2) div 2 = c1" using 2(2) by auto
  then show ?thesis using 1 2 by (intro exI [of _ "2 * c1 + c2"]) (auto simp: get_dibit_def)
qed

lemma quadrant_back:
  assumes "bits < 4" and "q < 4" and "l < 4"
  shows "phase_steps ((4 + (4 * ((q + phase_steps bits) mod 4) + l) div 4 - q) mod 4) = bits"
proof -
  have "bits = 0 \<or> bits = 1 \<or> bits = 2 \<or> bits = 3" "q = 0 \<or> q = 1 \<or> q = 2 \<or> q = 3" using assms by auto
  moreover have "(4 * ((q + phase_steps bits) mod 4) + l) div 4 = (q + phase_steps bits) mod 4" using assms(3) by simp
  ultimately show ?thesis by (elim disjE) (simp_all add: phase_steps_def)
qed

lemma put_bit_parity:
  "put_bit cb n = (put_bit cb (n mod 2) :: ('c, 'd) v22 \<times> 'u \<Rightarrow> _)"
proof -
  have "(of_nat n AND 1 :: u32) = of_nat (n mod 2) AND 1"
    by (simp add: and_one_eq word_unat_eq_iff unat_mod_distrib unat_of_nat mod_mod_cancel)
  then have "descramble n = (descramble (n mod 2) :: ('c, 'd) v22 \<Rightarrow> nat \<times> ('c, 'd) v22)"
    by (simp only: descramble_def [abs_def])
  then show ?thesis by (simp add: put_bit_def fun_eq_iff split: option.split)
qed

lemma code_back:
  assumes "r_constellation r div 4 = q" and "bits < 4" and "q < 4" and "l < 4"
  shows "quadrant_code (4 * ((q + phase_steps bits) mod 4) + l) r = bits"
  using quadrant_back [OF assms(2-4)] assms(1) by (simp add: quadrant_code_def)

lemma data_mode_constellation [simp]:
  "data_mode (advance b s) r = data_mode s r" "data_mode s (r\<lparr>r_constellation := k\<rparr>) = data_mode s r"
  by (simp_all add: data_mode_def advance_def synced_def)


text \<open>One symbol: the transmitter takes its bits, the receiver slices what arrives, and the bits come out.\<close>

lemma symbol_link:
  fixes r :: "('g, 'e) v22" and w :: 'w
  assumes "linked s r" and "gets cb u bs u'" and "length bs = (if v_negotiated s = 1200 then 2 else 4)"
    and "cb_put cb' = Some f"
  shows "\<exists>k s' r'. getbaud cb (s, u) = (v22bis_constellation k, s', u') \<and> k < 16
    \<and> (v_negotiated s = 1200 \<longrightarrow> k mod 4 = 1)
    \<and> decode_baud cb' k (r, w) = (r', fold f bs w) \<and> linked s' r' \<and> v_negotiated s' = v_negotiated s"
proof -
  have dm: "data_mode s r" "t_training s = TxNormal" "t_shutdown s = 0" "r_constellation r div 4 = t_constellation s"
    "t_constellation s < 4" "r_sixteen_way r \<longleftrightarrow> v_negotiated s \<noteq> 1200"
    using assms(1) by (simp_all add: linked_def data_mode_def)
  obtain b1 b2 rest where bs: "bs = [b1, b2] @ rest" "length rest = (if v_negotiated s = 1200 then 0 else 2)"
    using assms(3) by (cases bs; cases "tl bs") (auto split: if_splits)
  then obtain v where g: "gets cb u [b1, b2] v" "gets cb v rest u'" using assms(2) gets_append by metis
  obtain c s1 r1' where 1: "get_dibit cb (s, u) = (c, s1, v)" "c < 4" "data_mode s1 r1'"
    "t_constellation s1 = t_constellation s" "v_negotiated s1 = v_negotiated s"
    "put_bit cb' (c mod 2) (put_bit cb' (c div 2) (r, w)) = (r1', f b2 (f b1 w))"
    using dibit_link [OF dm(1) g(1) assms(4), where w = w] by blast
  define q where "q = (t_constellation s + phase_steps c) mod 4"
  have q: "q < 4" by (simp add: q_def)
  have sent: "\<And>l r0. l < 4 \<Longrightarrow> r0 = r\<lparr>r_constellation := 4 * q + l\<rparr> \<Longrightarrow>
    \<exists>r1. put_bit cb' (c mod 2) (put_bit cb' (c div 2) (r0, w)) = (r1, f b2 (f b1 w)) \<and> data_mode s1 r1
      \<and> r_constellation r1 = 4 * q + l"
  proof -
    fix l r0 assume "l < (4::nat)" and r0: "r0 = r\<lparr>r_constellation := 4 * q + l\<rparr>"
    with dm(1) have "data_mode s r0" by simp
    from dibit_link [OF this g(1) assms(4), where w = w] 1 r0 show "\<exists>r1. put_bit cb' (c mod 2) (put_bit cb' (c div 2) (r0, w)) = (r1, f b2 (f b1 w)) \<and> data_mode s1 r1
      \<and> r_constellation r1 = 4 * q + l" by auto
  qed
  have adv: "t_constellation (advance c s1) = q" using 1(4) by (simp add: advance_def q_def)
  have code: "quadrant_code (4 * q + l) r = c" if "l < 4" for l
    unfolding q_def using code_back [OF dm(4) 1(2) dm(5) that] .
  show ?thesis
  proof (cases "v_negotiated s = 1200")
    case True
    obtain r1 where r1: "put_bit cb' (c mod 2) (put_bit cb' (c div 2) (r\<lparr>r_constellation := 4 * q + 1\<rparr>, w)) = (r1, f b2 (f b1 w))"
      "data_mode s1 r1" "r_constellation r1 = 4 * q + 1" using sent [of 1] by auto
    have "getbaud cb (s, u) = (v22bis_constellation (4 * q + 1), advance c s1, v)"
      using dm 1 True adv by (simp add: getbaud_def point_def)
    moreover have "decode_baud cb' (4 * q + 1) (r, w) = (r1, f b2 (f b1 w))"
      using code [of 1] r1 True 1(5) by (auto simp: decode_baud_def Let_def data_mode_def)
    ultimately show ?thesis
      using True bs g r1 adv q 1(5)
      by (intro exI [of _ "4 * q + 1"] exI [of _ "advance c s1"] exI [of _ r1]) (auto simp: linked_def)
  next
    case False
    then obtain b3 b4 where rest: "rest = [b3, b4]" using bs(2) by (cases rest; cases "tl rest") auto
    have "data_mode (advance c s1) r1'" using 1(3) by simp
    then obtain d s2 where 2: "get_dibit cb (advance c s1, v) = (d, s2, u')" "d < 4"
      "t_constellation s2 = q" "v_negotiated s2 = v_negotiated s"
      using dibit_link [OF _ g(2) [unfolded rest] assms(4), where w = w] adv 1(5) by fastforce
    obtain r1 where r1: "put_bit cb' (c mod 2) (put_bit cb' (c div 2) (r\<lparr>r_constellation := 4 * q + d\<rparr>, w)) = (r1, f b2 (f b1 w))"
      "data_mode s1 r1" "r_constellation r1 = 4 * q + d" using sent [OF 2(2)] by auto
    have "data_mode (advance c s1) r1" using r1(2) by simp
    from dibit_link [OF this g(2) [unfolded rest] assms(4), of "f b2 (f b1 w)"] 2
    obtain r2 where r2: "put_bit cb' (d mod 2) (put_bit cb' (d div 2) (r1, f b2 (f b1 w))) = (r2, f b4 (f b3 (f b2 (f b1 w))))"
      "data_mode s2 r2" "r_constellation r2 = r_constellation r1" by auto
    have pb: "put_bit cb' ((4 * q + d) div 2) = (put_bit cb' (d div 2) :: ('g, 'e) v22 \<times> 'w \<Rightarrow> _)"
      "put_bit cb' ((4 * q + d) mod 2) = (put_bit cb' (d mod 2) :: ('g, 'e) v22 \<times> 'w \<Rightarrow> _)"
    proof -
      have "(4 * q + d) div 2 mod 2 = d div 2 mod 2" "(4 * q + d) mod 2 = d mod 2" by presburger+
      then show "put_bit cb' ((4 * q + d) div 2) = (put_bit cb' (d div 2) :: ('g, 'e) v22 \<times> 'w \<Rightarrow> _)"
        "put_bit cb' ((4 * q + d) mod 2) = (put_bit cb' (d mod 2) :: ('g, 'e) v22 \<times> 'w \<Rightarrow> _)"
        using put_bit_parity [of cb' "(4 * q + d) div 2"] put_bit_parity [of cb' "d div 2"] by (metis, metis)
    qed
    have "getbaud cb (s, u) = (v22bis_constellation (4 * q + d), s2, u')"
      using dm 1 False adv 2 by (simp add: getbaud_def point_def)
    moreover have "decode_baud cb' (4 * q + d) (r, w) = (r2, fold f [b1, b2, b3, b4] w)"
      using code [OF 2(2)] r1 r2 False 1(5) pb by (auto simp: decode_baud_def Let_def data_mode_def)
    ultimately show ?thesis
      using False bs rest r1 r2 2 q
      by (intro exI [of _ "4 * q + d"] exI [of _ s2] exI [of _ r2]) (auto simp: linked_def)
  qed
qed

text \<open>A line that adds an error to each symbol; the receiver slices in exact arithmetic.\<close>

definition received :: "int \<times> int \<Rightarrow> real \<times> real \<Rightarrow> real \<times> real" where
  "received p e = (of_int (fst p) + fst e, of_int (snd p) + snd e)"

fun line_run :: "'u v22_cb \<Rightarrow> 'w v22_cb \<Rightarrow> (real \<times> real) list \<Rightarrow> ('f, 'd) v22 \<times> 'u \<Rightarrow> (real, real) v22 \<times> 'w
    \<Rightarrow> (('f, 'd) v22 \<times> 'u) \<times> ((real, real) v22 \<times> 'w)" where
  "line_run cb cb' [] su rw = (su, rw)"
| "line_run cb cb' (e # es) su rw =
     (let (p, su1) = getbaud cb su
      in line_run cb cb' es su1 (decode_baud cb' (slice plain_fp (received p e) (fst rw)) rw))"

lemma slice_received:
  assumes "k < 16" and "\<bar>fst e\<bar> < 1" and "\<bar>snd e\<bar> < 1" and "\<not> r_sixteen_way r \<Longrightarrow> k mod 4 = 1"
  shows "slice plain_fp (received (v22bis_constellation k) e) r = k"
proof -
  have n: "near (received (v22bis_constellation k) e) k" using assms(2,3) by (simp add: near_def received_def)
  show ?thesis
  proof (cases "r_sixteen_way r")
    case True
    then show ?thesis using slice_16_near [OF assms(1) n] by (simp add: slice_def)
  next
    case False
    then have "k = 4 * (k div 4) + 1" using assms(4) mult_div_mod_eq [of 4 k] by simp
    moreover have "k div 4 < 4" using assms(1) by auto
    ultimately show ?thesis using slice_4_near [of "k div 4"] n False by (simp add: slice_def)
  qed
qed

lemma line_run_link:
  assumes "linked s r" and "gets cb u bs u'" and "length bs = length es * (if v_negotiated s = 1200 then 2 else 4)"
    and "cb_put cb' = Some f" and "\<forall>e \<in> set es. \<bar>fst e\<bar> < 1 \<and> \<bar>snd e\<bar> < 1"
  shows "\<exists>s' r'. line_run cb cb' es (s, u) (r, w) = ((s', u'), (r', fold f bs w)) \<and> linked s' r'"
  using assms
proof (induction es arbitrary: s r u bs w)
  case Nil
  then show ?case by simp
next
  case (Cons e es)
  let ?n = "if v_negotiated s = 1200 then 2 else 4 :: nat"
  have bs: "bs = take ?n bs @ drop ?n bs" by simp
  then obtain v where g: "gets cb u (take ?n bs) v" "gets cb v (drop ?n bs) u'"
    using Cons.prems(2) gets_append by metis
  have l: "length (take ?n bs) = ?n" "length (drop ?n bs) = length es * ?n" using Cons.prems(3) by auto
  obtain k s1 r1 where 1: "getbaud cb (s, u) = (v22bis_constellation k, s1, v)" "k < 16"
    "v_negotiated s = 1200 \<longrightarrow> k mod 4 = 1" "decode_baud cb' k (r, w) = (r1, fold f (take ?n bs) w)"
    "linked s1 r1" "v_negotiated s1 = v_negotiated s"
    using symbol_link [OF Cons.prems(1) g(1) l(1) Cons.prems(4), of w] by blast
  have "slice plain_fp (received (v22bis_constellation k) e) r = k"
    using 1(2,3) Cons.prems(1,5) by (intro slice_received) (auto simp: linked_def data_mode_def)
  then have "line_run cb cb' (e # es) (s, u) (r, w) = line_run cb cb' es (s1, v) (r1, fold f (take ?n bs) w)"
    using 1(1,4) by simp
  moreover obtain s' r' where "line_run cb cb' es (s1, v) (r1, fold f (take ?n bs) w)
      = ((s', u'), (r', fold f (drop ?n bs) (fold f (take ?n bs) w)))" "linked s' r'"
    using Cons.IH [OF 1(5) g(2) _ Cons.prems(4), where w = "fold f (take ?n bs) w"] l(2) 1(6) Cons.prems(5)
    by (metis (no_types, lifting) list.set_intros(2))
  moreover have "fold f (drop ?n bs) (fold f (take ?n bs) w) = fold f bs w"
    using bs fold_append [of f "take ?n bs" "drop ?n bs"] by (metis comp_apply)
  ultimately show ?case by auto
qed

subsection \<open>Self-synchronisation\<close>

fun scramble_all :: "int list \<Rightarrow> ('f, 'd) v22 \<Rightarrow> bool list \<times> ('f, 'd) v22" where
  "scramble_all [] t = ([], t)"
| "scramble_all (b # bs) t =
     (let (c, t1) = scramble b t; (cs, t2) = scramble_all bs t1 in ((c = 1) # cs, t2))"

lemma scramble_all_length: "scramble_all bs t = (os, t') \<Longrightarrow> length os = length bs"
  by (induction bs arbitrary: t os) (auto split: prod.splits)

text \<open>Both registers are the last bits on the line, so they are the same up to what came before.\<close>

lemma scramble_all_descramble:
  assumes "scramble_all bs t = (os, t')" and "set bs \<subseteq> {0, 1}"
  shows "\<And>i. i < 32 \<Longrightarrow> i < length os \<or> bit (t_scramble_reg t) (i - length os) = bit (r_scramble_reg r) (i - length os)
      \<Longrightarrow> bit (t_scramble_reg t') i = bit (r_scramble_reg (descramble_all os r)) i"
    and "False \<in> set os \<or> t_pattern_count t = r_pattern_count r \<Longrightarrow> t_pattern_count t' = r_pattern_count (descramble_all os r)"
proof -
  have "(\<forall>i < 32. (i < length os \<or> bit (t_scramble_reg t) (i - length os) = bit (r_scramble_reg r) (i - length os))
      \<longrightarrow> bit (t_scramble_reg t') i = bit (r_scramble_reg (descramble_all os r)) i)
    \<and> (False \<in> set os \<or> t_pattern_count t = r_pattern_count r \<longrightarrow> t_pattern_count t' = r_pattern_count (descramble_all os r))"
    using assms
  proof (induction bs arbitrary: t os r)
    case Nil
    then show ?case by simp
  next
    case (Cons b bs)
    define c where "c = (((b = 1) \<noteq> (t_pattern_count t \<ge> 64)) \<noteq> tap (t_scramble_reg t))"
    obtain t1 where 1: "scramble b t = (of_bool c, t1)" "t_scramble_reg t1 = shift_in (t_scramble_reg t) c"
      "t_pattern_count t1 = (if c then (if t_pattern_count t \<ge> 64 then 0 else t_pattern_count t) + 1 else 0)"
      using Cons.prems(2) scramble_bool [of b t] by (auto simp: Let_def c_def)
    obtain cs where 2: "scramble_all bs t1 = (cs, t')" "os = c # cs"
      using Cons.prems(1) 1(1) by (auto split: prod.splits)
    define r1 where "r1 = snd (descramble (of_bool c) r)"
    have r1: "r_scramble_reg r1 = shift_in (r_scramble_reg r) c"
      "r_pattern_count r1 = (if c then (if r_pattern_count r \<ge> 64 then 0 else r_pattern_count r) + 1 else 0)"
      by (simp_all add: r1_def descramble_bool Let_def)
    have IH: "\<forall>i < 32. (i < length cs \<or> bit (t_scramble_reg t1) (i - length cs) = bit (r_scramble_reg r1) (i - length cs))
        \<longrightarrow> bit (t_scramble_reg t') i = bit (r_scramble_reg (descramble_all cs r1)) i"
      "False \<in> set cs \<or> t_pattern_count t1 = r_pattern_count r1 \<longrightarrow> t_pattern_count t' = r_pattern_count (descramble_all cs r1)"
      using Cons.IH [OF 2(1), of r1] Cons.prems(2) by auto
    have d: "descramble_all os r = descramble_all cs r1" by (simp add: 2(2) r1_def)
    show ?case
    proof (intro conjI allI impI)
      fix i :: nat
      assume "i < 32" and "i < length os \<or> bit (t_scramble_reg t) (i - length os) = bit (r_scramble_reg r) (i - length os)"
      then show "bit (t_scramble_reg t') i = bit (r_scramble_reg (descramble_all os r)) i"
        unfolding d using IH(1) 1(2) r1(1) 2(2) by (auto simp: shifted_in not_less less_Suc_eq)
    next
      assume "False \<in> set os \<or> t_pattern_count t = r_pattern_count r"
      then show "t_pattern_count t' = r_pattern_count (descramble_all os r)"
        unfolding d using IH(2) 1(3) r1(2) 2(2) by (cases c) (auto split: if_splits)
    qed
  qed
  then show "\<And>i. i < 32 \<Longrightarrow> i < length os \<or> bit (t_scramble_reg t) (i - length os) = bit (r_scramble_reg r) (i - length os)
      \<Longrightarrow> bit (t_scramble_reg t') i = bit (r_scramble_reg (descramble_all os r)) i"
    and "False \<in> set os \<or> t_pattern_count t = r_pattern_count r \<Longrightarrow> t_pattern_count t' = r_pattern_count (descramble_all os r)"
    by blast+
qed

subsection \<open>Properties\<close>

text \<open>C1: what the transmitter takes from its source the receiver hands to its sink, bit by bit and in
  order, through scrambler, differential coding, constellation, slicer and descrambler, at both rates,
  however many symbols are sent, as long as no symbol is off by 1 or more in a coordinate: half the
  distance between neighbouring points. Both ends are then still in step.\<close>

theorem data_link_roundtrip:
  assumes "linked s r" and "gets cb u bs u'" and "length bs = length es * (if v_negotiated s = 1200 then 2 else 4)"
    and "cb_put cb' = Some f" and "\<forall>e \<in> set es. \<bar>fst e\<bar> < 1 \<and> \<bar>snd e\<bar> < 1"
  shows "\<exists>s' r'. line_run cb cb' es (s, u) (r, w) = ((s', u'), (r', fold f bs w)) \<and> linked s' r'"
  using line_run_link [OF assms] .

definition bit_source :: "int list v22_cb" where
  "bit_source = \<lparr>cb_get = (\<lambda>bs. case bs of [] \<Rightarrow> (-1, []) | b # bs' \<Rightarrow> (b, bs')), cb_put = None, cb_status = None\<rparr>"

definition bit_sink :: "int list v22_cb" where
  "bit_sink = \<lparr>cb_get = (\<lambda>bs. (-1, bs)), cb_put = Some (\<lambda>b bs. bs @ [b]), cb_status = None\<rparr>"

theorem data_link_roundtrip_witness:
  "snd (snd (line_run bit_source bit_sink [(9 / 10, 0), (- 1 / 2, 99 / 100)]
     ((v22_zero plain_fp True 2400)\<lparr>v_negotiated := 2400\<rparr>, [1, 0, 0, 1, 1, 1, 0, 1])
     ((v22_zero plain_fp False 2400)\<lparr>r_sixteen_way := True\<rparr>, []))) = [1, 0, 0, 1, 1, 1, 0, 1]"
proof -
  let ?s = "(v22_zero plain_fp True 2400)\<lparr>v_negotiated := 2400\<rparr>"
  let ?r = "(v22_zero plain_fp False 2400)\<lparr>r_sixteen_way := True\<rparr>"
  have a: "linked ?s ?r" by (simp add: linked_def data_mode_def synced_def v22_zero_def Let_def)
  have b: "gets bit_source [1, 0, 0, 1, 1, 1, 0, 1] [1, 0, 0, 1, 1, 1, 0, 1] []" by (simp add: bit_source_def)
  have c: "cb_put bit_sink = Some (\<lambda>b bs. bs @ [b])" by (simp add: bit_sink_def)
  have "\<exists>s' r'. line_run bit_source bit_sink [(9 / 10, 0), (- 1 / 2, 99 / 100)] (?s, [1, 0, 0, 1, 1, 1, 0, 1]) (?r, [])
      = ((s', []), (r', fold (\<lambda>b bs. bs @ [b]) [1, 0, 0, 1, 1, 1, 0, 1] [])) \<and> linked s' r'"
    by (rule data_link_roundtrip [OF a b _ c]) (simp_all add: v22_zero_def Let_def)
  then show ?thesis by fastforce
qed

text \<open>C40: the 16-point slicer picks a nearest point, wherever the symbol lies.\<close>

theorem slice_16_nearest:
  "slice_16 plain_fp z < 16 \<and> (\<forall>k \<in> {0..<16}.
     (fst z - of_int (fst (v22bis_constellation (slice_16 plain_fp z))))\<^sup>2
       + (snd z - of_int (snd (v22bis_constellation (slice_16 plain_fp z))))\<^sup>2
     \<le> (fst z - of_int (fst (v22bis_constellation k)))\<^sup>2 + (snd z - of_int (snd (v22bis_constellation k)))\<^sup>2)"
proof -
  have "(x - of_int (level (cell x)))\<^sup>2 \<le> (x - of_int v)\<^sup>2" if "v \<in> {-3, -1, 1, 3}" for x :: real and v
    using cell_level [of "of_int v" x] that by (auto simp: abs_le_square_iff)
  then show ?thesis
    using point_levels by (auto simp: slice_16_cells space_map_point cell_bounds intro!: add_mono)
qed

theorem slice_16_nearest_witness:
  "(1 / 4 - of_int (fst (v22bis_constellation (slice_16 plain_fp (1 / 4, -5)))))\<^sup>2
     + (-5 - of_int (snd (v22bis_constellation (slice_16 plain_fp (1 / 4, -5)))))\<^sup>2 \<le> (1 / 4 - 1)\<^sup>2 + (-5 + 3 :: real)\<^sup>2"
proof -
  have "v22bis_constellation 13 = (1, -3)" by (simp add: v22bis_constellation_def)
  with slice_16_nearest [of "(1 / 4, -5)", THEN conjunct2, THEN bspec, of 13] show ?thesis by simp
qed

text \<open>The descrambler needs no start value: whatever its history, once it has received 17 bits with a
  zero among them, its register and run counter agree with the transmitter's, and from then on
  every bit comes back.\<close>

theorem descrambler_synchronises:
  assumes "scramble_all bs t = (os, t')" and "length bs \<ge> 17" and "set bs \<subseteq> {0, 1}" and "False \<in> set os"
    and "b = 0 \<or> b = 1"
  shows "synced t' (descramble_all os r) \<and> fst (descramble (fst (scramble b t')) (descramble_all os r)) = nat b"
proof -
  have l: "length os = length bs" using scramble_all_length [OF assms(1)] .
  have "bit (t_scramble_reg t') i = bit (r_scramble_reg (descramble_all os r)) i" if "i < 17" for i
    using scramble_all_descramble(1) [OF assms(1,3), of i r] that assms(2) l by simp
  moreover have "t_pattern_count t' = r_pattern_count (descramble_all os r)"
    using scramble_all_descramble(2) [OF assms(1,3), of r] assms(4) by blast
  ultimately have "synced t' (descramble_all os r)" by (simp add: synced_def)
  with descramble_scramble [OF this assms(5)] show ?thesis by (metis fst_conv)
qed

theorem descrambler_synchronises_witness:
  "synced (snd (scramble_all (0 # replicate 16 0) (v22_zero plain_fp True 2400)))
     (descramble_all (fst (scramble_all (0 # replicate 16 0) (v22_zero plain_fp True 2400)))
        ((v22_zero plain_fp False 2400)\<lparr>r_scramble_reg := 0x1234567, r_pattern_count := 9\<rparr>))"
proof -
  let ?x = "scramble_all (0 # replicate 16 0) (v22_zero plain_fp True 2400)"
  have "fst (scramble 0 (v22_zero plain_fp True 2400)) = 0"
    by (simp add: scramble_bool Let_def tap_def v22_zero_def)
  then have "False \<in> set (fst ?x)" by (auto simp del: replicate.simps split: prod.split)
  moreover have "17 \<le> length (0 # replicate 16 (0 :: int))" "set (0 # replicate 16 (0 :: int)) \<subseteq> {0, 1}" by auto
  ultimately show ?thesis
    using descrambler_synchronises [of "0 # replicate 16 0" "v22_zero plain_fp True 2400" "fst ?x" "snd ?x" 0]
    by (metis prod.collapse)
qed

end
