(* ===== verification/V22_Train.thy ===== *)
theory V22_Train
  imports V22_Link
begin

text \<open>
  The V.22bis receiver as a state machine: which indices it uses, how its training moves from segment
  to segment, and that it does not stay in the segment of scrambled ones for ever. Everything here
  holds for any arithmetic and any received signal.
\<close>

subsection \<open>Shape of the receiver's state\<close>

definition rx_inv :: "('f, 'd) v22 \<Rightarrow> bool" where
  "rx_inv s \<longleftrightarrow> r_rrc_filter_step s < V22BIS_RX_FILTER_STEPS \<and> r_eq_step s < V22BIS_EQUALIZER_LEN
     \<and> r_baud_phase s < 2 \<and> r_constellation s < 16 \<and> r_last_raw s < 4"

text \<open>Changes that leave the indices and the training segment alone.\<close>

definition rx_same :: "('f, 'd) v22 \<Rightarrow> ('f, 'd) v22 \<Rightarrow> bool" where
  "rx_same s s' \<longleftrightarrow> r_rrc_filter_step s' = r_rrc_filter_step s \<and> r_eq_step s' = r_eq_step s
     \<and> r_baud_phase s' = r_baud_phase s \<and> r_last_raw s' = r_last_raw s
     \<and> r_training s' = r_training s \<and> r_training_count s' = r_training_count s
     \<and> v_calling s' = v_calling s \<and> v_negotiated s' = v_negotiated s \<and> v_bit_rate s' = v_bit_rate s
     \<and> r_pattern_repeats s' = r_pattern_repeats s"

lemma rx_same_refl [simp]: "rx_same s s"
  by (simp add: rx_same_def)

lemma rx_same_trans: "rx_same s s' \<Longrightarrow> rx_same s' s'' \<Longrightarrow> rx_same s s''"
  by (simp add: rx_same_def)

lemma track_tune_same: "rx_same s (track_tune F z k s)" "r_constellation (track_tune F z k s) = r_constellation s"
  by (simp_all add: rx_same_def track_tune_def track_carrier_def tune_equalizer_def Let_def)

lemma track_carrier_same: "rx_same s (track_carrier F z t s)" "r_constellation (track_carrier F z t s) = r_constellation s"
  by (simp_all add: rx_same_def track_carrier_def Let_def)

lemma symbol_sync_same: "rx_same s (symbol_sync F s)" "r_constellation (symbol_sync F s) = r_constellation s"
  by (simp_all add: rx_same_def symbol_sync_def Let_def split: prod.split)

lemma descramble_same:
  "descramble b s = (c, s') \<Longrightarrow> rx_same s s' \<and> r_constellation s' = r_constellation s \<and> r_sixteen_way s' = r_sixteen_way s"
  by (auto simp: descramble_def rx_same_def Let_def)

lemma put_bit_same:
  "put_bit cb b (s, u) = (s', u') \<Longrightarrow> rx_same s s' \<and> r_constellation s' = r_constellation s \<and> r_sixteen_way s' = r_sixteen_way s"
  by (auto simp: put_bit_def split: option.splits prod.splits dest!: descramble_same)

lemma phase_steps_less: "b < 4 \<Longrightarrow> phase_steps b < 4"
  by (auto simp: phase_steps_def less_Suc_eq eval_nat_numeral)

lemma quadrant_code_less: "quadrant_code k s < 4"
  by (simp add: quadrant_code_def phase_steps_less)

lemma decode_baud_same:
  assumes "decode_baud cb k (s, u) = (s', u')"
  shows "rx_same s s' \<and> r_constellation s' = k"
proof -
  let ?r = "quadrant_code k s"
  obtain s1 u1 where 1: "put_bit cb (?r div 2) (s\<lparr>r_constellation := k\<rparr>, u) = (s1, u1)" by fastforce
  obtain s2 u2 where 2: "put_bit cb (?r mod 2) (s1, u1) = (s2, u2)" by fastforce
  obtain s3 u3 where 3: "put_bit cb (k div 2) (s2, u2) = (s3, u3)" by fastforce
  obtain s4 u4 where 4: "put_bit cb (k mod 2) (s3, u3) = (s4, u4)" by fastforce
  have "s' = (if r_sixteen_way s2 then s4 else s2)"
    using assms 1 2 3 4 by (auto simp: decode_baud_def Let_def split: if_splits)
  then show ?thesis
    using put_bit_same [OF 1] put_bit_same [OF 2] put_bit_same [OF 3] put_bit_same [OF 4] by (auto simp: rx_same_def)
qed

lemma decode_baudx_same:
  assumes "decode_baudx k s = (b, s')"
  shows "rx_same s s' \<and> r_constellation s' = k"
proof -
  let ?r = "quadrant_code k s"
  obtain a1 s1 where 1: "descramble (?r div 2) (s\<lparr>r_constellation := k\<rparr>) = (a1, s1)" by fastforce
  obtain a2 s2 where 2: "descramble (?r mod 2) s1 = (a2, s2)" by fastforce
  obtain a3 s3 where 3: "descramble (k div 2) s2 = (a3, s3)" by fastforce
  obtain a4 s4 where 4: "descramble (k mod 2) s3 = (a4, s4)" by fastforce
  have "s' = (if r_sixteen_way s2 then s4 else s2)"
    using assms 1 2 3 4 by (auto simp: decode_baudx_def Let_def split: if_splits)
  then show ?thesis
    using descramble_same [OF 1] descramble_same [OF 2] descramble_same [OF 3] descramble_same [OF 4] by (auto simp: rx_same_def)
qed

lemma slice_less: "slice F z s < 16"
proof -
  have "clamp_cell k < 6" for k by (auto simp: clamp_cell_def)
  then have "space_map_v22bis (clamp_cell a) (clamp_cell b) < 16" for a b by (simp add: space_map_point)
  moreover have "slice_4 F z < 16" by (simp add: slice_4_def Let_def)
  ultimately show ?thesis by (simp add: slice_def slice_16_def)
qed

subsection \<open>The training segments\<close>

text \<open>The moves of the receiver's training; the flag is set in the calling modem.\<close>

inductive rx_edge :: "bool \<Rightarrow> rx_training \<Rightarrow> rx_training \<Rightarrow> bool" where
  stay: "rx_edge calling tr tr"
| acquired: "rx_edge calling RxSymbolAcquisition (if calling then RxUnscrambledOnes else RxScrambledOnes1200)"
| answer_heard: "rx_edge calling RxUnscrambledOnes RxUnscrambledOnesSustaining"
| scrambled: "rx_edge calling RxUnscrambledOnesSustaining RxScrambledOnes1200"
| commit_1200: "rx_edge calling RxScrambledOnes1200 (if calling then RxNormal else RxScrambledOnes1200Sustaining)"
| commit_2400: "rx_edge calling RxScrambledOnes1200 RxWaitScrambledOnes2400"
| data_1200: "rx_edge calling RxScrambledOnes1200Sustaining RxNormal"
| data_2400: "rx_edge calling RxWaitScrambledOnes2400 RxNormal"
| retrain: "rx_edge calling RxNormal RxScrambledOnes1200"

inductive_cases rx_edgeE: "rx_edge calling tr tr'"

text \<open>When the moves that matter most may be made: acquisition is left after 40 symbols, and data mode is entered
  after 1035 ms of scrambled ones (621 symbols), after nine symbols of ones at 2400, or, by the calling modem, after
  400 ms without S1.\<close>

definition move_guard :: "('f, 'd) v22 \<Rightarrow> ('f, 'd) v22 \<Rightarrow> bool" where
  "move_guard s s' \<longleftrightarrow>
     (r_training s = RxSymbolAcquisition \<and> r_training s' \<noteq> RxSymbolAcquisition \<longrightarrow> 39 \<le> r_training_count s)
     \<and> (r_training s \<noteq> RxNormal \<and> r_training s' = RxNormal \<longrightarrow>
          r_training s = RxScrambledOnes1200Sustaining \<and> 621 \<le> r_training_count s
        \<or> r_training s = RxWaitScrambledOnes2400 \<and> 8 \<le> r_pattern_repeats s
        \<or> r_training s = RxScrambledOnes1200 \<and> v_calling s \<and> v_negotiated s = 1200 \<and> 239 \<le> r_training_count s)"

text \<open>What every training step keeps.\<close>

definition step_ok :: "('f, 'd) v22 \<Rightarrow> ('f, 'd) v22 \<Rightarrow> bool" where
  "step_ok s s' \<longleftrightarrow> r_rrc_filter_step s' = r_rrc_filter_step s \<and> r_baud_phase s' = r_baud_phase s
     \<and> v_calling s' = v_calling s \<and> v_bit_rate s' = v_bit_rate s
     \<and> (r_eq_step s' = r_eq_step s \<or> r_eq_step s' = 0) \<and> (r_constellation s < 16 \<longrightarrow> r_constellation s' < 16)
     \<and> rx_edge (v_calling s) (r_training s) (r_training s') \<and> move_guard s s'"

lemmas same_defs = rx_same_def step_ok_def move_guard_def

lemma rx_acquisition_ok: "r_training s = RxSymbolAcquisition \<Longrightarrow> step_ok s (rx_acquisition s)"
  using rx_edge.intros [of "v_calling s"] by (auto simp: rx_acquisition_def same_defs Let_def)

lemma code_step_frame:
  assumes "code_step k s = (raw, s')"
  shows "raw < 4 \<and> s' = s\<lparr>r_constellation := k\<rparr>"
  using assms quadrant_code_less [of k s] by (auto simp: code_step_def)

lemma rx_unscrambled_ok:
  assumes "r_training s = RxUnscrambledOnes" and "k < 16" and "rx_unscrambled F z k s = (raw, s')"
  shows "raw < 4 \<and> step_ok s s'"
  using assms rx_edge.intros [of "v_calling s"] track_carrier_same [where s = s and F = F and z = z and t = "target_of F k"]
  by (auto simp: rx_unscrambled_def same_defs Let_def split: prod.splits if_splits dest!: code_step_frame)

lemma rx_unscrambled_sustaining_ok:
  assumes "r_training s = RxUnscrambledOnesSustaining" and "k < 16" and "rx_unscrambled_sustaining F z k s = (raw, s')"
  shows "raw < 4 \<and> step_ok s s'"
  using assms rx_edge.intros [of "v_calling s"] track_carrier_same [where s = s and F = F and z = z and t = "target_of F k"]
  by (auto simp: rx_unscrambled_sustaining_def same_defs Let_def split: prod.splits if_splits dest!: code_step_frame)

lemma rx_sustaining_1200_ok:
  assumes "r_training s = RxScrambledOnes1200Sustaining" and "k < 16"
  shows "step_ok s (rx_sustaining_1200 F z k s)"
proof -
  obtain b s1 where 1: "decode_baudx k (track_tune F z k s) = (b, s1)" by fastforce
  show ?thesis
    using assms rx_edge.intros [of "v_calling s"] decode_baudx_same [OF 1] track_tune_same [where s = s and F = F and z = z and k = k] 1
    by (auto simp: rx_sustaining_1200_def same_defs ms_values Let_def)
qed

lemma rx_wait_2400_ok:
  assumes "r_training s = RxWaitScrambledOnes2400" and "k < 16"
  shows "step_ok s (rx_wait_2400 F z k s)"
proof -
  obtain b s1 where 1: "decode_baudx k (track_tune F z k s) = (b, s1)" by fastforce
  show ?thesis
    using assms rx_edge.intros [of "v_calling s"] decode_baudx_same [OF 1] track_tune_same [where s = s and F = F and z = z and k = k] 1
    by (auto simp: rx_wait_2400_def same_defs ms_values Let_def)
qed

text \<open>The segment of scrambled ones at 1200, and the bound on its length: with 2400 allowed, 240 symbols
  in the search for S1, and 330 after it was found.\<close>

definition s1200_left :: "('f, 'd) v22 \<Rightarrow> nat" where
  "s1200_left s = (if v_negotiated s = 1200 then 330 + nat (240 - r_training_count s) else nat (330 - r_training_count s))"

definition s1200_inv :: "('f, 'd) v22 \<Rightarrow> bool" where
  "s1200_inv s \<longleftrightarrow> r_training s = RxScrambledOnes1200 \<and> v_bit_rate s = 2400
     \<and> r_training_count s < (if v_negotiated s = 1200 then 240 else 330) \<and> 0 \<le> r_training_count s"

lemma s1_search_same:
  "r_rrc_filter_step (s1_search raw s) = r_rrc_filter_step s" "r_eq_step (s1_search raw s) = r_eq_step s"
  "r_baud_phase (s1_search raw s) = r_baud_phase s" "r_last_raw (s1_search raw s) = r_last_raw s"
  "r_training (s1_search raw s) = r_training s" "r_training_count (s1_search raw s) = r_training_count s"
  "v_calling (s1_search raw s) = v_calling s" "v_negotiated (s1_search raw s) = v_negotiated s"
  "v_bit_rate (s1_search raw s) = v_bit_rate s" "r_constellation (s1_search raw s) = r_constellation s"
  by (simp_all add: s1_search_def Let_def)

lemma rx_scrambled_1200_ok:
  assumes "r_training s = RxScrambledOnes1200" and "k < 16" and "rx_scrambled_1200 F z k s = (raw, s')"
  shows "raw < 4 \<and> step_ok s s' \<and> r_last_raw s' = r_last_raw s"
    and "s1200_inv s \<Longrightarrow> r_training s' \<noteq> RxScrambledOnes1200 \<or> (s1200_inv s' \<and> s1200_left s' < s1200_left s)"
proof -
  obtain b s1 where 1: "decode_baudx k (track_tune F z k s) = (b, s1)" by fastforce
  have sm: "rx_same s s1" "r_constellation s1 = k"
    using decode_baudx_same [OF 1] track_tune_same [where s = s and F = F and z = z and k = k] rx_same_trans by blast+
  show "raw < 4 \<and> step_ok s s' \<and> r_last_raw s' = r_last_raw s"
    using assms rx_edge.intros [of "v_calling s"] sm 1 quadrant_code_less
    by (auto simp: rx_scrambled_1200_def same_defs s1_search_same s1_found_def ms_values Let_def split: if_splits)
  show "s1200_inv s \<Longrightarrow> r_training s' \<noteq> RxScrambledOnes1200 \<or> (s1200_inv s' \<and> s1200_left s' < s1200_left s)"
    using assms sm 1
    by (auto simp: rx_scrambled_1200_def same_defs s1_search_same s1_found_def s1200_inv_def s1200_left_def ms_values Let_def
        split: if_splits)
qed

lemma rx_normal_ok:
  assumes "r_training s = RxNormal" and "k < 16" and "rx_normal F cb z k (s, u) = (raw, s', u')"
  shows "raw < 4 \<and> step_ok s s'"
proof -
  define s1 where "s1 = track_tune F z k s"
  define su2 where "su2 = (if r_last_raw s1 XOR quadrant_code k s1 = 3
      then (s1\<lparr>r_pattern_repeats := r_pattern_repeats s1 + 1\<rparr>, u)
      else (let (s3, u3) = (if r_pattern_repeats s1 \<ge> 50 \<and> (r_last_raw s1 = 3 \<or> r_last_raw s1 = 0)
              then (equalizer_reset F (s1\<lparr>r_pattern_repeats := 0, r_training_count := 0, r_training := RxScrambledOnes1200,
                      t_training_count := 0, t_training := TxU0011\<rparr>), report_status cb RetrainOccurred u)
              else (s1, u)) in (s3\<lparr>r_pattern_repeats := 0\<rparr>, u3)))"
  obtain s2 u2 where 2: "su2 = (s2, u2)" by fastforce
  have e: "raw = quadrant_code k s1" "decode_baud cb k (s2, u2) = (s', u')"
  proof -
    have "rx_normal F cb z k (s, u) = (quadrant_code k s1, decode_baud cb k su2)"
      by (simp only: rx_normal_def su2_def s1_def Let_def prod.case)
    with assms(3) 2 show "raw = quadrant_code k s1" "decode_baud cb k (s2, u2) = (s', u')" by simp_all
  qed
  have "r_rrc_filter_step s2 = r_rrc_filter_step s1 \<and> r_baud_phase s2 = r_baud_phase s1 \<and> v_calling s2 = v_calling s1
      \<and> v_bit_rate s2 = v_bit_rate s1 \<and> (r_eq_step s2 = r_eq_step s1 \<or> r_eq_step s2 = 0)
      \<and> (r_training s2 = r_training s1 \<or> r_training s2 = RxScrambledOnes1200)"
    using 2 by (auto simp: su2_def equalizer_reset_def Let_def split: if_splits)
  then show ?thesis
    using e(1) decode_baud_same [OF e(2)] track_tune_same [where s = s and F = F and z = z and k = k] assms(1,2)
      quadrant_code_less [of k s1] rx_edge.intros [of "v_calling s"]
    by (auto simp: same_defs s1_def)
qed

lemma rx_training_step_ok:
  assumes "k < 16" and "rx_training_step F cb z k (s, u) = (raw, s', u')"
  shows "raw < 4 \<and> step_ok s s'"
proof (cases "r_training s")
  case RxNormal
  with assms show ?thesis by (auto simp: rx_training_step_def dest: rx_normal_ok)
next
  case RxSymbolAcquisition
  with assms show ?thesis by (auto simp: rx_training_step_def rx_acquisition_ok)
next
  case RxUnscrambledOnes
  with assms show ?thesis by (auto simp: rx_training_step_def split: prod.splits dest: rx_unscrambled_ok)
next
  case RxUnscrambledOnesSustaining
  with assms show ?thesis by (auto simp: rx_training_step_def split: prod.splits dest: rx_unscrambled_sustaining_ok)
next
  case RxScrambledOnes1200
  with assms show ?thesis by (auto simp: rx_training_step_def split: prod.splits dest: rx_scrambled_1200_ok(1))
next
  case RxScrambledOnes1200Sustaining
  with assms show ?thesis by (auto simp: rx_training_step_def rx_sustaining_1200_ok)
next
  case RxWaitScrambledOnes2400
  with assms show ?thesis by (auto simp: rx_training_step_def rx_wait_2400_ok)
next
  case RxParked
  with assms show ?thesis by (auto simp: rx_training_step_def step_ok_def move_guard_def intro: rx_edge.intros)
qed

lemma rx_symbol_ok:
  assumes "rx_symbol F cb (s, u) = (s', u')"
  shows "step_ok s s' \<and> r_last_raw s' < 4"
proof -
  define s1 where "s1 = symbol_sync F s"
  obtain raw s2 where 1: "rx_training_step F cb (equalizer_get F s1) (slice F (equalizer_get F s1) s1) (s1, u) = (raw, s2, u')"
    "s' = s2\<lparr>r_last_raw := raw\<rparr>"
    using assms by (auto simp: rx_symbol_def s1_def [symmetric] Let_def split: prod.splits)
  show ?thesis
    using rx_training_step_ok [OF slice_less 1(1)] 1(2) symbol_sync_same [where s = s and F = F]
    by (auto simp: same_defs s1_def)
qed

lemma eq_next_less: "eq_next j < V22BIS_EQUALIZER_LEN"
  by (simp add: eq_next_def V22BIS_EQUALIZER_LEN_def)

lemma process_half_baud_ok:
  assumes "process_half_baud F cb z (s, u) = (s', u')" and "rx_inv s"
  shows "rx_inv s' \<and> rx_edge (v_calling s) (r_training s) (r_training s') \<and> move_guard s s'
    \<and> v_calling s' = v_calling s \<and> v_bit_rate s' = v_bit_rate s"
proof -
  define s1 where "s1 = s\<lparr>r_eq_buf := (r_eq_buf s)(r_eq_step s := z), r_eq_step := eq_next (r_eq_step s),
     r_baud_phase := r_baud_phase s XOR 1\<rparr>"
  have b: "r_baud_phase s = 0 \<or> r_baud_phase s = 1" using assms(2) by (auto simp: rx_inv_def)
  have inv1: "rx_inv s1" using b assms(2) eq_next_less by (auto simp: rx_inv_def s1_def)
  have s1: "r_training s1 = r_training s" "v_calling s1 = v_calling s" "v_bit_rate s1 = v_bit_rate s"
    "move_guard s1 t = move_guard s t" for t by (simp_all add: s1_def move_guard_def)
  have e: "process_half_baud F cb z (s, u) = (if r_baud_phase s1 \<noteq> 0 then (s1, u) else rx_symbol F cb (s1, u))"
    by (simp only: process_half_baud_def s1_def Let_def prod.case)
  show ?thesis
  proof (cases "r_baud_phase s1 = 0")
    case True
    with assms(1) e have "rx_symbol F cb (s1, u) = (s', u')" by simp
    from rx_symbol_ok [OF this] inv1 s1 show ?thesis
      by (auto simp: rx_inv_def step_ok_def V22BIS_EQUALIZER_LEN_def)
  next
    case False
    with assms(1) e have "s' = s1" by simp
    with inv1 s1 show ?thesis by (simp add: rx_edge.stay) (simp add: move_guard_def)
  qed
qed

subsection \<open>Samples\<close>

lemma rx_intake_same:
  assumes "rx_inv s"
  shows "rx_inv (rx_intake F a s)" "r_training (rx_intake F a s) = r_training s" "v_calling (rx_intake F a s) = v_calling s"
    "v_bit_rate (rx_intake F a s) = v_bit_rate s"
  using assms by (auto simp: rx_intake_def rx_inv_def sm_power_meter_update_def V22BIS_RX_FILTER_STEPS_def Let_def)

lemma rx_restart_same:
  "rx_inv (v22bis_rx_restart F s)" "r_training (v22bis_rx_restart F s) = RxSymbolAcquisition"
  "v_calling (v22bis_rx_restart F s) = v_calling s" "v_bit_rate (v22bis_rx_restart F s) = v_bit_rate s"
  by (simp_all add: rx_inv_def v22bis_rx_restart_def v22bis_rx_set_signal_cutoff_def sm_power_meter_init_def
      equalizer_reset_def V22BIS_EQUALIZER_LEN_def V22BIS_RX_FILTER_STEPS_def Let_def)

text \<open>Losing the carrier starts the training over: the power below the lower threshold at 800 samples in a row.\<close>

definition carrier_lost :: "('f, 'd) fp \<Rightarrow> int \<Rightarrow> ('f, 'd) v22 \<Rightarrow> bool" where
  "carrier_lost F a s \<longleftrightarrow> r_signal_present s \<and> dp_less F (r_power (rx_intake F a s)) (r_off_power s) \<and> 799 \<le> r_down_count s"

lemma rx_intake_frame:
  "r_signal_present (rx_intake F a s) = r_signal_present s" "r_off_power (rx_intake F a s) = r_off_power s"
  "r_down_count (rx_intake F a s) = r_down_count s" "move_guard (rx_intake F a s) t = move_guard s t"
  by (simp_all add: rx_intake_def sm_power_meter_update_def move_guard_def Let_def)

lemma move_guard_stay: "r_training t = r_training s \<Longrightarrow> move_guard s t"
  by (simp add: move_guard_def)

lemma rx_carrier_same:
  assumes "rx_carrier F cb (rx_intake F a s, u) = (go, s', u')" and "rx_inv s"
  shows "rx_inv s' \<and> v_calling s' = v_calling s \<and> v_bit_rate s' = v_bit_rate s
    \<and> (if carrier_lost F a s then \<not> go \<and> r_training s' = RxSymbolAcquisition
       else r_training s' = r_training s \<and> (\<forall>t. move_guard s' t = move_guard s t))"
proof -
  have g: "move_guard (x\<lparr>r_down_count := n\<rparr>) t = move_guard x t" "move_guard (x\<lparr>r_signal_present := b\<rparr>) t = move_guard x t"
    for x t :: "('a, 'b) v22" and b n by (simp_all add: move_guard_def)
  have i: "rx_inv (x\<lparr>r_down_count := n\<rparr>) = rx_inv x" "rx_inv (x\<lparr>r_signal_present := b\<rparr>) = rx_inv x"
    for x :: "('a, 'b) v22" and b n by (simp_all add: rx_inv_def)
  define x where "x = rx_intake F a s"
  note xi = rx_intake_same [OF assms(2), of F a, folded x_def] rx_intake_frame [of F a s, folded x_def]
  have lost: "carrier_lost F a s \<longleftrightarrow> r_signal_present x \<and> dp_less F (r_power x) (r_off_power x) \<and> 800 \<le> r_down_count x + 1"
    by (simp add: carrier_lost_def xi(5-7) flip: x_def)
  have e: "rx_carrier F cb (x, u) = (go, s', u')" using assms(1) by (simp add: x_def)
  show ?thesis
  proof (cases "carrier_lost F a s")
    case True
    then have "\<not> go" "s' = v22bis_rx_restart F (x\<lparr>r_down_count := r_down_count x + 1\<rparr>)"
      using e lost by (simp_all add: rx_carrier_def Let_def)
    with True rx_restart_same [of F "x\<lparr>r_down_count := r_down_count x + 1\<rparr>"] xi(3,4) show ?thesis by simp
  next
    case False
    then obtain b n where "s' = x \<or> s' = x\<lparr>r_down_count := n\<rparr> \<or> s' = x\<lparr>r_signal_present := b, r_down_count := n\<rparr>"
      using e lost by (auto simp: rx_carrier_def Let_def split: if_splits)
    with False xi show ?thesis by (elim disjE) (simp_all add: g i)
  qed
qed

lemma rx_half_symbol_ok:
  assumes "rx_half_symbol F cb (s, u) = (s', u')" and "rx_inv s"
  shows "rx_inv s' \<and> rx_edge (v_calling s) (r_training s) (r_training s') \<and> move_guard s s'
    \<and> v_calling s' = v_calling s \<and> v_bit_rate s' = v_bit_rate s"
proof -
  define s1 where "s1 = (rx_agc F s)\<lparr>r_eq_put_step := r_eq_put_step (rx_agc F s) + c_div (V22BIS_RX_COEFF_SETS * 40) (3 * 2)\<rparr>"
  obtain z where "process_half_baud F cb z (s1, u) = (s', u')"
    using assms(1) by (auto simp: rx_half_symbol_def s1_def Let_def split: prod.splits)
  moreover have "rx_inv s1" "r_training s1 = r_training s" "v_calling s1 = v_calling s" "v_bit_rate s1 = v_bit_rate s"
    "move_guard s1 s' = move_guard s s'"
    using assms(2) by (auto simp: s1_def rx_agc_def rx_inv_def move_guard_def Let_def)
  ultimately show ?thesis using process_half_baud_ok [of F cb z s1 u s' u'] by simp
qed

lemma rx_sample_ok:
  assumes "rx_sample F cb a (s, u) = (s', u')" and "rx_inv s"
  shows "rx_inv s' \<and> v_calling s' = v_calling s \<and> v_bit_rate s' = v_bit_rate s
    \<and> (if carrier_lost F a s then r_training s' = RxSymbolAcquisition
       else rx_edge (v_calling s) (r_training s) (r_training s') \<and> move_guard s s')"
proof -
  let ?s0 = "rx_intake F a s"
  obtain go s1 u1 where 1: "rx_carrier F cb (?s0, u) = (go, s1, u1)" by (metis prod_cases3)
  note c = rx_carrier_same [OF 1 assms(2)]
  define s2 where "s2 = s1\<lparr>r_eq_put_step := r_eq_put_step s1 - V22BIS_RX_COEFF_SETS\<rparr>"
  have s2: "rx_inv s2" "r_training s2 = r_training s1" "v_calling s2 = v_calling s1" "v_bit_rate s2 = v_bit_rate s1"
    "move_guard s2 t = move_guard s1 t" for t
    using c by (auto simp: s2_def rx_inv_def move_guard_def)
  have e: "rx_sample F cb a (s, u) = (if \<not> go \<or> r_training s1 = RxParked then (s1, u1)
      else apfst rx_advance (if r_eq_put_step s2 \<le> 0 then rx_half_symbol F cb (s2, u1) else (s2, u1)))"
    using 1 by (simp add: rx_sample_def s2_def apfst_def map_prod_def Let_def)
  have adv: "rx_inv (rx_advance x) = rx_inv x" "r_training (rx_advance x) = r_training x"
    "v_calling (rx_advance x) = v_calling x" "v_bit_rate (rx_advance x) = v_bit_rate x"
    "move_guard y (rx_advance x) = move_guard y x" for x y :: "('a, 'b) v22"
    by (simp_all add: rx_advance_def rx_inv_def move_guard_def)
  obtain s3 u3 where 3: "rx_half_symbol F cb (s2, u1) = (s3, u3)" by fastforce
  show ?thesis
  proof (cases "go \<and> r_training s1 \<noteq> RxParked \<and> r_eq_put_step s2 \<le> 0")
    case True
    with assms(1) e 3 have "s' = rx_advance s3" by simp
    with True c s2 adv rx_half_symbol_ok [OF 3 s2(1)] show ?thesis by (auto split: if_splits)
  next
    case False
    with assms(1) e have "s' = s1 \<or> s' = rx_advance s2" by (auto split: if_splits)
    with c s2 adv show ?thesis by (auto simp: rx_edge.stay move_guard_stay split: if_splits)
  qed
qed

lemma v22bis_rx_inv: "rx_inv s \<Longrightarrow> rx_inv (fst (v22bis_rx F cb amp (s, u))) \<and> v_calling (fst (v22bis_rx F cb amp (s, u))) = v_calling s"
proof (induction amp arbitrary: s u)
  case (Cons a amp)
  obtain s1 u1 where 1: "rx_sample F cb a (s, u) = (s1, u1)" by fastforce
  then have "v22bis_rx F cb (a # amp) (s, u) = v22bis_rx F cb amp (s1, u1)" by (simp add: v22bis_rx_def)
  with Cons.IH [of s1 u1] rx_sample_ok [OF 1 Cons.prems] show ?case by simp
qed (simp add: v22bis_rx_def)

text \<open>C12: whatever signal comes in and however the arithmetic rounds, at every sample the receiver's indices stay
  inside its 27-sample delay line, its 17-tap equaliser, its 12 coefficient sets and the 16 points, and its
  training stays or makes one move of the table, unless the carrier is lost with that sample (the power is below the
  lower threshold for the 800th sample in a row), which starts it over. Acquisition lasts at least 40 symbols, and
  data mode is entered only after the timed or checked segments.\<close>

theorem v22bis_rx_safe:
  assumes "rx_inv s" and "k < length amp"
    and before: "v22bis_rx F cb (take k amp) (s, u) = (s1, u1)" and after: "v22bis_rx F cb (take (Suc k) amp) (s, u) = (s2, u2)"
  shows "rx_inv s1 \<and> rx_inv s2 \<and> v_calling s2 = v_calling s
    \<and> (if carrier_lost F (amp ! k) s1 then r_training s2 = RxSymbolAcquisition
       else rx_edge (v_calling s) (r_training s1) (r_training s2) \<and> move_guard s1 s2)
    \<and> (\<forall>put_step \<le> 0. 0 \<le> coeff_set put_step \<and> coeff_set put_step < 12)"
proof -
  have i: "rx_inv s1" "v_calling s1 = v_calling s" using v22bis_rx_inv [OF assms(1), of F cb "take k amp" u] before by simp_all
  have "rx_sample F cb (amp ! k) (s1, u1) = (s2, u2)"
    using before after assms(2) by (simp add: v22bis_rx_def take_Suc_conv_app_nth)
  from rx_sample_ok [OF this i(1)] i show ?thesis by (auto simp: coeff_set_def V22BIS_RX_COEFF_SETS_def)
qed

theorem v22bis_rx_safe_witness:
  "rx_inv (fst (v22bis_rx plain_fp idle_cb [100, -100] (v22bis_rx_restart plain_fp (v22_zero plain_fp True 2400), ())))"
proof -
  let ?s = "v22bis_rx_restart plain_fp (v22_zero plain_fp True 2400)"
  obtain s1 u1 where 1: "v22bis_rx plain_fp idle_cb (take 1 [100, -100]) (?s, ()) = (s1, u1)" by (rule prod.exhaust)
  obtain s2 u2 where 2: "v22bis_rx plain_fp idle_cb (take (Suc 1) [100, -100]) (?s, ()) = (s2, u2)" by (rule prod.exhaust)
  have "rx_inv s2" using v22bis_rx_safe [OF rx_restart_same(1) _ 1 2] by simp
  moreover have "take (Suc 1) [100, -100] = [100, -100 :: int]" by simp
  ultimately show ?thesis using 2 by (simp del: One_nat_def)
qed

subsection \<open>Training does not hang on the scrambled ones\<close>

fun half_bauds :: "('f, 'd) fp \<Rightarrow> 'u v22_cb \<Rightarrow> ('f \<times> 'f) list \<Rightarrow> ('f, 'd) v22 \<times> 'u \<Rightarrow> ('f, 'd) v22 \<times> 'u" where
  "half_bauds F cb [] su = su"
| "half_bauds F cb (z # zs) su = half_bauds F cb zs (process_half_baud F cb z su)"

definition s1200_measure :: "('f, 'd) v22 \<Rightarrow> nat" where
  "s1200_measure s = 2 * s1200_left s + (1 - r_baud_phase s)"

lemma rx_symbol_s1200:
  assumes "rx_symbol F cb (s, u) = (s', u')" and "s1200_inv s"
  shows "r_training s' \<noteq> RxScrambledOnes1200 \<or> (s1200_inv s' \<and> s1200_left s' < s1200_left s)"
proof -
  define s1 where "s1 = symbol_sync F s"
  define z where "z = equalizer_get F s1"
  have i: "s1200_inv s1" "s1200_left s1 = s1200_left s" "r_training s1 = RxScrambledOnes1200"
    using assms(2) symbol_sync_same [where s = s and F = F] by (auto simp: s1200_inv_def s1200_left_def same_defs s1_def)
  obtain raw s2 where 2: "rx_scrambled_1200 F z (slice F z s1) s1 = (raw, s2)" by fastforce
  have "s' = s2\<lparr>r_last_raw := raw\<rparr>"
    using assms(1) 2 i(3) by (auto simp: rx_symbol_def rx_training_step_def s1_def [symmetric] z_def [symmetric] Let_def)
  with rx_scrambled_1200_ok(2) [OF i(3) slice_less 2 i(1)] i(2) show ?thesis
    by (auto simp: s1200_inv_def s1200_left_def)
qed

lemma process_half_baud_s1200:
  assumes "process_half_baud F cb z (s, u) = (s', u')" and "rx_inv s" and "s1200_inv s"
  shows "r_training s' \<noteq> RxScrambledOnes1200 \<or> (s1200_inv s' \<and> s1200_measure s' < s1200_measure s)"
proof -
  define s1 where "s1 = s\<lparr>r_eq_buf := (r_eq_buf s)(r_eq_step s := z), r_eq_step := eq_next (r_eq_step s),
     r_baud_phase := r_baud_phase s XOR 1\<rparr>"
  have e: "process_half_baud F cb z (s, u) = (if r_baud_phase s1 \<noteq> 0 then (s1, u) else rx_symbol F cb (s1, u))"
    by (simp only: process_half_baud_def s1_def Let_def prod.case)
  have i: "s1200_inv s1" "s1200_left s1 = s1200_left s" using assms(3) by (auto simp: s1200_inv_def s1200_left_def s1_def)
  have "r_baud_phase s = 0 \<or> r_baud_phase s = 1" using assms(2) by (auto simp: rx_inv_def)
  then have b: "r_baud_phase s = 0 \<and> r_baud_phase s1 = 1 \<or> r_baud_phase s = 1 \<and> r_baud_phase s1 = 0"
    by (auto simp: s1_def)
  show ?thesis
  proof (cases "r_baud_phase s1 = 0")
    case True
    with assms(1) e have r: "rx_symbol F cb (s1, u) = (s', u')" by simp
    have "r_baud_phase s' = 0" using rx_symbol_ok [OF r] True by (simp add: step_ok_def)
    with rx_symbol_s1200 [OF r i(1)] i(2) b True show ?thesis by (auto simp: s1200_measure_def)
  next
    case False
    with assms(1) e i b show ?thesis by (auto simp: s1200_measure_def)
  qed
qed

lemma half_bauds_s1200:
  assumes "rx_inv s" and "s1200_inv s"
    and "\<And>j. j \<le> length zs \<Longrightarrow> r_training (fst (half_bauds F cb (take j zs) (s, u))) = RxScrambledOnes1200"
  shows "s1200_inv (fst (half_bauds F cb zs (s, u)))
    \<and> s1200_measure (fst (half_bauds F cb zs (s, u))) + length zs \<le> s1200_measure s"
  using assms
proof (induction zs arbitrary: s u)
  case (Cons z zs)
  obtain s1 u1 where 1: "process_half_baud F cb z (s, u) = (s1, u1)" by fastforce
  have "r_training s1 = RxScrambledOnes1200" using Cons.prems(3) [of 1] 1 by simp
  then have i: "s1200_inv s1" "s1200_measure s1 < s1200_measure s"
    using process_half_baud_s1200 [OF 1 Cons.prems(1,2)] by auto
  have "r_training (fst (half_bauds F cb (take j zs) (s1, u1))) = RxScrambledOnes1200" if "j \<le> length zs" for j
    using Cons.prems(3) [of "Suc j"] 1 that by simp
  from Cons.IH [OF _ i(1) this] process_half_baud_ok [OF 1 Cons.prems(1)] i(2) 1 show ?case by simp
qed simp

text \<open>C32: with 2400 allowed, training cannot hang in the segment of scrambled ones at 1200, whatever arrives:
  within 570 symbols, less than a second, the receiver has settled on a rate and moved on.\<close>

theorem scrambled_1200_ends:
  assumes "rx_inv s" and "r_training s = RxScrambledOnes1200" and "v_bit_rate s = 2400"
    and "0 \<le> r_training_count s" and "r_training_count s < 240" and "length zs \<ge> 1140"
  shows "\<exists>j \<le> 1140. r_training (fst (half_bauds F cb (take j zs) (s, u))) \<noteq> RxScrambledOnes1200"
proof (rule ccontr)
  assume "\<not> ?thesis"
  then have stay: "\<And>j. j \<le> 1140 \<Longrightarrow> r_training (fst (half_bauds F cb (take j zs) (s, u))) = RxScrambledOnes1200" by blast
  have i: "s1200_inv s" using assms by (simp add: s1200_inv_def)
  let ?t = "fst (half_bauds F cb (take 1140 zs) (s, u))"
  have l: "length (take 1140 zs) = 1140" using assms(6) by simp
  have "s1200_inv ?t \<and> s1200_measure ?t + length (take 1140 zs) \<le> s1200_measure s"
    by (rule half_bauds_s1200 [OF assms(1) i]) (use stay l in \<open>simp add: min_def\<close>)
  then have "s1200_inv ?t" "s1200_measure ?t + 1140 \<le> s1200_measure s" unfolding l by simp_all
  moreover have "s1200_measure s \<le> 1141" using assms(4,5) by (auto simp: s1200_measure_def s1200_left_def)
  moreover have "s1200_inv ?t \<Longrightarrow> s1200_measure ?t \<ge> 2" by (auto simp: s1200_measure_def s1200_left_def s1200_inv_def split: if_splits)
  ultimately show False by linarith
qed

theorem scrambled_1200_ends_witness:
  "\<exists>j \<le> 1140. r_training (fst (half_bauds plain_fp idle_cb (take j (replicate 2000 (1, 0)))
     ((v22bis_rx_restart plain_fp (v22_zero plain_fp False 2400))\<lparr>r_training := RxScrambledOnes1200, r_training_count := 40\<rparr>, ())))
     \<noteq> RxScrambledOnes1200"
proof (rule scrambled_1200_ends)
  let ?s = "v22bis_rx_restart plain_fp (v22_zero plain_fp False 2400)"
  show "rx_inv (?s\<lparr>r_training := RxScrambledOnes1200, r_training_count := 40\<rparr>)"
    using rx_restart_same(1) [of plain_fp "v22_zero plain_fp False 2400"] by (simp add: rx_inv_def)
  have "v_bit_rate (v22_zero plain_fp False 2400) = 2400" by (simp add: v22_zero_def Let_def)
  then show "v_bit_rate (?s\<lparr>r_training := RxScrambledOnes1200, r_training_count := 40\<rparr>) = 2400"
    using rx_restart_same(4) [of plain_fp "v22_zero plain_fp False 2400"] by simp
qed simp_all

end
