(* ===== verification/Doors.thy ===== *)
theory Doors
  imports C_String
begin

text \<open>
  The door games of \<open>src/src/bbs/doors/\<close>. A game sees its context only: the caller's data, the
  pseudo-random register, eight values, a text, and the callbacks \<open>write\<close>, \<open>load_int\<close>,
  \<open>save_int\<close> and \<open>return_to_menu\<close>. What is written is collected in \<open>dc_out\<close>; the stored values are
  the host's, a value of type \<open>'q\<close> acted on by the two storage callbacks; a call of
  \<open>return_to_menu\<close>, always the last action of a game, is recorded in \<open>dc_left\<close>.
\<close>

record 'q door_host =
  dh_load :: "string \<Rightarrow> string \<Rightarrow> int \<Rightarrow> 'q \<Rightarrow> int"
  dh_save :: "string \<Rightarrow> string \<Rightarrow> int \<Rightarrow> 'q \<Rightarrow> 'q"

record 'q door_context =
  dc_protocol :: string
  dc_tx_bps :: int
  dc_rx_bps :: int
  dc_rng :: u32
  dc_state :: int
  dc_values :: "nat \<Rightarrow> int"
  dc_word :: string
  dc_guesses :: string
  dc_store :: 'q
  dc_out :: "string list"
  dc_left :: bool
  dc_now :: int

datatype door = Blackjack | Hangman | SpaceTrader | Dungeon | SpeedChallenge

definition door_key :: "door \<Rightarrow> string" where
  "door_key d = (case d of Blackjack \<Rightarrow> ''1'' | Hangman \<Rightarrow> ''2'' | SpaceTrader \<Rightarrow> ''3''
     | Dungeon \<Rightarrow> ''4'' | SpeedChallenge \<Rightarrow> ''S'')"

definition doors :: "door list" where
  "doors = [Blackjack, Hangman, SpaceTrader, Dungeon, SpeedChallenge]"

definition strcasecmp_eq :: "string \<Rightarrow> string \<Rightarrow> bool" where
  "strcasecmp_eq a b \<longleftrightarrow> map to_lower (cstr a) = map to_lower (cstr b)"

definition door_find :: "string \<Rightarrow> door option" where
  "door_find key = find (\<lambda>d. strcasecmp_eq key (door_key d)) doors"

subsection \<open>Callbacks\<close>

definition door_write :: "string \<Rightarrow> 'q door_context \<Rightarrow> 'q door_context" where
  "door_write p c = c\<lparr>dc_out := dc_out c @ [p]\<rparr>"

definition load_int :: "'q door_host \<Rightarrow> string \<Rightarrow> string \<Rightarrow> int \<Rightarrow> 'q door_context \<Rightarrow> int" where
  "load_int h game key fallback c = dh_load h game key fallback (dc_store c)"

definition save_int :: "'q door_host \<Rightarrow> string \<Rightarrow> string \<Rightarrow> int \<Rightarrow> 'q door_context \<Rightarrow> 'q door_context" where
  "save_int h game key v c = c\<lparr>dc_store := dh_save h game key v (dc_store c)\<rparr>"

definition set_value :: "nat \<Rightarrow> int \<Rightarrow> 'q door_context \<Rightarrow> 'q door_context" where
  "set_value i v c = c\<lparr>dc_values := (dc_values c)(i := v)\<rparr>"

definition return_to_menu :: "'q door_context \<Rightarrow> 'q door_context" where
  "return_to_menu c = c\<lparr>dc_left := True\<rparr>"

definition door_menu :: string where
  "door_menu =
     CRLF @ ''+------------------------------------------+'' @ CRLF
     @ ''|               DOOR GAMES                 |'' @ CRLF
     @ ''+------------------------------------------+'' @ CRLF
     @ ''| [1] Blackjack                            |'' @ CRLF
     @ ''| [2] Hangman                              |'' @ CRLF
     @ ''| [3] Orbit Merchant                       |'' @ CRLF
     @ ''| [4] Ember Depths                         |'' @ CRLF
     @ ''| [S] Modem Speed Challenge                |'' @ CRLF
     @ ''| [Q] Return to BBS                        |'' @ CRLF
     @ ''+------------------------------------------+'' @ CRLF @ ''Door: ''"

definition door_show_menu :: "'q door_context \<Rightarrow> 'q door_context" where
  "door_show_menu c = door_write door_menu c"

text \<open>\<open>*line\<close>: the first character, NUL at the end of the string.\<close>

definition first :: "string \<Rightarrow> char" where
  "first line = (case line of [] \<Rightarrow> NUL | ch # _ \<Rightarrow> ch)"

definition is_key :: "char \<Rightarrow> string \<Rightarrow> bool" where
  "is_key k line \<longleftrightarrow> to_lower (first line) = k"

subsection \<open>Orbit Merchant\<close>

definition space_price :: "'q door_context \<Rightarrow> int" where
  "space_price c = 18 + c_mod (dc_values c 2) 17"

definition space_show :: "'q door_context \<Rightarrow> 'q door_context" where
  "space_show c = door_write (snprintf 320
     (CRLF @ ''ORBIT MERCHANT'' @ CRLF @ ''Port '' @ dec_int (dc_values c 2) @ ''  Credits '' @ dec_int (dc_values c 0)
      @ ''  Cargo '' @ dec_int (dc_values c 1) @ ''/20  Ore price '' @ dec_int (space_price c) @ CRLF
      @ ''[B] Buy ore  [S] Sell ore  [J] Jump port  [Q] Return: '')) c"

definition space_open :: "'q door_host \<Rightarrow> 'q door_context \<Rightarrow> 'q door_context" where
  "space_open h c =
     space_show (set_value 2 (load_int h ''space'' ''port'' 1 c)
       (set_value 1 (load_int h ''space'' ''cargo'' 0 c)
         (set_value 0 (load_int h ''space'' ''credits'' 500 c) c)))"

definition space_save :: "'q door_host \<Rightarrow> 'q door_context \<Rightarrow> 'q door_context" where
  "space_save h c =
     save_int h ''space'' ''port'' (dc_values c 2)
       (save_int h ''space'' ''cargo'' (dc_values c 1)
         (save_int h ''space'' ''credits'' (dc_values c 0) c))"

definition space_trade :: "string \<Rightarrow> 'q door_context \<Rightarrow> 'q door_context" where
  "space_trade line c =
     (let price = space_price c
      in if is_key CHR ''b'' line \<and> dc_values c 1 < 20 \<and> dc_values c 0 \<ge> price
         then set_value 1 (dc_values c 1 + 1) (set_value 0 (dc_values c 0 - price) c)
         else if is_key CHR ''s'' line \<and> dc_values c 1 > 0
         then set_value 1 (dc_values c 1 - 1) (set_value 0 (dc_values c 0 + price) c)
         else if is_key CHR ''j'' line
         then (let r = dc_rng c * 1664525 + 1013904223
               in set_value 2 (1 + int (unat (drop_bit 16 r) mod 12)) (c\<lparr>dc_rng := r\<rparr>))
         else c)"

definition space_input :: "'q door_host \<Rightarrow> string \<Rightarrow> 'q door_context \<Rightarrow> 'q door_context" where
  "space_input h line c =
     (if is_key CHR ''q'' line then return_to_menu (space_save h c)
      else space_show (space_save h (space_trade line c)))"

subsection \<open>Ember Depths\<close>

definition dungeon_show :: "'q door_context \<Rightarrow> 'q door_context" where
  "dungeon_show c = door_write (snprintf 256
     (CRLF @ ''EMBER DEPTHS'' @ CRLF @ ''Level '' @ dec_int (dc_values c 0) @ ''  XP '' @ dec_int (dc_values c 1)
      @ ''  HP '' @ dec_int (dc_values c 2) @ ''  Gold '' @ dec_int (dc_values c 3) @ CRLF
      @ ''[E] Explore  [R] Rest  [Q] Return: '')) c"

definition dungeon_save :: "'q door_host \<Rightarrow> 'q door_context \<Rightarrow> 'q door_context" where
  "dungeon_save h c =
     save_int h ''dungeon'' ''gold'' (dc_values c 3)
       (save_int h ''dungeon'' ''hp'' (dc_values c 2)
         (save_int h ''dungeon'' ''xp'' (dc_values c 1)
           (save_int h ''dungeon'' ''level'' (dc_values c 0) c)))"

definition dungeon_open :: "'q door_host \<Rightarrow> 'q door_context \<Rightarrow> 'q door_context" where
  "dungeon_open h c =
     dungeon_show (set_value 3 (load_int h ''dungeon'' ''gold'' 0 c)
       (set_value 2 (load_int h ''dungeon'' ''hp'' 20 c)
         (set_value 1 (load_int h ''dungeon'' ''xp'' 0 c)
           (set_value 0 (load_int h ''dungeon'' ''level'' 1 c) c))))"

definition dungeon_rest :: "'q door_context \<Rightarrow> 'q door_context" where
  "dungeon_rest c = set_value 2 (20 + dc_values c 0 * 3) c"

text \<open>A fight; \<open>c->values[2] -= hit\<close> and what follows.\<close>

definition dungeon_explore :: "'q door_context \<Rightarrow> 'q door_context" where
  "dungeon_explore c0 =
     (let r = dc_rng c0 * 1103515245 + 12345;
          hit = 1 + int (unat (drop_bit 16 r) mod 8);
          gain = 4 + int (unat (drop_bit 20 r) mod 12);
          c1 = set_value 2 (dc_values c0 2 - hit) (c0\<lparr>dc_rng := r\<rparr>);
          c2 = (if dc_values c1 2 \<le> 0
                then set_value 3 (c_div (dc_values c1 3) 2)
                       (dungeon_rest (door_write (''You wake at the gate, poorer but alive.'' @ CRLF) c1))
                else set_value 3 (dc_values c1 3 + c_div gain 2) (set_value 1 (dc_values c1 1 + gain) c1))
      in if dc_values c2 1 \<ge> dc_values c2 0 * 50
         then door_write (''You gained a level!'' @ CRLF) (set_value 0 (dc_values c2 0 + 1) c2)
         else c2)"

definition dungeon_input :: "'q door_host \<Rightarrow> string \<Rightarrow> 'q door_context \<Rightarrow> 'q door_context" where
  "dungeon_input h line c =
     (if is_key CHR ''q'' line then return_to_menu (dungeon_save h c)
      else (let c1 = (if is_key CHR ''r'' line then dungeon_rest c else c);
                c2 = (if is_key CHR ''e'' line then dungeon_explore c1 else c1)
            in dungeon_show (dungeon_save h c2)))"

subsection \<open>Blackjack\<close>

definition draw_card :: "'q door_context \<Rightarrow> int \<times> 'q door_context" where
  "draw_card c =
     (let r = dc_rng c * 1664525 + 1013904223
      in (1 + int (unat (drop_bit 16 r) mod 10), c\<lparr>dc_rng := r\<rparr>))"

definition blackjack_prompt :: "'q door_context \<Rightarrow> 'q door_context" where
  "blackjack_prompt c = door_write (snprintf 160
     (''You: '' @ dec_int (dc_values c 1) @ ''  Dealer: '' @ dec_int (dc_values c 2) @ ''  [H]it [S]tand [Q]uit: '')) c"

definition blackjack_open :: "'q door_host \<Rightarrow> 'q door_context \<Rightarrow> 'q door_context" where
  "blackjack_open h c0 =
     (let c1 = set_value 0 (load_int h ''blackjack'' ''credits'' 1000 c0) c0;
          (x, c2) = draw_card c1;
          (y, c3) = draw_card c2;
          (z, c4) = draw_card (set_value 1 (x + y) c3)
      in blackjack_prompt (door_write (CRLF @ ''BLACKJACK -- wager 25 credits per hand'' @ CRLF)
           ((set_value 2 z c4)\<lparr>dc_state := 1\<rparr>)))"

text \<open>The dealer's loop ends because every card is worth at least 1.\<close>

function dealer :: "'q door_context \<Rightarrow> 'q door_context" where
  "dealer c =
     (if dc_values c 2 < 17 then (let (x, c1) = draw_card c in dealer (set_value 2 (dc_values c 2 + x) c1)) else c)"
  by pat_completeness auto
termination by (relation "measure (\<lambda>c. nat (17 - dc_values c 2))") (auto simp: draw_card_def set_value_def Let_def)

declare dealer.simps [simp del]

definition blackjack_settle :: "'q door_host \<Rightarrow> string \<Rightarrow> 'q door_context \<Rightarrow> 'q door_context" where
  "blackjack_settle h said c =
     blackjack_open h (save_int h ''blackjack'' ''credits'' (dc_values c 0) (door_write (snprintf 160 said) c))"

definition blackjack_input :: "'q door_host \<Rightarrow> string \<Rightarrow> 'q door_context \<Rightarrow> 'q door_context" where
  "blackjack_input h line c =
     (if is_key CHR ''q'' line then return_to_menu c
      else if is_key CHR ''h'' line
      then (let (x, c1) = draw_card c; c2 = set_value 1 (dc_values c1 1 + x) c1
            in if dc_values c2 1 > 21
               then (let c3 = set_value 0 (dc_values c2 0 - 25) c2
                     in blackjack_settle h (''Bust. Balance: '' @ dec_int (dc_values c3 0) @ CRLF) c3)
               else blackjack_prompt c2)
      else if is_key CHR ''s'' line
      then (let c1 = dealer c;
                won = (dc_values c1 2 > 21 \<or> dc_values c1 1 > dc_values c1 2);
                c2 = (if won then set_value 0 (dc_values c1 0 + 25) c1
                      else if dc_values c1 1 < dc_values c1 2 then set_value 0 (dc_values c1 0 - 25) c1 else c1)
            in blackjack_settle h (''Dealer has '' @ dec_int (dc_values c2 2) @ ''. Balance: '' @ dec_int (dc_values c2 0) @ CRLF) c2)
      else blackjack_prompt c)"

subsection \<open>Hangman\<close>

text \<open>\<open>text\<close> holds the word and, from its position 64 on, the letters guessed.\<close>

definition hangman_words :: "string list" where
  "hangman_words = [''CARRIER'', ''PACKET'', ''MODEM'', ''TERMINAL'', ''GALAXY'', ''SIGNAL'']"

definition to_upper :: "char \<Rightarrow> char" where
  "to_upper c = (let n = of_char c :: nat in if 97 \<le> n \<and> n \<le> 122 then char_of (n - 32) else c)"

definition is_upper_letter :: "char \<Rightarrow> bool" where
  "is_upper_letter c \<longleftrightarrow> (let n = of_char c :: nat in 65 \<le> n \<and> n \<le> 90)"

text \<open>The line drawn stops with 3 bytes of the 256 left, that is after 127 letters.\<close>

definition hangman_shown :: "'q door_context \<Rightarrow> string" where
  "hangman_shown c = take 127 (dc_word c)"

definition hangman_won :: "'q door_context \<Rightarrow> bool" where
  "hangman_won c \<longleftrightarrow> list_all (\<lambda>ch. ch \<in> set (dc_guesses c)) (hangman_shown c)"

definition hangman_line :: "'q door_context \<Rightarrow> string" where
  "hangman_line c =
     concat (map (\<lambda>ch. [if ch \<in> set (dc_guesses c) then ch else CHR ''_'', CHR '' '']) (hangman_shown c))"

definition hangman_draw :: "'q door_host \<Rightarrow> 'q door_context \<Rightarrow> 'q door_context" where
  "hangman_draw h c0 =
     (let c = door_write (hangman_line c0) c0
      in if hangman_won c0
         then (door_write (CRLF @ ''Solved! Press Q to return or ENTER for another: '')
                (save_int h ''hangman'' ''wins'' (load_int h ''hangman'' ''wins'' 0 c + 1) c))\<lparr>dc_state := 2\<rparr>
         else door_write (snprintf 256 (''  misses '' @ dec_int (dc_values c 0) @ ''/6. Letter or Q: '')) c)"

definition hangman_open :: "'q door_host \<Rightarrow> 'q door_context \<Rightarrow> 'q door_context" where
  "hangman_open h c =
     (let r = dc_rng c * 1103515245 + 12345;
          c1 = set_value 0 0 (c\<lparr>dc_rng := r, dc_word := snprintf 63 (hangman_words ! (unat (drop_bit 16 r) mod 6)),
                                dc_guesses := []\<rparr>)
      in hangman_draw h (door_write (CRLF @ ''HANGMAN'' @ CRLF) (c1\<lparr>dc_state := 1\<rparr>)))"

text \<open>A letter not yet guessed is noted, and is a miss when the word does not have it.\<close>

definition hangman_guess :: "string \<Rightarrow> 'q door_context \<Rightarrow> 'q door_context" where
  "hangman_guess line c =
     (let ch = to_upper (first line)
      in if is_upper_letter ch \<and> ch \<notin> set (dc_guesses c)
         then (let c1 = c\<lparr>dc_guesses := dc_guesses c @ [ch]\<rparr>
               in if ch \<notin> set (dc_word c1) then set_value 0 (dc_values c1 0 + 1) c1 else c1)
         else c)"

definition hangman_input :: "'q door_host \<Rightarrow> string \<Rightarrow> 'q door_context \<Rightarrow> 'q door_context" where
  "hangman_input h line c0 =
     (if is_key CHR ''q'' line then return_to_menu c0
      else if dc_state c0 = 2 then hangman_open h c0
      else (let c = hangman_guess line c0
            in if dc_values c 0 \<ge> 6
               then (door_write (snprintf 192 (''The word was '' @ take 63 (dc_word c) @ ''. ENTER to retry or Q: '')) c)
                      \<lparr>dc_state := 2\<rparr>
               else hangman_draw h c))"

subsection \<open>Modem Speed Challenge\<close>

definition speed_line :: string where
  "speed_line = ''0123456789ABCDEFGHIJKLMNOPQRSTUVWXYZabcdefghijklmnopqrstuvwxyz'' @ CRLF"

definition speed_open :: "'q door_context \<Rightarrow> 'q door_context" where
  "speed_open c =
     (let c1 = door_write (snprintf 256
                 (CRLF @ ''MODEM SPEED CHALLENGE'' @ CRLF @ ''Protocol: '' @ dc_protocol c @ CRLF @ ''Negotiated TX: ''
                  @ dec_int (dc_tx_bps c) @ '' bps  RX: '' @ dec_int (dc_rx_bps c) @ '' bps'' @ CRLF @ CRLF
                  @ ''Receiving 1024 test characters...'' @ CRLF)) c;
          c2 = set_value 0 (dc_now c1) c1;
          c3 = (door_write speed_line ^^ 16) c2
      in (door_write ''Test complete. Press ENTER when received: '' c3)\<lparr>dc_state := 1\<rparr>)"

definition speed_input :: "string \<Rightarrow> 'q door_context \<Rightarrow> 'q door_context" where
  "speed_input line c =
     (let e = dc_now c - dc_values c 0;
          elapsed = (if e < 1 then 1 else e)
      in return_to_menu (door_write (snprintf 256
           (CRLF @ ''Negotiated RX rate : '' @ dec_int (dc_rx_bps c) @ '' bps'' @ CRLF @ ''Characters sent    : 1024'' @ CRLF
            @ ''User response time : '' @ dec_int elapsed @ '' s'' @ CRLF
            @ ''Measured BBS data  : N/A (no remote delivery acknowledgement)'' @ CRLF)) c))"

subsection \<open>Dispatch\<close>

definition door_open :: "'q door_host \<Rightarrow> door \<Rightarrow> 'q door_context \<Rightarrow> 'q door_context" where
  "door_open h d =
     (case d of Blackjack \<Rightarrow> blackjack_open h | Hangman \<Rightarrow> hangman_open h | SpaceTrader \<Rightarrow> space_open h
      | Dungeon \<Rightarrow> dungeon_open h | SpeedChallenge \<Rightarrow> speed_open)"

definition door_input :: "'q door_host \<Rightarrow> door \<Rightarrow> string \<Rightarrow> 'q door_context \<Rightarrow> 'q door_context" where
  "door_input h d line =
     (case d of Blackjack \<Rightarrow> blackjack_input h line | Hangman \<Rightarrow> hangman_input h line
      | SpaceTrader \<Rightarrow> space_input h line | Dungeon \<Rightarrow> dungeon_input h line | SpeedChallenge \<Rightarrow> speed_input line)"

subsection \<open>The rules of the games\<close>

lemmas callback_defs = door_write_def save_int_def set_value_def return_to_menu_def load_int_def

lemma callback_simps [simp]:
  "dc_values (door_write p c) = dc_values c" "dc_values (save_int h g k v c) = dc_values c"
  "dc_values (return_to_menu c) = dc_values c" "dc_values (set_value i v c) = (dc_values c)(i := v)"
  "dc_left (door_write p c) = dc_left c" "dc_left (save_int h g k v c) = dc_left c" "dc_left (set_value i v c) = dc_left c"
  "dc_left (return_to_menu c)" "dc_word (door_write p c) = dc_word c" "dc_guesses (door_write p c) = dc_guesses c"
  "dc_word (save_int h g k v c) = dc_word c" "dc_guesses (save_int h g k v c) = dc_guesses c"
  "dc_word (set_value i v c) = dc_word c" "dc_guesses (set_value i v c) = dc_guesses c"
  "dc_state (door_write p c) = dc_state c" "dc_state (save_int h g k v c) = dc_state c" "dc_state (set_value i v c) = dc_state c"
  by (simp_all add: callback_defs)

lemma c_mod_17: "0 \<le> v \<Longrightarrow> 0 \<le> c_mod v 17 \<and> c_mod v 17 < 17"
  by (simp add: c_mod_nonneg)

text \<open>What holds of a trader: no debts, a hold of 20, and a port from 1 to 12.\<close>

definition space_ok :: "'q door_context \<Rightarrow> bool" where
  "space_ok c \<longleftrightarrow> 0 \<le> dc_values c 0 \<and> 0 \<le> dc_values c 1 \<and> dc_values c 1 \<le> 20 \<and> 1 \<le> dc_values c 2 \<and> dc_values c 2 \<le> 12"

definition worth :: "'q door_context \<Rightarrow> int" where
  "worth c = dc_values c 0 + dc_values c 1 * space_price c"

lemma space_trade_ok:
  assumes "space_ok c"
  shows "space_ok (space_trade line c)"
    and "\<not> is_key CHR ''j'' line \<Longrightarrow> worth (space_trade line c) = worth c"
proof -
  have m: "unat (drop_bit 16 (r :: u32)) mod 12 < 12" for r by simp
  have "space_price c \<ge> 18" using c_mod_17 [of "dc_values c 2"] assms by (simp add: space_price_def space_ok_def)
  with assms m show "space_ok (space_trade line c)"
    by (auto simp: space_trade_def space_ok_def Let_def less_Suc_eq_le [symmetric] simp flip: of_nat_less_iff)
  show "\<not> is_key CHR ''j'' line \<Longrightarrow> worth (space_trade line c) = worth c"
    by (auto simp: space_trade_def worth_def space_price_def Let_def algebra_simps)
qed

text \<open>An adventurer: alive, on a level, owning no debts.\<close>

definition dungeon_ok :: "'q door_context \<Rightarrow> bool" where
  "dungeon_ok c \<longleftrightarrow> 1 \<le> dc_values c 0 \<and> 0 \<le> dc_values c 1 \<and> 0 < dc_values c 2 \<and> 0 \<le> dc_values c 3"

lemma dungeon_explore_ok: "dungeon_ok c \<Longrightarrow> dungeon_ok (dungeon_explore c)"
  by (auto simp: dungeon_explore_def dungeon_ok_def dungeon_rest_def Let_def c_div_nonneg)

lemma dungeon_rest_ok: "dungeon_ok c \<Longrightarrow> dungeon_ok (dungeon_rest c)"
  by (auto simp: dungeon_ok_def dungeon_rest_def)

text \<open>A word being guessed: the guesses are different capital letters, so they fit behind the word, and
  the misses are counted right.\<close>

definition hangman_ok :: "'q door_context \<Rightarrow> bool" where
  "hangman_ok c \<longleftrightarrow> length (dc_word c) < 63 \<and> distinct (dc_guesses c) \<and> list_all is_upper_letter (dc_guesses c)
     \<and> dc_values c 0 = int (length (filter (\<lambda>ch. ch \<notin> set (dc_word c)) (dc_guesses c))) \<and> dc_values c 0 \<le> 6
     \<and> (dc_values c 0 = 6 \<longrightarrow> dc_state c = 2)"

lemma hangman_guesses_fit:
  assumes "hangman_ok c"
  shows "64 + length (dc_guesses c) < 128"
proof -
  have "inj_on (of_char :: char \<Rightarrow> nat) (set (dc_guesses c))" by (simp add: inj_on_def)
  moreover have "of_char ` set (dc_guesses c) \<subseteq> {65..90 :: nat}"
    using assms by (auto simp: hangman_ok_def is_upper_letter_def Let_def list_all_iff)
  ultimately have "card (set (dc_guesses c)) \<le> card {65..90 :: nat}"
    by (metis card_image card_mono finite_atLeastAtMost)
  moreover have "card (set (dc_guesses c)) = length (dc_guesses c)"
    using assms by (simp add: hangman_ok_def distinct_card)
  ultimately show ?thesis by simp
qed

lemma hangman_draw_simps:
  "dc_values (hangman_draw h c) = dc_values c" "dc_word (hangman_draw h c) = dc_word c"
  "dc_guesses (hangman_draw h c) = dc_guesses c" "dc_state (hangman_draw h c) = (if hangman_won c then 2 else dc_state c)"
  by (simp_all add: hangman_draw_def Let_def)

lemma hangman_word_less: "length (hangman_words ! (n mod 6)) < 63"
proof -
  have "n mod 6 \<in> {0, 1, 2, 3, 4, 5}" by auto
  then show ?thesis by (auto simp: hangman_words_def)
qed

lemma hangman_open_ok: "hangman_ok (hangman_open h c)"
  using hangman_word_less by (auto simp: hangman_open_def hangman_ok_def hangman_draw_simps Let_def snprintf_def)

lemma hangman_input_ok: "hangman_ok c \<Longrightarrow> hangman_ok (hangman_input h line c)"
  using hangman_open_ok [of h c]
  by (auto simp: hangman_input_def hangman_guess_def hangman_ok_def hangman_draw_simps return_to_menu_def Let_def)

text \<open>The dealer draws to 17 or more, and never past 26.\<close>

lemma dealer_stands:
  "17 \<le> dc_values (dealer c) 2 \<and> (dc_values c 2 < 27 \<longrightarrow> dc_values (dealer c) 2 < 27)
    \<and> dc_values (dealer c) 0 = dc_values c 0 \<and> dc_values (dealer c) 1 = dc_values c 1 \<and> dc_store (dealer c) = dc_store c"
proof (induction c rule: dealer.induct)
  case (1 c)
  obtain x c1 where k: "draw_card c = (x, c1)" by fastforce
  have e: "x = 1 + int (unat (drop_bit 16 (dc_rng c1)) mod 10)" and v: "dc_values c1 = dc_values c" "dc_store c1 = dc_store c"
    using k by (auto simp: draw_card_def Let_def)
  have x: "1 \<le> x" "x \<le> 10" unfolding e by linarith+
  show ?case
  proof (cases "dc_values c 2 < 17")
    case True
    then have "dealer c = dealer (set_value 2 (dc_values c 2 + x) c1)" using k by (simp add: dealer.simps [of c])
    then show ?thesis using 1 [OF True k [symmetric] refl] x v True by (simp add: set_value_def)
  next
    case False
    then have "dealer c = c" by (simp add: dealer.simps [of c])
    with False show ?thesis by simp
  qed
qed

text \<open>A hand: the caller holds 2 to 21, the dealer shows one card.\<close>

definition blackjack_ok :: "'q door_context \<Rightarrow> bool" where
  "blackjack_ok c \<longleftrightarrow> 2 \<le> dc_values c 1 \<and> dc_values c 1 \<le> 21 \<and> 1 \<le> dc_values c 2 \<and> dc_values c 2 \<le> 10"

lemma draw_card_range:
  assumes "draw_card c = (x, c')"
  shows "1 \<le> x \<and> x \<le> 10 \<and> dc_values c' = dc_values c"
proof -
  have e: "x = 1 + int (unat (drop_bit 16 (dc_rng c')) mod 10)" "dc_values c' = dc_values c"
    using assms by (auto simp: draw_card_def Let_def)
  show ?thesis unfolding e by simp
qed

lemma blackjack_open_ok: "blackjack_ok (blackjack_open h c)"
proof -
  let ?c1 = "set_value 0 (load_int h ''blackjack'' ''credits'' 1000 c) c"
  obtain x c2 where 1: "draw_card ?c1 = (x, c2)" by fastforce
  obtain y c3 where 2: "draw_card c2 = (y, c3)" by fastforce
  obtain z c4 where 3: "draw_card (set_value 1 (x + y) c3) = (z, c4)" by fastforce
  show ?thesis
    using draw_card_range [OF 1] draw_card_range [OF 2] draw_card_range [OF 3] 1 2 3
    by (auto simp: blackjack_open_def blackjack_ok_def blackjack_prompt_def Let_def)
qed

lemma blackjack_input_ok: "blackjack_ok c \<Longrightarrow> blackjack_ok (blackjack_input h line c)"
proof -
  assume ok: "blackjack_ok c"
  obtain x c1 where 1: "draw_card c = (x, c1)" by fastforce
  show ?thesis
    using ok 1 draw_card_range [OF 1] blackjack_open_ok
    by (auto simp: blackjack_input_def blackjack_settle_def blackjack_ok_def blackjack_prompt_def Let_def)
qed

definition door_ok :: "door \<Rightarrow> 'q door_context \<Rightarrow> bool" where
  "door_ok d c = (case d of Blackjack \<Rightarrow> blackjack_ok c | Hangman \<Rightarrow> hangman_ok c | SpaceTrader \<Rightarrow> space_ok c
     | Dungeon \<Rightarrow> dungeon_ok c | SpeedChallenge \<Rightarrow> True)"

subsection \<open>Properties\<close>

text \<open>C34: every line a caller can type keeps a game within its rules, whatever the storage returns: no
  debts and at most 20 units of cargo, an adventurer alive, hands up to 21, at most six misses counted
  right; the letters guessed always fit the 64 bytes the text has for them; and trading at a port
  neither makes nor loses money.\<close>

theorem door_rules:
  assumes "door_ok d c"
  shows "door_ok d (door_input h d line c)
    \<and> (d = Hangman \<longrightarrow> 64 + length (dc_guesses (door_input h d line c)) < 128)
    \<and> (d = SpaceTrader \<and> \<not> is_key CHR ''j'' line \<longrightarrow> worth (door_input h d line c) = worth c)"
proof (cases d)
  case Hangman
  with assms have "hangman_ok (hangman_input h line c)" by (simp add: door_ok_def hangman_input_ok)
  with hangman_guesses_fit [OF this] Hangman show ?thesis by (simp add: door_ok_def door_input_def)
next
  case SpaceTrader
  have w: "dc_values a = dc_values b \<Longrightarrow> worth a = worth b" for a b :: "'a door_context" by (simp add: worth_def space_price_def)
  have v: "dc_values (space_input h line c) = (if is_key CHR ''q'' line then dc_values c else dc_values (space_trade line c))"
    by (simp add: space_input_def space_save_def space_show_def)
  from SpaceTrader assms space_trade_ok [of c line] v w [of "space_input h line c" c]
    w [of "space_input h line c" "space_trade line c"] show ?thesis
    by (auto simp: door_ok_def door_input_def space_ok_def split: if_splits)
next
  case Dungeon
  with assms show ?thesis
    using dungeon_rest_ok dungeon_explore_ok
    by (auto simp: door_ok_def door_input_def dungeon_input_def dungeon_save_def dungeon_show_def Let_def)
      (auto simp: dungeon_ok_def dungeon_save_def dungeon_show_def)
next
  case Blackjack
  with assms show ?thesis by (simp add: door_ok_def door_input_def blackjack_input_ok)
qed (simp_all add: door_ok_def)

text \<open>A host that keeps what it is given.\<close>

definition map_host :: "(string \<times> string \<Rightarrow> int option) door_host" where
  "map_host = \<lparr>dh_load = (\<lambda>g k f q. case q (g, k) of None \<Rightarrow> f | Some v \<Rightarrow> v),
     dh_save = (\<lambda>g k v q. q((g, k) := Some v))\<rparr>"

definition new_context :: "'q \<Rightarrow> 'q door_context" where
  "new_context q = \<lparr>dc_protocol = [], dc_tx_bps = 0, dc_rx_bps = 0, dc_rng = 0, dc_state = 0, dc_values = (\<lambda>_. 0),
     dc_word = [], dc_guesses = [], dc_store = q, dc_out = [], dc_left = False, dc_now = 0\<rparr>"

theorem door_rules_witness:
  "worth (door_input map_host SpaceTrader ''buy'' (space_open map_host (new_context (\<lambda>_. None)))) = 500"
proof -
  let ?c = "space_open map_host (new_context (\<lambda>_. None))"
  have "door_ok SpaceTrader ?c" "worth ?c = 500" "\<not> is_key CHR ''j'' ''buy''"
    by (simp_all add: door_ok_def space_ok_def space_open_def space_show_def load_int_def map_host_def new_context_def
        set_value_def worth_def is_key_def first_def to_lower_def Let_def)
  with door_rules [of SpaceTrader ?c map_host "''buy''"] show ?thesis by simp
qed

end
