(* ===== verification/Bbs.thy ===== *)
theory Bbs
  imports Complex_Main Doors
begin

text \<open>
  The bulletin board of \<open>src/src/bbs/bbs.c\<close>: the session record, its line editor and menu state
  machine, the terminal detection and the storage of users, connections and game values.
  SQLite is the library the code loads at run time: a record of its functions over a database
  state of type \<open>'q\<close>. A statement is its text and the values bound to it, a result row the two
  column readers the code uses. \<open>time\<close> and \<open>localtime_r\<close> are inputs. What \<open>write_fn\<close> is given is
  collected in \<open>bs_out\<close>. Characters and bytes are the same eight bits; C's \<open>int\<close> and \<open>long long\<close> are
  integers, cut to their width where the code casts.
\<close>

subsection \<open>The database library\<close>

datatype sqlval = SInt int | SText string | SNull

record sql_row =
  column_int64 :: "nat \<Rightarrow> int"
  column_text :: "nat \<Rightarrow> string option"

definition SQLITE_OK :: int where "SQLITE_OK = 0"
definition SQLITE_DONE :: int where "SQLITE_DONE = 101"

text \<open>\<open>sq_dlopen\<close>, \<open>sq_symbols\<close>: the library, and every symbol, is found; \<open>sq_open\<close>: the handle (None for NULL) and the
  result code; \<open>sq_rows\<close>: the rows a SELECT steps through; \<open>sq_run\<close>: the code of the one step of any other
  statement.\<close>

record 'q sql_api =
  sq_dlopen :: bool
  sq_symbols :: bool
  sq_open :: "string \<Rightarrow> 'q option \<times> int"
  sq_exec :: "string \<Rightarrow> 'q \<Rightarrow> 'q"
  sq_prepare :: "string \<Rightarrow> 'q \<Rightarrow> int"
  sq_rows :: "string \<Rightarrow> sqlval list \<Rightarrow> 'q \<Rightarrow> sql_row list"
  sq_run :: "string \<Rightarrow> sqlval list \<Rightarrow> 'q \<Rightarrow> int \<times> 'q"
  sq_last_id :: "'q \<Rightarrow> int"
  sq_localtime :: "int \<Rightarrow> int \<times> int \<times> int"

definition sql_load :: "'q sql_api \<Rightarrow> bool" where
  "sql_load q \<longleftrightarrow> sq_dlopen q \<and> sq_symbols q"

definition c_int :: "int \<Rightarrow> int" where
  "c_int v = sint (word_of_int v :: 32 word)"

subsection \<open>The session\<close>

datatype bbs_route = BBS_ROUTE_SELECT | BBS_ROUTE_BBS | BBS_ROUTE_PPP | BBS_ROUTE_HANGUP

datatype stage = ST_SELECT | ST_LOGIN | ST_PASSWORD | ST_NEW_NAME | ST_NEW_PASSWORD
  | ST_TERM_QUERY | ST_TERM_ASK | ST_MAIN | ST_TERM_MENU | ST_TERM_ANSI
  | ST_TERM_SIZE | ST_TERM_CHARSET | ST_DOORS | ST_DOOR

record bbs_connection_meta =
  bm_protocol :: "string option"
  bm_tx_bps :: int
  bm_rx_bps :: int
  bm_connected :: int
  bm_connected_at :: int
  bm_carrier_state :: int
  bm_audio_codec :: "string option"
  bm_sample_rate :: int
  bm_packet_time_ms :: int
  bm_packets_rx :: int
  bm_packets_tx :: int
  bm_packets_lost :: int
  bm_jitter_ms :: rat

record 'q bbs_session =
  bs_write_fn :: bool
  bs_out :: "string list"
  bs_meta :: bbs_connection_meta
  bs_protocol :: string
  bs_codec :: string
  bs_route :: bbs_route
  bs_stage :: stage
  bs_line :: string
  bs_query_ms :: u32
  bs_query :: string
  bs_ppp :: string
  bs_so :: bool
  bs_db :: "'q option"
  bs_user_id :: int
  bs_security :: int
  bs_handle :: string
  bs_pending_name :: string
  bs_ansi :: int
  bs_color :: int
  bs_columns :: int
  bs_rows :: int
  bs_cp437 :: int
  bs_connection_id :: int
  bs_ctx :: "'q option door_context"
  bs_door :: "door option"

definition ESC :: char where "ESC = CHR 0x1B"

definition outn :: "string \<Rightarrow> 'q bbs_session \<Rightarrow> 'q bbs_session" where
  "outn p s = (if bs_write_fn s \<and> p \<noteq> [] then s\<lparr>bs_out := bs_out s @ [p]\<rparr> else s)"

definition out :: "string \<Rightarrow> 'q bbs_session \<Rightarrow> 'q bbs_session" where
  "out p s = outn (cstr p) s"

subsection \<open>Statements\<close>

definition sql_schema :: string where
  "sql_schema = ''PRAGMA journal_mode=WAL;''
     @ ''CREATE TABLE IF NOT EXISTS users(''
     @ ''id INTEGER PRIMARY KEY,handle TEXT UNIQUE COLLATE NOCASE,password_hash TEXT NOT NULL,''
     @ ''security INTEGER NOT NULL DEFAULT 10,terminal_type TEXT,ansi INTEGER,color INTEGER,''
     @ ''columns INTEGER,rows INTEGER,cp437 INTEGER,created_at INTEGER NOT NULL);''
     @ ''CREATE TABLE IF NOT EXISTS connections(''
     @ ''id INTEGER PRIMARY KEY,user_id INTEGER,started_at INTEGER NOT NULL,ended_at INTEGER,''
     @ ''protocol TEXT,tx_bps INTEGER,rx_bps INTEGER,audio_codec TEXT,packets_rx INTEGER,''
     @ ''packets_tx INTEGER,packets_lost INTEGER,average_jitter_ms REAL,duration_seconds INTEGER,''
     @ ''terminal_type TEXT,ansi_enabled INTEGER);''
     @ ''CREATE TABLE IF NOT EXISTS game_state(''
     @ ''user_id INTEGER NOT NULL,game TEXT NOT NULL,key TEXT NOT NULL,value INTEGER NOT NULL,''
     @ ''PRIMARY KEY(user_id,game,key));''"

definition sql_update_terminal :: string where
  "sql_update_terminal = ''UPDATE users SET terminal_type=?,ansi=?,color=?,columns=?,rows=?,cp437=? WHERE id=?''"

definition sql_insert_connection :: string where
  "sql_insert_connection = ''INSERT INTO connections(user_id,started_at,protocol,tx_bps,rx_bps,audio_codec,packets_rx,packets_tx,packets_lost,average_jitter_ms,terminal_type,ansi_enabled) VALUES(?,?,?,?,?,?,?,?,?,?,?,?)''"

definition sql_select_user :: string where
  "sql_select_user = ''SELECT id,password_hash,security,ansi,color,columns,rows,cp437 FROM users WHERE handle=?''"

definition sql_insert_user :: string where
  "sql_insert_user = ''INSERT INTO users(handle,password_hash,created_at) VALUES(?,?,?)''"

definition sql_history :: string where
  "sql_history = ''SELECT started_at,protocol,tx_bps,rx_bps,duration_seconds FROM connections WHERE user_id=? ORDER BY started_at DESC LIMIT 10''"

definition sql_game_load :: string where
  "sql_game_load = ''SELECT value FROM game_state WHERE user_id=? AND game=? AND key=?''"

definition sql_game_save :: string where
  "sql_game_save = ''INSERT INTO game_state(user_id,game,key,value) VALUES(?,?,?,?) ON CONFLICT(user_id,game,key) DO UPDATE SET value=excluded.value''"

definition sql_close_connection :: string where
  "sql_close_connection = ''UPDATE connections SET ended_at=?,duration_seconds=?,terminal_type=?,ansi_enabled=? WHERE id=?''"

definition schema :: "'q sql_api \<Rightarrow> 'q \<Rightarrow> 'q" where
  "schema q db = sq_exec q sql_schema db"

text \<open>\<open>prepare\<close>: the database, when there is one and the statement compiles.\<close>

definition prepare :: "'q sql_api \<Rightarrow> string \<Rightarrow> 'q option \<Rightarrow> 'q option" where
  "prepare q stmt db =
     (case db of None \<Rightarrow> None | Some d \<Rightarrow> if sq_prepare q stmt d = SQLITE_OK then Some d else None)"

text \<open>Preparing, binding, one \<open>step\<close>, \<open>finalize\<close>; None when the statement does not compile.\<close>

definition run_stmt :: "'q sql_api \<Rightarrow> string \<Rightarrow> sqlval list \<Rightarrow> 'q bbs_session \<Rightarrow> (int \<times> 'q bbs_session) option" where
  "run_stmt q stmt vals s =
     (case prepare q stmt (bs_db s) of None \<Rightarrow> None
      | Some d \<Rightarrow> (let (rc, d') = sq_run q stmt vals d in Some (rc, s\<lparr>bs_db := Some d'\<rparr>)))"

definition query_rows :: "'q sql_api \<Rightarrow> string \<Rightarrow> sqlval list \<Rightarrow> 'q option \<Rightarrow> sql_row list" where
  "query_rows q stmt vals db =
     (case prepare q stmt db of None \<Rightarrow> [] | Some d \<Rightarrow> sq_rows q stmt vals d)"

definition hex016 :: "u64 \<Rightarrow> string" where
  "hex016 w = map (\<lambda>i. hex_char (unat (drop_bit (4 * (15 - i)) w) mod 16)) [0..<16]"

definition fnv_step :: "u64 \<Rightarrow> char \<Rightarrow> u64" where
  "fnv_step h ch = (h XOR of_nat (of_char ch)) * 1099511628211"

definition password_hash :: "string \<Rightarrow> string \<Rightarrow> u64" where
  "password_hash user pass =
     foldl fnv_step
       ((foldl fnv_step 1469598103934665603 (map to_lower (cstr user)) XOR 0x5a) * 1099511628211) (cstr pass)"

definition ansi_name :: "'q bbs_session \<Rightarrow> string" where
  "ansi_name s = (if bs_ansi s \<noteq> 0 then ''ANSI'' else ''ASCII'')"

definition terminal_save :: "'q sql_api \<Rightarrow> 'q bbs_session \<Rightarrow> 'q bbs_session" where
  "terminal_save q s =
     (case run_stmt q sql_update_terminal
        [SText (ansi_name s), SInt (bs_ansi s), SInt (bs_color s), SInt (bs_columns s), SInt (bs_rows s),
         SInt (bs_cp437 s), SInt (bs_user_id s)] s
      of None \<Rightarrow> s | Some (_, s') \<Rightarrow> s')"

definition record_connection :: "'q sql_api \<Rightarrow> 'q bbs_session \<Rightarrow> 'q bbs_session" where
  "record_connection q s =
     (if bs_connection_id s \<noteq> 0 \<or> bs_user_id s = 0 then s
      else (let m = bs_meta s in
        case run_stmt q sql_insert_connection
          [SInt (bs_user_id s), SInt (bm_connected_at m), SText (bs_protocol s), SInt (bm_tx_bps m), SInt (bm_rx_bps m),
           (if bs_codec s \<noteq> [] then SText (bs_codec s) else SNull),
           SInt (bm_packets_rx m), SInt (bm_packets_tx m), SInt (bm_packets_lost m),
           SInt (if bm_jitter_ms m < 0 then -1 else \<lfloor>bm_jitter_ms m * 1000\<rfloor>),
           SText (ansi_name s), SInt (bs_ansi s)] s
        of None \<Rightarrow> s
         | Some (_, s') \<Rightarrow> s'\<lparr>bs_connection_id := (case bs_db s' of None \<Rightarrow> 0 | Some d \<Rightarrow> sq_last_id q d)\<rparr>))"

subsection \<open>Screens\<close>

definition main_menu :: string where
  "main_menu = ''=========================================='' @ CRLF @ ''          SOFTMODEM BBS'' @ CRLF
     @ ''=========================================='' @ CRLF
     @ ''[D] Doors / Games'' @ CRLF @ ''[C] Dial-up Connection Speed'' @ CRLF
     @ ''[T] Terminal Settings'' @ CRLF @ ''[H] Connection History'' @ CRLF
     @ ''[P] Switch to PPP'' @ CRLF @ ''[Q] Log off'' @ CRLF @ ''Choice: ''"

definition prompt_main :: "'q bbs_session \<Rightarrow> 'q bbs_session" where
  "prompt_main s =
     (let s1 = (if bs_ansi s \<noteq> 0 then out (ESC # ''[2J'' @ ESC # ''[H'' @ ESC # ''[36m'') s else s);
          s2 = out main_menu s1;
          s3 = (if bs_ansi s \<noteq> 0 then out (ESC # ''[0m'') s2 else s2)
      in s3\<lparr>bs_stage := ST_MAIN\<rparr>)"

definition detect_text :: string where
  "detect_text = CRLF @ ''Detecting terminal...'' @ ESC # ''[6n'' @ ESC # ''[18t''"

definition begin_terminal :: "'q sql_api \<Rightarrow> 'q bbs_session \<Rightarrow> 'q bbs_session" where
  "begin_terminal q s =
     (if bs_columns s > 0 \<and> bs_rows s > 0 then prompt_main (record_connection q s)
      else out detect_text (s\<lparr>bs_stage := ST_TERM_QUERY, bs_query_ms := 0, bs_query := []\<rparr>))"

definition login_lookup :: "'q sql_api \<Rightarrow> string \<Rightarrow> string \<Rightarrow> 'q bbs_session \<Rightarrow> 'q bbs_session option" where
  "login_lookup q name pass s =
     (case query_rows q sql_select_user [SText name] (bs_db s) of
        [] \<Rightarrow> None
      | r # _ \<Rightarrow>
          if column_text r 1 = Some (hex016 (password_hash name pass))
          then Some (s\<lparr>bs_user_id := c_int (column_int64 r 0), bs_security := c_int (column_int64 r 2),
                       bs_ansi := c_int (column_int64 r 3), bs_color := c_int (column_int64 r 4),
                       bs_columns := c_int (column_int64 r 5), bs_rows := c_int (column_int64 r 6),
                       bs_cp437 := c_int (column_int64 r 7), bs_handle := snprintf 48 name\<rparr>)
          else None)"

definition register_user :: "'q sql_api \<Rightarrow> int \<Rightarrow> string \<Rightarrow> string \<Rightarrow> 'q bbs_session \<Rightarrow> 'q bbs_session \<times> bool" where
  "register_user q now name pass s =
     (if name = [] \<or> length name > 32 \<or> pass = [] then (s, False)
      else case run_stmt q sql_insert_user [SText name, SText (hex016 (password_hash name pass)), SInt now] s of
        None \<Rightarrow> (s, False)
      | Some (rc, s') \<Rightarrow>
          if rc \<noteq> SQLITE_DONE then (s', False)
          else (s'\<lparr>bs_user_id := c_int (case bs_db s' of None \<Rightarrow> 0 | Some d \<Rightarrow> sq_last_id q d),
                   bs_security := 10, bs_handle := snprintf 48 name\<rparr>, True))"

text \<open>\<open>%0wd\<close>, \<open>%-ws\<close> and \<open>%wd\<close>.\<close>

definition dec0 :: "nat \<Rightarrow> int \<Rightarrow> string" where
  "dec0 w i = (let ds = dec_nat (nat \<bar>i\<bar>); sg = (if i < 0 then ''-'' else [])
               in sg @ replicate (w - length sg - length ds) (CHR ''0'') @ ds)"

definition pad_right :: "nat \<Rightarrow> string \<Rightarrow> string" where
  "pad_right w p = p @ replicate (w - length p) (CHR '' '')"

definition pad_left :: "nat \<Rightarrow> string \<Rightarrow> string" where
  "pad_left w p = replicate (w - length p) (CHR '' '') @ p"

definition rate_text :: "int \<Rightarrow> string" where
  "rate_text bps = (if bps > 0 then [] else ''N/A'') @ dec_int (if bps > 0 then bps else 0) @ (if bps > 0 then '' bps'' else [])"

definition avail :: "bool \<Rightarrow> string" where
  "avail b = (if b then ''available'' else ''N/A'')"

definition or_na :: "string \<Rightarrow> string" where
  "or_na p = (if p \<noteq> [] then p else ''N/A'')"

definition speed_bars :: "int \<Rightarrow> nat" where
  "speed_bars rate = nat (min 24 (if rate > 0 then c_div (rate * 24 + 33599) 33600 else 0))"

definition connection_text :: "int \<Rightarrow> 'q bbs_session \<Rightarrow> string" where
  "connection_text now s =
     (let m = bs_meta s; sec = now - bm_connected_at m;
          rate = (if bm_rx_bps m > bm_tx_bps m then bm_rx_bps m else bm_tx_bps m)
      in CRLF @ ''=========================================='' @ CRLF @ ''DIAL-UP CONNECTION SPEED'' @ CRLF
         @ ''=========================================='' @ CRLF
         @ ''Modem Protocol : '' @ or_na (bs_protocol s) @ CRLF @ ''TX Speed       : '' @ rate_text (bm_tx_bps m) @ CRLF
         @ ''RX Speed       : '' @ rate_text (bm_rx_bps m) @ CRLF @ ''Direction      : Full Duplex'' @ CRLF
         @ ''Audio Codec    : '' @ or_na (bs_codec s) @ CRLF @ ''Sample Rate    : '' @ avail (bm_sample_rate m \<noteq> 0) @ CRLF
         @ ''Packet Time    : '' @ avail (bm_packet_time_ms m \<noteq> 0) @ CRLF @ ''Call Duration  : ''
         @ dec0 2 (c_div sec 3600) @ '':'' @ dec0 2 (c_mod (c_div sec 60) 60) @ '':'' @ dec0 2 (c_mod sec 60) @ CRLF
         @ ''Packets RX     : '' @ avail (bm_packets_rx m \<ge> 0) @ CRLF @ ''Packets TX     : '' @ avail (bm_packets_tx m \<ge> 0) @ CRLF
         @ ''Packets Lost   : '' @ avail (bm_packets_lost m \<ge> 0) @ CRLF @ ''Jitter         : '' @ avail (bm_jitter_ms m \<ge> 0) @ CRLF @ CRLF
         @ ''['' @ replicate (speed_bars rate) (CHR ''#'') @ replicate (24 - speed_bars rate) (CHR ''-'') @ ''] ''
         @ dec_int rate @ '' bps'' @ CRLF @ CRLF @ ''[Q] Return: '')"

definition connection_screen :: "int \<Rightarrow> 'q bbs_session \<Rightarrow> 'q bbs_session" where
  "connection_screen now s = out (snprintf 1024 (connection_text now s)) s"

definition history_line :: "'q sql_api \<Rightarrow> sql_row \<Rightarrow> string" where
  "history_line q r =
     (let (y, mo, d) = sq_localtime q (column_int64 r 0)
      in snprintf 256 (dec0 4 y @ ''-'' @ dec0 2 mo @ ''-'' @ dec0 2 d @ ''   ''
           @ pad_right 8 (case column_text r 1 of None \<Rightarrow> ''N/A'' | Some p \<Rightarrow> p) @ '' ''
           @ pad_left 7 (dec_int (column_int64 r 2)) @ ''  '' @ pad_left 7 (dec_int (column_int64 r 3)) @ ''  ''
           @ dec_int (c_div (column_int64 r 4) 60) @ ''m'' @ CRLF))"

definition history :: "'q sql_api \<Rightarrow> 'q bbs_session \<Rightarrow> 'q bbs_session" where
  "history q s =
     out ''Press ENTER: ''
       (foldl (\<lambda>s r. out (history_line q r) s)
         (out (CRLF @ ''Date         Protocol   TX       RX       Time'' @ CRLF) s)
         (query_rows q sql_history [SInt (bs_user_id s)] (bs_db s)))"

definition terminal_text :: "'q bbs_session \<Rightarrow> string" where
  "terminal_text s = snprintf 180
     (CRLF @ ''Columns       : '' @ dec_int (bs_columns s) @ CRLF @ ''Rows          : '' @ dec_int (bs_rows s) @ CRLF
      @ ''Character Set : '' @ (if bs_cp437 s \<noteq> 0 then ''CP437'' else ''UTF-8/ASCII'') @ CRLF
      @ ''[A] ANSI / ASCII  [S] Screen Size  [C] Character Set  [T] Test ANSI  [Q] Return: '')"

subsection \<open>Doors\<close>

definition game_load :: "'q sql_api \<Rightarrow> int \<Rightarrow> string \<Rightarrow> string \<Rightarrow> int \<Rightarrow> 'q option \<Rightarrow> int" where
  "game_load q uid game key fallback db =
     (case query_rows q sql_game_load [SInt uid, SText game, SText key] db of [] \<Rightarrow> fallback | r # _ \<Rightarrow> column_int64 r 0)"

definition game_save :: "'q sql_api \<Rightarrow> int \<Rightarrow> string \<Rightarrow> string \<Rightarrow> int \<Rightarrow> 'q option \<Rightarrow> 'q option" where
  "game_save q uid game key v db =
     (case prepare q sql_game_save db of None \<Rightarrow> db
      | Some d \<Rightarrow> Some (snd (sq_run q sql_game_save [SInt uid, SText game, SText key, SInt v] d)))"

definition bbs_host :: "'q sql_api \<Rightarrow> 'q bbs_session \<Rightarrow> 'q option door_host" where
  "bbs_host q s = \<lparr>dh_load = game_load q (bs_user_id s), dh_save = game_save q (bs_user_id s)\<rparr>"

text \<open>\<open>door_write\<close> is \<open>out\<close>: what a game wrote goes out in its order.\<close>

definition door_flush :: "'q bbs_session \<Rightarrow> 'q bbs_session" where
  "door_flush s = (foldl (\<lambda>s p. out p s) s (dc_out (bs_ctx s)))\<lparr>bs_ctx := (bs_ctx s)\<lparr>dc_out := []\<rparr>\<rparr>"

definition show_doors :: "'q bbs_session \<Rightarrow> 'q bbs_session" where
  "show_doors s = door_flush (s\<lparr>bs_ctx := door_show_menu (bs_ctx s)\<rparr>)"

definition door_return :: "'q bbs_session \<Rightarrow> 'q bbs_session" where
  "door_return s = show_doors (s\<lparr>bs_door := None, bs_stage := ST_DOORS\<rparr>)"

text \<open>A call into a game with the session's database behind the storage callbacks; \<open>return_to_menu\<close> is the
  last thing a game does.\<close>

definition run_door :: "int \<Rightarrow> ('q option door_context \<Rightarrow> 'q option door_context) \<Rightarrow> 'q bbs_session \<Rightarrow> 'q bbs_session" where
  "run_door now f s =
     (let c = f ((bs_ctx s)\<lparr>dc_store := bs_db s, dc_out := [], dc_left := False, dc_now := now\<rparr>);
          s1 = door_flush (s\<lparr>bs_ctx := c, bs_db := dc_store c\<rparr>)
      in if dc_left c then door_return s1 else s1)"

definition open_doors :: "int \<Rightarrow> 'q bbs_session \<Rightarrow> 'q bbs_session" where
  "open_doors now s =
     show_doors (s\<lparr>bs_ctx := (new_context (bs_db s))\<lparr>dc_protocol := bs_protocol s, dc_tx_bps := bm_tx_bps (bs_meta s),
                     dc_rx_bps := bm_rx_bps (bs_meta s), dc_rng := word_of_int now XOR word_of_int (bs_user_id s)\<rparr>,
                   bs_stage := ST_DOORS\<rparr>)"

subsection \<open>\<open>sscanf\<close>\<close>

text \<open>One \<open>%d\<close>: the value as \<open>int\<close> and the input left; None when there is no number.\<close>

definition scan_int :: "string \<Rightarrow> (int \<times> string) option" where
  "scan_int p = (let rest = snd (strtol10 p) in if rest = p then None else Some (atoi p, rest))"

definition scan_char :: "char \<Rightarrow> string \<Rightarrow> string option" where
  "scan_char ch p = (case p of [] \<Rightarrow> None | x # xs \<Rightarrow> if x = ch then Some xs else None)"

text \<open>\<open>sscanf (p, "<pre>%d<sep>%d", &a, &b) == 2\<close>; a blank separator matches any white space.\<close>

definition scan_two :: "string \<Rightarrow> char \<Rightarrow> string \<Rightarrow> (int \<times> int) option" where
  "scan_two pre sep p =
     (if \<not> starts_with pre p then None
      else case scan_int (drop (length pre) p) of None \<Rightarrow> None
        | Some (a, r) \<Rightarrow>
            (case (if sep = CHR '' '' then Some r else scan_char sep r) of None \<Rightarrow> None
             | Some r' \<Rightarrow> (case scan_int r' of None \<Rightarrow> None | Some (b, _) \<Rightarrow> Some (a, b))))"

subsection \<open>The menus\<close>

definition answer_ansi :: "'q sql_api \<Rightarrow> string \<Rightarrow> 'q bbs_session \<Rightarrow> 'q bbs_session" where
  "answer_ansi q line s =
     (let a = (if is_key CHR ''y'' line \<or> strcasecmp_eq line ''ANSI'' then 1 else 0)
      in prompt_main (record_connection q (terminal_save q
           (s\<lparr>bs_ansi := a, bs_color := a, bs_columns := 80, bs_rows := 24\<rparr>))))"

definition main_choice :: "'q sql_api \<Rightarrow> int \<Rightarrow> string \<Rightarrow> 'q bbs_session \<Rightarrow> 'q bbs_session" where
  "main_choice q now line s =
     (if is_key CHR ''d'' line then open_doors now s
      else if is_key CHR ''c'' line then connection_screen now s
      else if is_key CHR ''t'' line
      then out (terminal_text s)
             (out (if bs_color s \<noteq> 0 then ''Yes'' else ''No'')
               (out (CRLF @ ''Color         : '')
                 (out (ansi_name s) (out (CRLF @ ''Terminal Mode : '') (s\<lparr>bs_stage := ST_TERM_MENU\<rparr>)))))
      else if is_key CHR ''h'' line then history q s
      else if is_key CHR ''p'' line then out (CRLF @ ''Entering PPP mode.'' @ CRLF) (s\<lparr>bs_route := BBS_ROUTE_PPP\<rparr>)
      else if is_key CHR ''q'' line then out (CRLF @ ''Goodbye.'' @ CRLF) (s\<lparr>bs_route := BBS_ROUTE_HANGUP\<rparr>)
      else prompt_main s)"

definition terminal_choice :: "string \<Rightarrow> 'q bbs_session \<Rightarrow> 'q bbs_session" where
  "terminal_choice line s =
     (if is_key CHR ''a'' line then out ''ANSI support? (Y/N): '' (s\<lparr>bs_stage := ST_TERM_ANSI\<rparr>)
      else if is_key CHR ''s'' line then out ''Columns Rows (example 80 24): '' (s\<lparr>bs_stage := ST_TERM_SIZE\<rparr>)
      else if is_key CHR ''c'' line then out ''Character set [C]P437 or [A]SCII: '' (s\<lparr>bs_stage := ST_TERM_CHARSET\<rparr>)
      else if is_key CHR ''t'' line
      then prompt_main (out (ESC # ''[31mRED '' @ ESC # ''[32mGREEN '' @ ESC # ''[34mBLUE'' @ ESC # ''[0m'' @ CRLF
                               @ ''ANSI test complete.'' @ CRLF) s)
      else prompt_main s)"

definition terminal_size :: "'q sql_api \<Rightarrow> string \<Rightarrow> 'q bbs_session \<Rightarrow> 'q bbs_session" where
  "terminal_size q line s =
     prompt_main (case scan_two [] (CHR '' '') line of None \<Rightarrow> s
       | Some (c, r) \<Rightarrow>
           if 20 \<le> c \<and> c \<le> 300 \<and> 10 \<le> r \<and> r \<le> 120
           then terminal_save q (s\<lparr>bs_columns := c, bs_rows := r\<rparr>) else s)"

definition doors_choice :: "'q sql_api \<Rightarrow> int \<Rightarrow> string \<Rightarrow> 'q bbs_session \<Rightarrow> 'q bbs_session" where
  "doors_choice q now line s =
     (if is_key CHR ''q'' line then prompt_main s
      else case door_find line of
        None \<Rightarrow> show_doors (s\<lparr>bs_door := None\<rparr>)
      | Some d \<Rightarrow> run_door now (door_open (bbs_host q s) d) (s\<lparr>bs_door := Some d, bs_stage := ST_DOOR\<rparr>))"

text \<open>The states before a user is known.\<close>

definition select_line :: "string \<Rightarrow> 'q bbs_session \<Rightarrow> 'q bbs_session" where
  "select_line line s =
     (if strcasecmp_eq line ''BBS''
      then out (CRLF @ ''Login (or NEW): '') (s\<lparr>bs_ppp := [], bs_route := BBS_ROUTE_BBS, bs_stage := ST_LOGIN\<rparr>)
      else s\<lparr>bs_ppp := [], bs_route := BBS_ROUTE_PPP\<rparr>)"

definition login_line :: "string \<Rightarrow> 'q bbs_session \<Rightarrow> 'q bbs_session" where
  "login_line line s =
     (if strcasecmp_eq line ''NEW'' then out ''Choose handle: '' (s\<lparr>bs_stage := ST_NEW_NAME\<rparr>)
      else out ''Password: '' (s\<lparr>bs_pending_name := take 47 line, bs_stage := ST_PASSWORD\<rparr>))"

definition password_line :: "'q sql_api \<Rightarrow> string \<Rightarrow> 'q bbs_session \<Rightarrow> 'q bbs_session" where
  "password_line q line s =
     (case login_lookup q (bs_pending_name s) line s of
        Some s' \<Rightarrow> begin_terminal q (out (''.'' @ CRLF) (out (bs_handle s') (out (CRLF @ ''Welcome back, '') s')))
      | None \<Rightarrow> out (CRLF @ ''Login incorrect. Login (or NEW): '') (s\<lparr>bs_stage := ST_LOGIN\<rparr>))"

definition new_password_line :: "'q sql_api \<Rightarrow> int \<Rightarrow> string \<Rightarrow> 'q bbs_session \<Rightarrow> 'q bbs_session" where
  "new_password_line q now line s =
     (let (s', ok) = register_user q now (bs_pending_name s) line s
      in if ok then begin_terminal q (out (CRLF @ ''Account created.'' @ CRLF) s')
         else out (CRLF @ ''That handle is unavailable. Login (or NEW): '') (s'\<lparr>bs_stage := ST_LOGIN\<rparr>))"

definition handle_line :: "'q sql_api \<Rightarrow> int \<Rightarrow> string \<Rightarrow> 'q bbs_session \<Rightarrow> 'q bbs_session" where
  "handle_line q now buf s =
     (let line = dropWhile is_space buf in
      case bs_stage s of
        ST_SELECT \<Rightarrow> select_line line s
      | ST_LOGIN \<Rightarrow> login_line line s
      | ST_PASSWORD \<Rightarrow> password_line q line s
      | ST_NEW_NAME \<Rightarrow> out ''Choose password: '' (s\<lparr>bs_pending_name := take 47 line, bs_stage := ST_NEW_PASSWORD\<rparr>)
      | ST_NEW_PASSWORD \<Rightarrow> new_password_line q now line s
      | ST_TERM_ASK \<Rightarrow> answer_ansi q line s
      | ST_TERM_ANSI \<Rightarrow> answer_ansi q line s
      | ST_MAIN \<Rightarrow> main_choice q now line s
      | ST_TERM_MENU \<Rightarrow> terminal_choice line s
      | ST_TERM_SIZE \<Rightarrow> terminal_size q line s
      | ST_TERM_CHARSET \<Rightarrow>
          prompt_main (terminal_save q (s\<lparr>bs_cp437 := (if is_key CHR ''c'' line then 1 else 0)\<rparr>))
      | ST_DOORS \<Rightarrow> doors_choice q now line s
      | ST_DOOR \<Rightarrow> (case bs_door s of None \<Rightarrow> s | Some d \<Rightarrow> run_door now (door_input (bbs_host q s) d line) s)
      | ST_TERM_QUERY \<Rightarrow> prompt_main s)"

subsection \<open>Life of a session\<close>

definition opt_str :: "string option \<Rightarrow> string" where
  "opt_str p = (case p of None \<Rightarrow> [] | Some v \<Rightarrow> v)"

definition bbs_session_create ::
  "'q sql_api \<Rightarrow> int \<Rightarrow> string option \<Rightarrow> bbs_connection_meta \<Rightarrow> bool \<Rightarrow> 'q bbs_session" where
  "bbs_session_create q now path m fn =
     (let (db, rc) = (if sql_load q then sq_open q (if opt_str path \<noteq> [] then opt_str path else ''bbs.db'') else (None, -1));
          ready = (case db of Some d \<Rightarrow> Some (if rc = SQLITE_OK then schema q d else d) | None \<Rightarrow> None)
      in \<lparr>bs_write_fn = fn, bs_out = [],
          bs_meta = m\<lparr>bm_connected_at := (if bm_connected_at m \<noteq> 0 then bm_connected_at m else now)\<rparr>,
          bs_protocol = snprintf 32 (opt_str (bm_protocol m)), bs_codec = snprintf 32 (opt_str (bm_audio_codec m)),
          bs_route = BBS_ROUTE_SELECT, bs_stage = ST_SELECT, bs_line = [], bs_query_ms = 0, bs_query = [], bs_ppp = [],
          bs_so = sq_dlopen q, bs_db = ready, bs_user_id = 0, bs_security = 0, bs_handle = [], bs_pending_name = [],
          bs_ansi = 0, bs_color = 0, bs_columns = 0, bs_rows = 0, bs_cp437 = 0, bs_connection_id = 0,
          bs_ctx = new_context None, bs_door = None\<rparr>)"

definition start_text :: string where
  "start_text = CRLF @ ''Softmodem connected.'' @ CRLF @ ''If you are here for the BBS, type BBS.'' @ CRLF
     @ ''Otherwise type your PPP service name (for example dialup.world),'' @ CRLF @ ''or start PPP directly.'' @ CRLF
     @ ''Selection: ''"

definition bbs_session_start :: "'q bbs_session \<Rightarrow> 'q bbs_session" where
  "bbs_session_start s = out start_text s"

definition ppp_frame_a :: string where
  "ppp_frame_a = [CHR 0x7E, CHR 0xFF, CHR 0x03, CHR 0xC0, CHR 0x21]"

definition ppp_frame_b :: string where
  "ppp_frame_b = [CHR 0x7E, CHR 0xFF, CHR 0x7D, CHR 0x23, CHR 0xC0, CHR 0x21]"

definition ppp_prefix :: "string \<Rightarrow> bool" where
  "ppp_prefix p \<longleftrightarrow> starts_with ppp_frame_a p \<or> starts_with ppp_frame_b p"

definition PPP_MAX :: nat where "PPP_MAX = 1024"
definition LINE_MAX :: nat where "LINE_MAX = 160"
definition QUERY_MAX :: nat where "QUERY_MAX = 96"

definition is_eol :: "char \<Rightarrow> bool" where
  "is_eol ch \<longleftrightarrow> ch = CHR 0x0D \<or> ch = CHR 0x0A"

definition is_rubout :: "char \<Rightarrow> bool" where
  "is_rubout ch \<longleftrightarrow> ch = CHR 0x08 \<or> ch = CHR 0x7F"

definition is_printable :: "char \<Rightarrow> bool" where
  "is_printable ch \<longleftrightarrow> (let n = of_char ch :: nat in 32 \<le> n \<and> n < 127)"

definition hidden :: "stage \<Rightarrow> bool" where
  "hidden st \<longleftrightarrow> st = ST_PASSWORD \<or> st = ST_NEW_PASSWORD"

definition feed_char :: "'q sql_api \<Rightarrow> int \<Rightarrow> char \<Rightarrow> 'q bbs_session \<Rightarrow> 'q bbs_session" where
  "feed_char q now ch s =
     (if bs_stage s = ST_TERM_QUERY
      then (if length (bs_query s) < QUERY_MAX - 1 then s\<lparr>bs_query := bs_query s @ [ch]\<rparr> else s)
      else if is_eol ch
      then (if bs_line s \<noteq> [] then (handle_line q now (bs_line s) s)\<lparr>bs_line := []\<rparr> else s)
      else if is_rubout ch \<and> bs_line s \<noteq> []
      then out [CHR 0x08, CHR '' '', CHR 0x08] (s\<lparr>bs_line := butlast (bs_line s)\<rparr>)
      else if is_printable ch \<and> length (bs_line s) < LINE_MAX - 1
      then (let s1 = s\<lparr>bs_line := bs_line s @ [ch]\<rparr> in if hidden (bs_stage s) then s1 else outn [ch] s1)
      else s)"

definition keep_early :: "string \<Rightarrow> 'q bbs_session \<Rightarrow> 'q bbs_session" where
  "keep_early d s =
     (if bs_stage s = ST_SELECT \<and> d \<noteq> []
      then (let s1 = s\<lparr>bs_ppp := bs_ppp s @ take (PPP_MAX - length (bs_ppp s)) d\<rparr>
            in if ppp_prefix (bs_ppp s1) then s1\<lparr>bs_route := BBS_ROUTE_PPP\<rparr> else s1)
      else s)"

definition bbs_session_feed :: "'q sql_api \<Rightarrow> int \<Rightarrow> string \<Rightarrow> 'q bbs_session \<Rightarrow> 'q bbs_session" where
  "bbs_session_feed q now d s =
     (if bs_route s = BBS_ROUTE_PPP \<or> bs_route s = BBS_ROUTE_HANGUP then s
      else (let s1 = keep_early d s
            in if bs_route s1 = BBS_ROUTE_PPP then s1 else foldl (\<lambda>s ch. feed_char q now ch s) s1 d))"

definition scan_reply :: "'q bbs_session \<Rightarrow> 'q bbs_session" where
  "scan_reply s =
     (let qt = cstr (bs_query s);
          s1 = (case strstr qt (ESC # ''['') of None \<Rightarrow> s
                | Some p \<Rightarrow> (case scan_two (ESC # ''['') (CHR '';'') p of None \<Rightarrow> s
                   | Some (row, col) \<Rightarrow> if row > 0 \<and> col > 0 then s\<lparr>bs_ansi := 1, bs_color := 1\<rparr> else s))
      in case strstr qt (ESC # ''[8;'') of None \<Rightarrow> s1
         | Some p \<Rightarrow> (case scan_two (ESC # ''[8;'') (CHR '';'') p of None \<Rightarrow> s1
            | Some (row, col) \<Rightarrow> s1\<lparr>bs_rows := row, bs_columns := col, bs_ansi := 1, bs_color := 1\<rparr>))"

definition bbs_session_tick :: "'q sql_api \<Rightarrow> u32 \<Rightarrow> 'q bbs_session \<Rightarrow> 'q bbs_session" where
  "bbs_session_tick q ms s =
     (if bs_stage s \<noteq> ST_TERM_QUERY then s
      else (let s1 = scan_reply (s\<lparr>bs_query_ms := bs_query_ms s + ms\<rparr>)
            in if bs_query_ms s1 < 1500 then s1
               else (let s2 = s1\<lparr>bs_columns := (if bs_columns s1 = 0 then 80 else bs_columns s1),
                                 bs_rows := (if bs_rows s1 = 0 then 24 else bs_rows s1)\<rparr>
                     in if bs_ansi s2 \<noteq> 0
                        then prompt_main (record_connection q (terminal_save q
                               (out (CRLF @ ''Terminal detected: ANSI'' @ CRLF) s2)))
                        else out (CRLF @ ''Terminal detected: Unknown'' @ CRLF @ ''Does your terminal support ANSI? (Y/N): '')
                               (s2\<lparr>bs_stage := ST_TERM_ASK\<rparr>))))"

text \<open>Without a session the answer is PPP.\<close>

definition bbs_session_route :: "'q bbs_session option \<Rightarrow> bbs_route" where
  "bbs_session_route so = (case so of None \<Rightarrow> BBS_ROUTE_PPP | Some s \<Rightarrow> bs_route s)"

definition bbs_session_take_ppp :: "nat \<Rightarrow> 'q bbs_session \<Rightarrow> string \<times> 'q bbs_session" where
  "bbs_session_take_ppp cap s =
     (let n = min (length (bs_ppp s)) cap in (take n (bs_ppp s), s\<lparr>bs_ppp := drop n (bs_ppp s)\<rparr>))"

text \<open>What \<open>bbs_session_destroy\<close> leaves: the database as it is closed, and whether the library was unloaded.\<close>

definition bbs_session_destroy :: "'q sql_api \<Rightarrow> int \<Rightarrow> 'q bbs_session option \<Rightarrow> 'q option \<times> bool" where
  "bbs_session_destroy q now so =
     (case so of None \<Rightarrow> (None, False)
      | Some s \<Rightarrow>
         (let s1 = (if bs_db s \<noteq> None \<and> bs_connection_id s \<noteq> 0
                    then (case run_stmt q sql_close_connection
                            [SInt now, SInt (now - bm_connected_at (bs_meta s)), SText (ansi_name s), SInt (bs_ansi s),
                             SInt (bs_connection_id s)] s
                          of None \<Rightarrow> s | Some (_, s') \<Rightarrow> s')
                    else s)
          in (bs_db s1, bs_so s1)))"

subsection \<open>What the operations leave alone\<close>

lemma out_simps [simp]:
  "bs_write_fn (out p s) = bs_write_fn s" "bs_meta (out p s) = bs_meta s" "bs_protocol (out p s) = bs_protocol s"
  "bs_codec (out p s) = bs_codec s" "bs_route (out p s) = bs_route s" "bs_stage (out p s) = bs_stage s"
  "bs_line (out p s) = bs_line s" "bs_query (out p s) = bs_query s" "bs_ppp (out p s) = bs_ppp s" "bs_db (out p s) = bs_db s"
  "bs_user_id (out p s) = bs_user_id s" "bs_handle (out p s) = bs_handle s" "bs_pending_name (out p s) = bs_pending_name s"
  "bs_columns (out p s) = bs_columns s" "bs_rows (out p s) = bs_rows s" "bs_ansi (out p s) = bs_ansi s"
  "bs_connection_id (out p s) = bs_connection_id s" "bs_ctx (out p s) = bs_ctx s" "bs_door (out p s) = bs_door s"
  by (simp_all add: out_def outn_def)

lemma prompt_main_simps [simp]:
  "bs_stage (prompt_main s) = ST_MAIN" "bs_protocol (prompt_main s) = bs_protocol s" "bs_codec (prompt_main s) = bs_codec s"
  "bs_route (prompt_main s) = bs_route s" "bs_line (prompt_main s) = bs_line s" "bs_query (prompt_main s) = bs_query s"
  "bs_ppp (prompt_main s) = bs_ppp s" "bs_user_id (prompt_main s) = bs_user_id s" "bs_handle (prompt_main s) = bs_handle s"
  "bs_pending_name (prompt_main s) = bs_pending_name s" "bs_connection_id (prompt_main s) = bs_connection_id s"
  "bs_ctx (prompt_main s) = bs_ctx s" "bs_door (prompt_main s) = bs_door s" "bs_db (prompt_main s) = bs_db s"
  by (simp_all add: prompt_main_def Let_def)

lemma run_stmt_only_db: "run_stmt q stmt vals s = Some (rc, s') \<Longrightarrow> \<exists>d. s' = s\<lparr>bs_db := Some d\<rparr>"
  by (auto simp: run_stmt_def split: option.splits prod.splits)

lemma run_stmt_only_db_upd:
  "run_stmt q stmt vals s = Some (rc, s') \<Longrightarrow> \<exists>d. s'\<lparr>bs_connection_id := k\<rparr> = s\<lparr>bs_db := Some d, bs_connection_id := k\<rparr>"
  by (auto dest!: run_stmt_only_db)

lemma terminal_save_only_db: "\<exists>db. terminal_save q s = s\<lparr>bs_db := db\<rparr>"
  by (auto simp: terminal_save_def split: option.split dest!: run_stmt_only_db intro: exI [of _ "bs_db s"])

lemma record_connection_only_db:
  "\<exists>db k. record_connection q s = s\<lparr>bs_db := db, bs_connection_id := k\<rparr> \<and> (bs_user_id s = 0 \<longrightarrow> k = bs_connection_id s)"
proof -
  have id: "\<exists>db k. s = s\<lparr>bs_db := db, bs_connection_id := k\<rparr> \<and> (bs_user_id s = 0 \<longrightarrow> k = bs_connection_id s)"
    by (rule exI [of _ "bs_db s"], rule exI [of _ "bs_connection_id s"]) simp
  show ?thesis
  proof (cases "bs_connection_id s \<noteq> 0 \<or> bs_user_id s = 0")
    case True
    with id show ?thesis by (simp add: record_connection_def)
  next
    case u: False
    let ?r = "record_connection q s"
    have "?r = s \<or> (\<exists>d k. ?r = s\<lparr>bs_db := Some d, bs_connection_id := k\<rparr>)"
      using u unfolding record_connection_def Let_def
      by (simp split: option.split prod.split) (blast dest: run_stmt_only_db_upd)
    with id u show ?thesis by metis
  qed
qed

lemma foldl_out_simps [simp]:
  "bs_stage (foldl (\<lambda>s x. out (f x) s) s xs) = bs_stage s" "bs_route (foldl (\<lambda>s x. out (f x) s) s xs) = bs_route s"
  "bs_protocol (foldl (\<lambda>s x. out (f x) s) s xs) = bs_protocol s" "bs_codec (foldl (\<lambda>s x. out (f x) s) s xs) = bs_codec s"
  "bs_line (foldl (\<lambda>s x. out (f x) s) s xs) = bs_line s" "bs_query (foldl (\<lambda>s x. out (f x) s) s xs) = bs_query s"
  "bs_ppp (foldl (\<lambda>s x. out (f x) s) s xs) = bs_ppp s" "bs_handle (foldl (\<lambda>s x. out (f x) s) s xs) = bs_handle s"
  "bs_pending_name (foldl (\<lambda>s x. out (f x) s) s xs) = bs_pending_name s" "bs_door (foldl (\<lambda>s x. out (f x) s) s xs) = bs_door s"
  "bs_user_id (foldl (\<lambda>s x. out (f x) s) s xs) = bs_user_id s" "bs_ctx (foldl (\<lambda>s x. out (f x) s) s xs) = bs_ctx s"
  "bs_connection_id (foldl (\<lambda>s x. out (f x) s) s xs) = bs_connection_id s"
  by (induction xs arbitrary: s) simp_all

lemma door_flush_simps [simp]:
  "bs_stage (door_flush s) = bs_stage s" "bs_route (door_flush s) = bs_route s" "bs_protocol (door_flush s) = bs_protocol s"
  "bs_codec (door_flush s) = bs_codec s" "bs_line (door_flush s) = bs_line s" "bs_query (door_flush s) = bs_query s"
  "bs_ppp (door_flush s) = bs_ppp s" "bs_handle (door_flush s) = bs_handle s" "bs_user_id (door_flush s) = bs_user_id s"
  "bs_pending_name (door_flush s) = bs_pending_name s" "bs_door (door_flush s) = bs_door s"
  "bs_connection_id (door_flush s) = bs_connection_id s" "bs_ctx (door_flush s) = (bs_ctx s)\<lparr>dc_out := []\<rparr>"
  by (simp_all add: door_flush_def foldl_out_simps [where f = "\<lambda>x. x"])

subsection \<open>Invariant\<close>

definition authed :: "stage \<Rightarrow> bool" where
  "authed st \<longleftrightarrow> st \<notin> {ST_SELECT, ST_LOGIN, ST_PASSWORD, ST_NEW_NAME, ST_NEW_PASSWORD}"

text \<open>The text buffers keep room for their NUL.\<close>

definition bufs_ok :: "'q bbs_session \<Rightarrow> bool" where
  "bufs_ok s \<longleftrightarrow> length (bs_line s) < LINE_MAX \<and> length (bs_query s) < QUERY_MAX \<and> length (bs_ppp s) \<le> PPP_MAX
     \<and> length (bs_handle s) < 48 \<and> length (bs_pending_name s) < 48 \<and> length (bs_protocol s) < 32 \<and> length (bs_codec s) < 32"

definition game_ok :: "'q bbs_session \<Rightarrow> bool" where
  "game_ok s \<longleftrightarrow> (bs_door s = Some Hangman \<longrightarrow> hangman_ok (bs_ctx s)) \<and> (bs_door s = Some Blackjack \<longrightarrow> blackjack_ok (bs_ctx s))"

definition stage_ok :: "'q bbs_session \<Rightarrow> bool" where
  "stage_ok s \<longleftrightarrow> (bs_door s \<noteq> None \<longleftrightarrow> bs_stage s = ST_DOOR)
     \<and> (bs_stage s = ST_SELECT \<longrightarrow> bs_route s = BBS_ROUTE_SELECT \<or> bs_route s = BBS_ROUTE_PPP)
     \<and> (bs_route s = BBS_ROUTE_SELECT \<longrightarrow> bs_stage s = ST_SELECT)
     \<and> (bs_connection_id s \<noteq> 0 \<longrightarrow> authed (bs_stage s))"

definition bbs_inv :: "'q bbs_session \<Rightarrow> bool" where
  "bbs_inv s \<longleftrightarrow> bufs_ok s \<and> game_ok s \<and> stage_ok s"

lemmas bbs_inv_defs = bbs_inv_def bufs_ok_def game_ok_def stage_ok_def authed_def

lemma ctx_update_ok [simp]:
  "hangman_ok (c\<lparr>dc_out := x\<rparr>) = hangman_ok c" "blackjack_ok (c\<lparr>dc_out := x\<rparr>) = blackjack_ok c"
  "hangman_ok (c\<lparr>dc_store := y, dc_out := x, dc_left := b, dc_now := n\<rparr>) = hangman_ok c"
  "blackjack_ok (c\<lparr>dc_store := y, dc_out := x, dc_left := b, dc_now := n\<rparr>) = blackjack_ok c"
  by (simp_all add: hangman_ok_def blackjack_ok_def)

lemma show_doors_inv: "bufs_ok (show_doors s) = bufs_ok s" "stage_ok (show_doors s) = stage_ok s"
  "bs_door (show_doors s) = bs_door s" "bs_stage (show_doors s) = bs_stage s" "bs_route (show_doors s) = bs_route s"
  by (simp_all add: show_doors_def bufs_ok_def stage_ok_def)

lemma open_doors_inv: "bbs_inv s \<Longrightarrow> bs_stage s = ST_MAIN \<Longrightarrow> bbs_inv (open_doors now s)"
  by (simp add: open_doors_def bbs_inv_def show_doors_inv game_ok_def) (simp add: bufs_ok_def stage_ok_def authed_def)

lemma run_door_inv:
  assumes i: "bufs_ok s" "stage_ok s" and d: "bs_door s = Some d"
    and ok: "\<And>c. c = f ((bs_ctx s)\<lparr>dc_store := bs_db s, dc_out := [], dc_left := False, dc_now := now\<rparr>)
               \<Longrightarrow> (d = Hangman \<longrightarrow> hangman_ok c) \<and> (d = Blackjack \<longrightarrow> blackjack_ok c)"
  shows "bbs_inv (run_door now f s)"
proof -
  let ?c = "f ((bs_ctx s)\<lparr>dc_store := bs_db s, dc_out := [], dc_left := False, dc_now := now\<rparr>)"
  let ?s = "door_flush (s\<lparr>bs_ctx := ?c, bs_db := dc_store ?c\<rparr>)"
  have st: "bs_stage s = ST_DOOR" using i d by (simp add: stage_ok_def)
  have "bbs_inv ?s" using i d st ok [OF refl] by (auto simp: bbs_inv_def bufs_ok_def stage_ok_def game_ok_def authed_def)
  moreover have "bbs_inv (door_return ?s)"
    using i st by (simp add: door_return_def bbs_inv_def show_doors_inv game_ok_def) (auto simp: bufs_ok_def stage_ok_def authed_def)
  ultimately show ?thesis by (simp add: run_door_def Let_def)
qed

lemma terminal_save_simps [simp]:
  "bs_stage (terminal_save q s) = bs_stage s" "bs_route (terminal_save q s) = bs_route s"
  "bs_protocol (terminal_save q s) = bs_protocol s" "bs_codec (terminal_save q s) = bs_codec s"
  "bs_line (terminal_save q s) = bs_line s" "bs_query (terminal_save q s) = bs_query s" "bs_ppp (terminal_save q s) = bs_ppp s"
  "bs_handle (terminal_save q s) = bs_handle s" "bs_pending_name (terminal_save q s) = bs_pending_name s"
  "bs_door (terminal_save q s) = bs_door s" "bs_ctx (terminal_save q s) = bs_ctx s" "bs_user_id (terminal_save q s) = bs_user_id s"
  "bs_connection_id (terminal_save q s) = bs_connection_id s"
  using terminal_save_only_db [of q s] by auto

lemma record_connection_simps [simp]:
  "bs_stage (record_connection q s) = bs_stage s" "bs_route (record_connection q s) = bs_route s"
  "bs_protocol (record_connection q s) = bs_protocol s" "bs_codec (record_connection q s) = bs_codec s"
  "bs_line (record_connection q s) = bs_line s" "bs_query (record_connection q s) = bs_query s"
  "bs_ppp (record_connection q s) = bs_ppp s" "bs_handle (record_connection q s) = bs_handle s"
  "bs_pending_name (record_connection q s) = bs_pending_name s" "bs_door (record_connection q s) = bs_door s"
  "bs_ctx (record_connection q s) = bs_ctx s" "bs_user_id (record_connection q s) = bs_user_id s"
  using record_connection_only_db [of q s] by auto

lemma login_lookup_simps:
  assumes "login_lookup q name pass s = Some s'"
  shows "bs_stage s' = bs_stage s" "bs_route s' = bs_route s" "bs_protocol s' = bs_protocol s" "bs_codec s' = bs_codec s"
    "bs_line s' = bs_line s" "bs_query s' = bs_query s" "bs_ppp s' = bs_ppp s" "bs_handle s' = snprintf 48 name"
    "bs_pending_name s' = bs_pending_name s" "bs_door s' = bs_door s" "bs_ctx s' = bs_ctx s"
    "bs_connection_id s' = bs_connection_id s" "bs_db s' = bs_db s"
  using assms by (auto simp: login_lookup_def split: list.splits if_splits)

lemma register_user_simps:
  assumes "register_user q now name pass s = (s', ok)"
  shows "bs_stage s' = bs_stage s" "bs_route s' = bs_route s" "bs_protocol s' = bs_protocol s" "bs_codec s' = bs_codec s"
    "bs_line s' = bs_line s" "bs_query s' = bs_query s" "bs_ppp s' = bs_ppp s"
    "bs_handle s' = (if ok then snprintf 48 name else bs_handle s)"
    "bs_pending_name s' = bs_pending_name s" "bs_door s' = bs_door s" "bs_ctx s' = bs_ctx s"
    "bs_connection_id s' = bs_connection_id s"
  using assms by (auto simp: register_user_def split: option.splits if_splits dest!: run_stmt_only_db)

lemma begin_terminal_simps [simp]:
  "bs_route (begin_terminal q s) = bs_route s"
  "bs_protocol (begin_terminal q s) = bs_protocol s" "bs_codec (begin_terminal q s) = bs_codec s"
  "bs_line (begin_terminal q s) = bs_line s" "bs_ppp (begin_terminal q s) = bs_ppp s"
  "bs_handle (begin_terminal q s) = bs_handle s" "bs_pending_name (begin_terminal q s) = bs_pending_name s"
  "bs_door (begin_terminal q s) = bs_door s" "bs_ctx (begin_terminal q s) = bs_ctx s"
  "bs_user_id (begin_terminal q s) = bs_user_id s"
  "bs_stage (begin_terminal q s) = (if bs_columns s > 0 \<and> bs_rows s > 0 then ST_MAIN else ST_TERM_QUERY)"
  "bs_query (begin_terminal q s) = (if bs_columns s > 0 \<and> bs_rows s > 0 then bs_query s else [])"
  by (simp_all add: begin_terminal_def)

text \<open>To keep the invariant: the text buffers, the game in progress and the stage.\<close>

lemma bbs_inv_frame:
  assumes "bbs_inv s" and "bs_door s = None"
    and "bs_line t = bs_line s" "length (bs_query t) < QUERY_MAX" "length (bs_ppp t) \<le> PPP_MAX" "length (bs_handle t) < 48"
    "length (bs_pending_name t) < 48" "bs_protocol t = bs_protocol s" "bs_codec t = bs_codec s" "bs_door t = None" "stage_ok t"
  shows "bbs_inv t"
  using assms by (simp add: bbs_inv_def bufs_ok_def game_ok_def)

lemma length_take_47 [simp]: "length (take 47 xs) < 48" "length (snprintf 48 xs) < 48"
  using length_snprintf [of 48 xs] by auto

lemma bbs_inv_bufs:
  "bbs_inv s \<Longrightarrow> length (bs_query s) < QUERY_MAX" "bbs_inv s \<Longrightarrow> length (bs_ppp s) \<le> PPP_MAX"
  "bbs_inv s \<Longrightarrow> length (bs_handle s) < 48" "bbs_inv s \<Longrightarrow> length (bs_pending_name s) < 48"
  "bbs_inv s \<Longrightarrow> bs_stage s \<noteq> ST_DOOR \<Longrightarrow> bs_door s = None"
  by (auto simp: bbs_inv_def bufs_ok_def stage_ok_def)

lemma main_choice_simps:
  assumes "\<not> is_key CHR ''d'' line"
  shows "bs_line (main_choice q now line s) = bs_line s" "bs_query (main_choice q now line s) = bs_query s"
    "bs_ppp (main_choice q now line s) = bs_ppp s" "bs_handle (main_choice q now line s) = bs_handle s"
    "bs_pending_name (main_choice q now line s) = bs_pending_name s" "bs_protocol (main_choice q now line s) = bs_protocol s"
    "bs_codec (main_choice q now line s) = bs_codec s" "bs_door (main_choice q now line s) = bs_door s"
    "bs_connection_id (main_choice q now line s) = bs_connection_id s"
    "bs_stage s = ST_MAIN \<Longrightarrow> bs_stage (main_choice q now line s) \<in> {ST_MAIN, ST_TERM_MENU}"
    "bs_route (main_choice q now line s) \<in> {bs_route s, BBS_ROUTE_PPP, BBS_ROUTE_HANGUP}"
  using assms by (simp_all add: main_choice_def connection_screen_def history_def)

lemma handle_line_inv:
  assumes i: "bbs_inv s"
  shows "bbs_inv (handle_line q now buf s)"
proof (cases "bs_stage s = ST_DOOR")
  case True
  then obtain d where d: "bs_door s = Some d" using i by (auto simp: bbs_inv_def stage_ok_def)
  have "bbs_inv (run_door now (door_input (bbs_host q s) d line) s)" for line
    using i d by (intro run_door_inv [OF _ _ d])
      (auto simp: bbs_inv_def game_ok_def door_input_def hangman_input_ok blackjack_input_ok)
  with True d show ?thesis by (simp add: handle_line_def)
next
  case n: False
  define line where "line = dropWhile is_space buf"
  have d: "bs_door s = None" using bbs_inv_bufs(5) [OF i n] .
  have so: "stage_ok s" using i by (simp add: bbs_inv_def)
  note frame = bbs_inv_frame [OF i d]
  have lk: "bbs_inv t" if "t = password_line q line s" "bs_stage s = ST_PASSWORD" for t
    using that i d so bbs_inv_bufs [OF i]
    by (auto simp: password_line_def QUERY_MAX_def stage_ok_def authed_def login_lookup_simps intro!: frame split: option.splits)
  have rg: "bbs_inv (new_password_line q now line s)" if "bs_stage s = ST_NEW_PASSWORD"
  proof -
    obtain s' ok where r: "register_user q now (bs_pending_name s) line s = (s', ok)" by fastforce
    show ?thesis
      using that i d so bbs_inv_bufs [OF i] register_user_simps [OF r]
      by (auto simp: new_password_line_def r QUERY_MAX_def stage_ok_def authed_def intro!: frame)
  qed
  have mc: "bbs_inv (main_choice q now line s)" if m: "bs_stage s = ST_MAIN"
  proof (cases "is_key CHR ''d'' line")
    case True
    with i m show ?thesis by (simp add: main_choice_def open_doors_inv)
  next
    case False
    note ms = main_choice_simps [OF False, where q = q and now = now and s = s]
    show ?thesis
      using ms(10) [OF m] ms(11) ms(1-9) so d m bbs_inv_bufs [OF i]
      by (intro frame) (auto simp: stage_ok_def authed_def)
  qed
  have dc: "bbs_inv (doors_choice q now line s)" if "bs_stage s = ST_DOORS"
  proof (cases "is_key CHR ''q'' line \<or> door_find line = None")
    case True
    then show ?thesis
      using i d so that bbs_inv_bufs [OF i]
      by (auto simp: doors_choice_def show_doors_def stage_ok_def authed_def intro!: frame)
  next
    case False
    then obtain e where e: "\<not> is_key CHR ''q'' line" "door_find line = Some e" by auto
    have "bbs_inv (run_door now (door_open (bbs_host q s) e) (s\<lparr>bs_door := Some e, bs_stage := ST_DOOR\<rparr>))"
      using i that so by (intro run_door_inv [where d = e])
        (auto simp: bbs_inv_def bufs_ok_def stage_ok_def authed_def door_open_def hangman_open_ok blackjack_open_ok)
    with e show ?thesis by (simp add: doors_choice_def)
  qed
  show ?thesis
    using n i d so bbs_inv_bufs [OF i] lk rg mc dc
    by (cases "bs_stage s")
      (auto simp: handle_line_def Let_def line_def [symmetric] select_line_def login_line_def answer_ansi_def
        terminal_choice_def terminal_size_def stage_ok_def authed_def intro!: frame split: option.splits)
qed

lemma bufs_ok_line: "bbs_inv s \<Longrightarrow> length l < LINE_MAX \<Longrightarrow> bbs_inv (s\<lparr>bs_line := l\<rparr>)"
  by (simp add: bbs_inv_def bufs_ok_def game_ok_def stage_ok_def)

lemma bbs_inv_out [simp]: "bbs_inv (out p s) = bbs_inv s" "bbs_inv (outn p s) = bbs_inv s"
  by (simp_all add: out_def outn_def bbs_inv_def bufs_ok_def game_ok_def stage_ok_def)

lemma feed_char_inv:
  assumes "bbs_inv s"
  shows "bbs_inv (feed_char q now ch s)"
proof -
  have l: "length (bs_line s) < LINE_MAX" using assms by (simp add: bbs_inv_def bufs_ok_def)
  have qu: "bbs_inv (s\<lparr>bs_query := bs_query s @ [ch]\<rparr>)" if "length (bs_query s) < QUERY_MAX - 1"
    using assms that by (simp add: bbs_inv_def bufs_ok_def game_ok_def stage_ok_def)
  have "bbs_inv ((handle_line q now (bs_line s) s)\<lparr>bs_line := []\<rparr>)"
    by (intro bufs_ok_line handle_line_inv assms) (simp add: LINE_MAX_def)
  with l qu assms show ?thesis
    by (auto simp: feed_char_def Let_def intro!: bufs_ok_line)
qed

lemma keep_early_inv: "bbs_inv s \<Longrightarrow> bbs_inv (keep_early d s)"
  by (auto simp: keep_early_def Let_def bbs_inv_def bufs_ok_def game_ok_def stage_ok_def)

lemma feed_inv: "bbs_inv s \<Longrightarrow> bbs_inv (bbs_session_feed q now d s)"
proof -
  have "bbs_inv s \<Longrightarrow> bbs_inv (foldl (\<lambda>s ch. feed_char q now ch s) s d)" for s
    by (induction d arbitrary: s) (simp_all add: feed_char_inv)
  then show "bbs_inv s \<Longrightarrow> bbs_inv (bbs_session_feed q now d s)"
    by (simp add: bbs_session_feed_def Let_def keep_early_inv)
qed

lemma scan_reply_only:
  "\<exists>r c a k. scan_reply s = s\<lparr>bs_rows := r, bs_columns := c, bs_ansi := a, bs_color := k\<rparr>"
proof -
  have 1: "s = s\<lparr>bs_rows := bs_rows s, bs_columns := bs_columns s, bs_ansi := bs_ansi s, bs_color := bs_color s\<rparr>" by simp
  have 2: "s\<lparr>bs_ansi := a, bs_color := k\<rparr> = s\<lparr>bs_rows := bs_rows s, bs_columns := bs_columns s, bs_ansi := a, bs_color := k\<rparr>"
    for a k by simp
  have 3: "s\<lparr>bs_ansi := a, bs_color := k, bs_rows := r, bs_columns := c, bs_ansi := a', bs_color := k'\<rparr>
     = s\<lparr>bs_rows := r, bs_columns := c, bs_ansi := a', bs_color := k'\<rparr>" for a k r c a' k' by simp
  define u where "u = (case strstr (cstr (bs_query s)) (ESC # ''['') of None \<Rightarrow> s
                | Some p \<Rightarrow> (case scan_two (ESC # ''['') (CHR '';'') p of None \<Rightarrow> s
                   | Some (row, col) \<Rightarrow> if row > 0 \<and> col > 0 then s\<lparr>bs_ansi := 1, bs_color := 1\<rparr> else s))"
  have u: "u = s \<or> u = s\<lparr>bs_ansi := 1, bs_color := 1\<rparr>"
    unfolding u_def by (simp split: option.split prod.split)
  have "scan_reply s = u \<or> (\<exists>r c. scan_reply s = u\<lparr>bs_rows := r, bs_columns := c, bs_ansi := 1, bs_color := 1\<rparr>)"
    unfolding scan_reply_def Let_def u_def [symmetric] by (auto split: option.split prod.split)
  with u show ?thesis
    by (elim disjE exE) (metis 1, metis 2, metis, metis 3)
qed

lemma tick_inv:
  assumes "bbs_inv s"
  shows "bbs_inv (bbs_session_tick q ms s)"
proof (cases "bs_stage s = ST_TERM_QUERY")
  case True
  obtain r c a k where sr: "scan_reply (s\<lparr>bs_query_ms := bs_query_ms s + ms\<rparr>) =
    s\<lparr>bs_query_ms := bs_query_ms s + ms, bs_rows := r, bs_columns := c, bs_ansi := a, bs_color := k\<rparr>"
    using scan_reply_only [of "s\<lparr>bs_query_ms := bs_query_ms s + ms\<rparr>"] by blast
  have d: "bs_door s = None" and so: "stage_ok s" using assms True by (auto simp: bbs_inv_def stage_ok_def)
  show ?thesis
    using True so d bbs_inv_bufs [OF assms]
    by (auto simp: bbs_session_tick_def sr Let_def stage_ok_def authed_def intro!: bbs_inv_frame [OF assms d])
next
  case False
  with assms show ?thesis by (simp add: bbs_session_tick_def)
qed

lemma take_ppp_inv: "bbs_inv s \<Longrightarrow> bbs_inv (snd (bbs_session_take_ppp cap s))"
  by (auto simp: bbs_session_take_ppp_def Let_def bbs_inv_def bufs_ok_def game_ok_def stage_ok_def)

lemma create_inv: "bbs_inv (bbs_session_create q now path m fn)"
proof -
  have "length (snprintf 32 p) < 32" for p using length_snprintf [of 32 p] by simp
  then show ?thesis
    by (simp add: bbs_session_create_def Let_def split_beta bbs_inv_def bufs_ok_def game_ok_def stage_ok_def
        LINE_MAX_def QUERY_MAX_def)
qed

text \<open>C13: from its creation on, whatever the caller types, however the terminal and the database answer and
  whatever the games load, a session keeps every text within its array, is inside a game exactly when its
  stage says so, has selected a route exactly when it left the selection prompt, has recorded the
  connection only for a user who got past the login, and has its hand of Blackjack or its word of Hangman in
  a state the rules allow.\<close>

theorem bbs_invariant:
  "bbs_inv (bbs_session_create q now path m fn)
   \<and> (bbs_inv s \<longrightarrow> bbs_inv (bbs_session_feed q now d s) \<and> bbs_inv (bbs_session_tick q ms s)
        \<and> bbs_inv (snd (bbs_session_take_ppp cap s)))"
  by (simp add: create_inv feed_inv tick_inv take_ppp_inv)

subsection \<open>Who gets in\<close>

text \<open>What it takes to leave the login: the hash the database has for the name given, or an account it accepts.\<close>

definition good_password :: "'q sql_api \<Rightarrow> string \<Rightarrow> 'q bbs_session \<Rightarrow> bool" where
  "good_password q line s \<longleftrightarrow> bs_stage s = ST_PASSWORD
     \<and> (\<exists>d r rs. bs_db s = Some d \<and> sq_rows q sql_select_user [SText (bs_pending_name s)] d = r # rs
          \<and> column_text r 1 = Some (hex016 (password_hash (bs_pending_name s) line)))"

definition good_account :: "'q sql_api \<Rightarrow> int \<Rightarrow> string \<Rightarrow> 'q bbs_session \<Rightarrow> bool" where
  "good_account q now line s \<longleftrightarrow> bs_stage s = ST_NEW_PASSWORD \<and> line \<noteq> []
     \<and> bs_pending_name s \<noteq> [] \<and> length (bs_pending_name s) \<le> 32
     \<and> (\<exists>d. bs_db s = Some d \<and> fst (sq_run q sql_insert_user
            [SText (bs_pending_name s), SText (hex016 (password_hash (bs_pending_name s) line)), SInt now] d) = SQLITE_DONE)"

lemma password_line_authed:
  assumes "authed (bs_stage (password_line q line s))" and "bs_stage s = ST_PASSWORD"
  shows "good_password q line s"
proof -
  obtain s' where "login_lookup q (bs_pending_name s) line s = Some s'"
    using assms by (auto simp: password_line_def authed_def split: option.splits)
  then show ?thesis
    using assms(2) by (auto simp: login_lookup_def good_password_def query_rows_def prepare_def
        split: list.splits if_splits option.splits)
qed

lemma new_password_line_authed:
  assumes a: "authed (bs_stage (new_password_line q now line s))" and st: "bs_stage s = ST_NEW_PASSWORD"
  shows "good_account q now line s"
proof -
  obtain s' ok where r: "register_user q now (bs_pending_name s) line s = (s', ok)" by fastforce
  have ok using a by (cases ok) (simp_all add: new_password_line_def r authed_def)
  with r st show ?thesis
    by (auto simp: register_user_def good_account_def run_stmt_def prepare_def Let_def
        split: if_splits option.splits prod.splits)
qed

lemma handle_line_authed:
  assumes "\<not> authed (bs_stage s)" and "authed (bs_stage (handle_line q now buf s))"
  shows "good_password q (dropWhile is_space buf) s \<or> good_account q now (dropWhile is_space buf) s"
proof -
  have "bs_stage s = ST_PASSWORD \<or> bs_stage s = ST_NEW_PASSWORD"
    using assms by (cases "bs_stage s") (auto simp: handle_line_def select_line_def login_line_def authed_def Let_def split: if_splits)
  then show ?thesis
    using assms(2) password_line_authed [of q "dropWhile is_space buf" s]
      new_password_line_authed [of q now "dropWhile is_space buf" s]
    by (auto simp: handle_line_def)
qed

text \<open>C8: no input leads past the login prompts but an end of line after a password that matches the hash the
  database has for the name given, or one that makes an account the database accepts; the timer never does.\<close>

theorem no_menu_without_login:
  assumes "\<not> authed (bs_stage s)"
  shows "(authed (bs_stage (feed_char q now ch s)) \<longrightarrow>
            is_eol ch \<and> (good_password q (dropWhile is_space (bs_line s)) s \<or> good_account q now (dropWhile is_space (bs_line s)) s))
         \<and> bbs_session_tick q ms s = s"
proof -
  have *: "feed_char q now ch s = (handle_line q now (bs_line s) s)\<lparr>bs_line := []\<rparr>" if "is_eol ch" "bs_line s \<noteq> []"
    using that assms by (auto simp: feed_char_def authed_def)
  have "\<not> authed (bs_stage (feed_char q now ch s))" if "\<not> is_eol ch \<or> bs_line s = []"
    using that assms by (auto simp: feed_char_def authed_def Let_def outn_def)
  moreover have "bbs_session_tick q ms s = s"
    using assms by (auto simp: bbs_session_tick_def authed_def)
  ultimately show ?thesis
    using * handle_line_authed [OF assms, of q now "bs_line s"] by fastforce
qed

subsection \<open>The line editor\<close>

text \<open>What printable characters do to a session: they are appended while there is room, and each is echoed
  unless a password is being typed.\<close>

definition typed :: "string \<Rightarrow> 'q bbs_session \<Rightarrow> 'q bbs_session" where
  "typed p s = s\<lparr>bs_line := bs_line s @ p,
      bs_out := bs_out s @ (if bs_write_fn s \<and> \<not> hidden (bs_stage s) then map (\<lambda>ch. [ch]) p else [])\<rparr>"

lemma printable_facts:
  assumes "is_printable ch"
  shows "\<not> is_eol ch" "\<not> is_rubout ch" "ch \<noteq> NUL"
  using assms by (auto simp: is_printable_def is_eol_def is_rubout_def NUL_def Let_def)

lemma feed_printable:
  assumes "list_all is_printable p" and "bs_stage s \<noteq> ST_TERM_QUERY"
  shows "foldl (\<lambda>s ch. feed_char q now ch s) s p = typed (take (LINE_MAX - 1 - length (bs_line s)) p) s"
  using assms
proof (induction p arbitrary: s)
  case Nil
  then show ?case by (simp add: typed_def)
next
  case (Cons ch p)
  note pf = printable_facts [of ch]
  show ?case
  proof (cases "length (bs_line s) < LINE_MAX - 1")
    case True
    then have f: "feed_char q now ch s = typed [ch] s"
      using Cons.prems pf by (auto simp: feed_char_def typed_def outn_def Let_def)
    have k: "LINE_MAX - 1 - length (bs_line s) = Suc (LINE_MAX - 1 - length (bs_line (typed [ch] s)))"
      using True by (simp add: typed_def)
    have st: "bs_stage (typed [ch] s) \<noteq> ST_TERM_QUERY" using Cons.prems by (simp add: typed_def)
    have "foldl (\<lambda>s ch. feed_char q now ch s) s (ch # p)
            = typed (take (LINE_MAX - 1 - length (bs_line (typed [ch] s))) p) (typed [ch] s)"
      using Cons.IH [OF _ st] Cons.prems by (simp add: f)
    also have "\<dots> = typed (take (LINE_MAX - 1 - length (bs_line s)) (ch # p)) s"
      unfolding k by (simp add: typed_def)
    finally show ?thesis .
  next
    case False
    then have "feed_char q now ch s = s"
      using Cons.prems pf by (auto simp: feed_char_def)
    with False Cons show ?thesis by simp
  qed
qed

text \<open>A line typed at an empty prompt, then ENTER.\<close>

lemma feed_line:
  assumes "list_all is_printable p" and "p \<noteq> []" and "length p < LINE_MAX" and "bs_line s = []"
    and "bs_stage s \<noteq> ST_TERM_QUERY" and "is_eol e"
  shows "foldl (\<lambda>s ch. feed_char q now ch s) s (p @ [e]) = (handle_line q now p (typed p s))\<lparr>bs_line := []\<rparr>"
proof -
  have "take (LINE_MAX - 1 - length (bs_line s)) p = p" using assms by simp
  with assms feed_printable [OF assms(1,5), of q now] show ?thesis
    by (simp add: feed_char_def) (simp add: typed_def)
qed

lemma feed_route:
  assumes "bs_route s = BBS_ROUTE_BBS" and "bs_stage s \<noteq> ST_SELECT"
  shows "bbs_session_feed q now d s = foldl (\<lambda>s ch. feed_char q now ch s) s d"
  using assms by (simp add: bbs_session_feed_def keep_early_def)

text \<open>Typing at any prompt appends what was typed, up to 159 characters, and does nothing else than echo it;
  while a password is asked for there is no echo: what the caller is sent does not depend on it.\<close>

theorem typing_echo:
  assumes "list_all is_printable p" and "bs_route s = BBS_ROUTE_BBS" and "bs_stage s \<noteq> ST_SELECT" and "bs_stage s \<noteq> ST_TERM_QUERY"
  shows "bbs_session_feed q now p s = typed (take (159 - length (bs_line s)) p) s
    \<and> (hidden (bs_stage s) \<longrightarrow> bs_out (bbs_session_feed q now p s) = bs_out s)"
proof -
  have "bbs_session_feed q now p s = typed (take (159 - length (bs_line s)) p) s"
    using feed_printable [OF assms(1,4), of q now] feed_route [OF assms(2,3), of q now p] by (simp add: LINE_MAX_def)
  then show ?thesis by (simp add: typed_def)
qed

text \<open>ENTER on an empty line is no input at all: the "Press ENTER" of the history screen and of the games has
  nothing to wait for.\<close>

lemma enter_ignored:
  assumes "bs_line s = []" and "bs_stage s \<noteq> ST_SELECT" and "bs_stage s \<noteq> ST_TERM_QUERY"
  shows "bbs_session_feed q now [CHR 0x0D] s = s"
  using assms by (simp add: bbs_session_feed_def keep_early_def Let_def feed_char_def is_eol_def)

subsection \<open>PPP without a selection\<close>

lemma starts_with_iff: "starts_with f p \<longleftrightarrow> (\<exists>x. p = f @ x)"
  by (auto simp: starts_with_def) (metis append_take_drop_id)

lemma ppp_prefix_mono: "ppp_prefix p \<Longrightarrow> ppp_prefix (p @ r)"
  by (auto simp: ppp_prefix_def starts_with_iff)

lemma ppp_prefix_begins:
  assumes "ppp_prefix (p @ r)" and "\<not> ppp_prefix p"
  shows "\<exists>n < 6. p = take n ppp_frame_a \<or> p = take n ppp_frame_b"
proof -
  have *: "p = take (length p) f \<and> length p < length f" if "starts_with f (p @ r)" "\<not> starts_with f p" for f
  proof -
    have f: "take (length f) p @ take (length f - length p) r = f" using that by (simp add: starts_with_def)
    have "length p < length f"
    proof (rule ccontr)
      assume "\<not> length p < length f"
      with f that(2) show False by (simp add: starts_with_def)
    qed
    with f have "p @ take (length f - length p) r = f" by simp
    then have "take (length p) f = p" by (metis append_eq_conv_conj)
    with \<open>length p < length f\<close> show ?thesis by simp
  qed
  have l: "length ppp_frame_a < 6" "length ppp_frame_b \<le> 6" by (simp_all add: ppp_frame_a_def ppp_frame_b_def)
  from assms consider "starts_with ppp_frame_a (p @ r)" "\<not> starts_with ppp_frame_a p"
    | "starts_with ppp_frame_b (p @ r)" "\<not> starts_with ppp_frame_b p"
    by (auto simp: ppp_prefix_def)
  then show ?thesis
  proof cases
    case 1
    with * [of ppp_frame_a] l show ?thesis by (intro exI [of _ "length p"]) linarith
  next
    case 2
    with * [of ppp_frame_b] l show ?thesis by (intro exI [of _ "length p"]) linarith
  qed
qed

lemma frame_no_eol: "ch \<in> set ppp_frame_a \<union> set ppp_frame_b \<Longrightarrow> \<not> is_eol ch"
  by (auto simp: ppp_frame_a_def ppp_frame_b_def is_eol_def)

lemma feed_no_eol:
  assumes "\<forall>ch \<in> set d. \<not> is_eol ch" and "bs_stage s = ST_SELECT"
  shows "bs_stage (foldl (\<lambda>s ch. feed_char q now ch s) s d) = ST_SELECT
    \<and> bs_route (foldl (\<lambda>s ch. feed_char q now ch s) s d) = bs_route s
    \<and> bs_ppp (foldl (\<lambda>s ch. feed_char q now ch s) s d) = bs_ppp s"
  using assms
proof (induction d arbitrary: s)
  case (Cons ch d)
  have "bs_stage (feed_char q now ch s) = ST_SELECT" "bs_route (feed_char q now ch s) = bs_route s"
    "bs_ppp (feed_char q now ch s) = bs_ppp s"
    using Cons.prems by (auto simp: feed_char_def Let_def outn_def)
  with Cons show ?case by simp
qed simp

definition feed_all :: "'q sql_api \<Rightarrow> int \<Rightarrow> string list \<Rightarrow> 'q bbs_session \<Rightarrow> 'q bbs_session" where
  "feed_all q now ds s = foldl (\<lambda>s d. bbs_session_feed q now d s) s ds"

lemma feed_all_early:
  assumes "bs_stage s = ST_SELECT" "bs_route s = BBS_ROUTE_SELECT" "\<not> ppp_prefix (bs_ppp s @ concat ds)"
    "length (bs_ppp s @ concat ds) \<le> PPP_MAX" "\<forall>ch \<in> set (concat ds). \<not> is_eol ch"
  shows "bs_stage (feed_all q now ds s) = ST_SELECT \<and> bs_route (feed_all q now ds s) = BBS_ROUTE_SELECT
    \<and> bs_ppp (feed_all q now ds s) = bs_ppp s @ concat ds"
  using assms
proof (induction ds arbitrary: s)
  case Nil
  then show ?case by (simp add: feed_all_def)
next
  case (Cons d ds)
  define s1 where "s1 = keep_early d s"
  have "\<not> ppp_prefix (bs_ppp s @ d)" using Cons.prems(3) ppp_prefix_mono [of "bs_ppp s @ d"] by auto
  then have s1: "bs_stage s1 = ST_SELECT" "bs_route s1 = BBS_ROUTE_SELECT" "bs_ppp s1 = bs_ppp s @ d"
    using Cons.prems by (auto simp: s1_def keep_early_def Let_def)
  define t where "t = bbs_session_feed q now d s"
  have "t = foldl (\<lambda>s ch. feed_char q now ch s) s1 d"
    using Cons.prems s1 by (simp add: t_def bbs_session_feed_def s1_def [symmetric])
  with feed_no_eol [of d s1 q now] Cons.prems s1
  have "bs_stage t = ST_SELECT" "bs_route t = BBS_ROUTE_SELECT" "bs_ppp t = bs_ppp s @ d" by auto
  with Cons.IH [of t] Cons.prems show ?case
    by (simp add: feed_all_def t_def)
qed

text \<open>C36: a caller who starts PPP without answering the prompt is recognised by the first bytes of an LCP frame,
  however they are cut into chunks; no byte is lost and none is kept back: what \<open>take_ppp\<close> hands to the PPP
  side is everything received, in order, and the session takes no further input.\<close>

theorem raw_ppp_recognised:
  assumes "ppp_prefix (concat ds @ d)" and "\<not> ppp_prefix (concat ds)" and "length (concat ds @ d) \<le> 1024"
    and "bs_stage s = ST_SELECT" and "bs_route s = BBS_ROUTE_SELECT" and "bs_ppp s = []"
  shows "bs_route (feed_all q now (ds @ [d]) s) = BBS_ROUTE_PPP
    \<and> fst (bbs_session_take_ppp 1024 (feed_all q now (ds @ [d]) s)) = concat ds @ d
    \<and> bbs_session_feed q now later (feed_all q now (ds @ [d]) s) = feed_all q now (ds @ [d]) s"
proof -
  obtain n where "concat ds = take n ppp_frame_a \<or> concat ds = take n ppp_frame_b"
    using ppp_prefix_begins [OF assms(1,2)] by auto
  then have ne: "\<forall>ch \<in> set (concat ds). \<not> is_eol ch"
    using frame_no_eol by (metis Un_iff in_set_takeD)
  define t where "t = feed_all q now ds s"
  have t: "bs_stage t = ST_SELECT" "bs_route t = BBS_ROUTE_SELECT" "bs_ppp t = concat ds"
    using feed_all_early [of s ds q now] assms ne by (auto simp: t_def PPP_MAX_def)
  have "d \<noteq> []" using assms(1,2) by auto
  with t assms have k: "bs_ppp (keep_early d t) = concat ds @ d" "bs_route (keep_early d t) = BBS_ROUTE_PPP"
    by (auto simp: keep_early_def Let_def PPP_MAX_def)
  have "bbs_session_feed q now d t = keep_early d t"
    using t k by (simp add: bbs_session_feed_def)
  moreover have "feed_all q now (ds @ [d]) s = bbs_session_feed q now d t"
    by (simp add: feed_all_def t_def)
  ultimately have "feed_all q now (ds @ [d]) s = keep_early d t" by simp
  with k assms(3) show ?thesis
    by (simp add: bbs_session_take_ppp_def Let_def bbs_session_feed_def)
qed


subsection \<open>Accounts\<close>

lemma bbs_session_feed_lines:
  assumes "bs_route s = BBS_ROUTE_BBS" and "bs_stage s \<noteq> ST_SELECT" and "bs_line s = []" and "bs_stage s \<noteq> ST_TERM_QUERY"
    and "list_all is_printable p" and "p \<noteq> []" and "length p < LINE_MAX"
  shows "foldl (\<lambda>s ch. feed_char q now ch s) s (p @ CHR 0x0D # rest)
           = foldl (\<lambda>s ch. feed_char q now ch s) ((handle_line q now p (typed p s))\<lparr>bs_line := []\<rparr>) rest"
proof -
  have e: "is_eol (CHR 0x0D)" by (simp add: is_eol_def)
  have "foldl (\<lambda>s ch. feed_char q now ch s) s (p @ CHR 0x0D # rest)
      = foldl (\<lambda>s ch. feed_char q now ch s) (foldl (\<lambda>s ch. feed_char q now ch s) s (p @ [CHR 0x0D])) rest" by simp
  then show ?thesis using feed_line [OF assms(5-7,3,4) e, of q now] by simp
qed

lemma typed_simps [simp]:
  "bs_stage (typed p s) = bs_stage s" "bs_route (typed p s) = bs_route s" "bs_db (typed p s) = bs_db s"
  "bs_pending_name (typed p s) = bs_pending_name s" "bs_columns (typed p s) = bs_columns s" "bs_rows (typed p s) = bs_rows s"
  "bs_user_id (typed p s) = bs_user_id s"
  by (simp_all add: typed_def)

text \<open>A word the line editor passes on as it is.\<close>

definition entry :: "string \<Rightarrow> bool" where
  "entry p \<longleftrightarrow> list_all is_printable p \<and> p \<noteq> [] \<and> length p < LINE_MAX \<and> \<not> is_space (hd p)"

lemma entry_line: "entry p \<Longrightarrow> dropWhile is_space p = p"
  by (cases p) (simp_all add: entry_def)

definition at_login :: "'q \<Rightarrow> 'q bbs_session \<Rightarrow> bool" where
  "at_login d s \<longleftrightarrow> bs_route s = BBS_ROUTE_BBS \<and> bs_stage s = ST_LOGIN \<and> bs_line s = [] \<and> bs_db s = Some d
     \<and> bs_columns s = 0 \<and> bs_user_id s = 0"

lemma register_dialog:
  assumes s: "at_login d s" and n: "entry name" "length name \<le> 32" and p: "entry pass"
    and pr: "sq_prepare q sql_insert_user d = SQLITE_OK"
    and run: "sq_run q sql_insert_user [SText name, SText (hex016 (password_hash name pass)), SInt now] d = (SQLITE_DONE, d')"
  shows "let s' = bbs_session_feed q now (''NEW'' @ CHR 0x0D # name @ CHR 0x0D # pass @ [CHR 0x0D]) s
         in bs_stage s' = ST_TERM_QUERY \<and> bs_user_id s' = c_int (sq_last_id q d') \<and> bs_db s' = Some d'"
proof -
  define t1 where "t1 = (handle_line q now ''NEW'' (typed ''NEW'' s))\<lparr>bs_line := []\<rparr>"
  define t2 where "t2 = (handle_line q now name (typed name t1))\<lparr>bs_line := []\<rparr>"
  define t3 where "t3 = (handle_line q now pass (typed pass t2))\<lparr>bs_line := []\<rparr>"
  have new: "list_all is_printable ''NEW''" by (simp add: is_printable_def)
  have t1: "bs_route t1 = BBS_ROUTE_BBS" "bs_stage t1 = ST_NEW_NAME" "bs_line t1 = []" "bs_db t1 = Some d" "bs_columns t1 = 0"
    using s by (simp_all add: t1_def handle_line_def at_login_def is_space_def login_line_def strcasecmp_eq_def)
  have t2: "bs_route t2 = BBS_ROUTE_BBS" "bs_stage t2 = ST_NEW_PASSWORD" "bs_line t2 = []" "bs_db t2 = Some d"
      "bs_columns t2 = 0" "bs_pending_name t2 = name"
    using t1 n by (simp_all add: t2_def handle_line_def entry_line)
  have "register_user q now name pass (typed pass t2)
      = ((typed pass t2)\<lparr>bs_db := Some d', bs_user_id := c_int (sq_last_id q d'), bs_security := 10, bs_handle := snprintf 48 name\<rparr>, True)"
    using t2 n p pr run by (simp add: register_user_def run_stmt_def prepare_def entry_def)
  with t2 p have t3: "bs_stage t3 = ST_TERM_QUERY" "bs_user_id t3 = c_int (sq_last_id q d')" "bs_db t3 = Some d'"
    by (simp_all add: t3_def handle_line_def entry_line new_password_line_def begin_terminal_def)
  have "foldl (\<lambda>s ch. feed_char q now ch s) s (''NEW'' @ CHR 0x0D # name @ CHR 0x0D # pass @ [CHR 0x0D])
      = foldl (\<lambda>s ch. feed_char q now ch s) t1 (name @ CHR 0x0D # pass @ [CHR 0x0D])"
    using bbs_session_feed_lines [of s "''NEW''" q now] s new by (simp add: t1_def at_login_def LINE_MAX_def)
  also have "\<dots> = foldl (\<lambda>s ch. feed_char q now ch s) t2 (pass @ CHR 0x0D # [])"
    using bbs_session_feed_lines [of t1 name q now] t1 n by (simp add: t2_def entry_def)
  also have "\<dots> = t3"
    using bbs_session_feed_lines [of t2 pass q now "[]"] t2 p by (simp add: t3_def entry_def)
  finally show ?thesis
    using s t3 feed_route [of s q now] by (simp add: at_login_def)
qed

lemma login_dialog:
  assumes s: "at_login d s" and n: "entry name" "length name \<le> 47" "\<not> strcasecmp_eq name ''NEW''" and p: "entry pass"
    and pr: "sq_prepare q sql_select_user d = SQLITE_OK"
    and row: "sq_rows q sql_select_user [SText name] d = [r]"
  shows "let s' = bbs_session_feed q now (name @ CHR 0x0D # pass @ [CHR 0x0D]) s
         in if column_text r 1 = Some (hex016 (password_hash name pass))
            then authed (bs_stage s') \<and> bs_user_id s' = c_int (column_int64 r 0)
            else bs_stage s' = ST_LOGIN \<and> bs_user_id s' = 0"
proof -
  define t1 where "t1 = (handle_line q now name (typed name s))\<lparr>bs_line := []\<rparr>"
  define t2 where "t2 = (handle_line q now pass (typed pass t1))\<lparr>bs_line := []\<rparr>"
  have t1: "bs_route t1 = BBS_ROUTE_BBS" "bs_stage t1 = ST_PASSWORD" "bs_line t1 = []" "bs_db t1 = Some d"
      "bs_pending_name t1 = name" "bs_user_id t1 = 0"
    using s n by (simp_all add: t1_def handle_line_def at_login_def login_line_def entry_line)
  have t2: "if column_text r 1 = Some (hex016 (password_hash name pass))
            then authed (bs_stage t2) \<and> bs_user_id t2 = c_int (column_int64 r 0)
            else bs_stage t2 = ST_LOGIN \<and> bs_user_id t2 = 0"
    using t1 p pr row
    by (simp add: t2_def handle_line_def entry_line password_line_def login_lookup_def query_rows_def prepare_def authed_def)
  have "foldl (\<lambda>s ch. feed_char q now ch s) s (name @ CHR 0x0D # pass @ [CHR 0x0D])
      = foldl (\<lambda>s ch. feed_char q now ch s) t1 (pass @ CHR 0x0D # [])"
    using bbs_session_feed_lines [of s name q now] s n by (simp add: t1_def at_login_def entry_def)
  also have "\<dots> = t2"
    using bbs_session_feed_lines [of t1 pass q now "[]"] t1 p by (simp add: t2_def entry_def)
  finally show ?thesis
    using s t2 feed_route [of s q now] by (simp add: at_login_def)
qed

text \<open>C35: an account made at the NEW dialogue lets its owner in again: whoever types the name and the password at
  a later login is the user the registration made, and any password with another hash is turned away. The
  database is relied on only to give back the row it has taken.\<close>

theorem account_roundtrip:
  assumes s: "at_login d s" and s2: "at_login d' s2"
    and n: "entry name" "length name \<le> 32" "\<not> strcasecmp_eq name ''NEW''" and p: "entry pass" and p2: "entry pass2"
    and pr: "sq_prepare q sql_insert_user d = SQLITE_OK" "sq_prepare q sql_select_user d' = SQLITE_OK"
    and run: "sq_run q sql_insert_user [SText name, SText (hex016 (password_hash name pass)), SInt now] d = (SQLITE_DONE, d')"
    and row: "sq_rows q sql_select_user [SText name] d' = [r]" "column_int64 r 0 = sq_last_id q d'"
      "column_text r 1 = Some (hex016 (password_hash name pass))"
  shows "let made = bbs_session_feed q now (''NEW'' @ CHR 0x0D # name @ CHR 0x0D # pass @ [CHR 0x0D]) s;
             again = bbs_session_feed q now (name @ CHR 0x0D # pass2 @ [CHR 0x0D]) s2
         in authed (bs_stage made) \<and>
            (if hex016 (password_hash name pass2) = hex016 (password_hash name pass)
             then authed (bs_stage again) \<and> bs_user_id again = bs_user_id made
             else bs_stage again = ST_LOGIN \<and> bs_user_id again = 0)"
proof -
  have "length name \<le> 47" using n by simp
  from login_dialog [OF s2 n(1) this n(3) p2 pr(2) row(1), of now] register_dialog [OF s n(1,2) p pr(1) run] row(2,3)
  show ?thesis by (auto simp: Let_def authed_def)
qed

subsection \<open>Examples\<close>

text \<open>A database of at most one account.\<close>

definition demo_sql :: "(string \<times> string) option sql_api" where
  "demo_sql = \<lparr>sq_dlopen = True, sq_symbols = True, sq_open = (\<lambda>_. (Some None, SQLITE_OK)), sq_exec = (\<lambda>_ d. d),
     sq_prepare = (\<lambda>_ _. SQLITE_OK),
     sq_rows = (\<lambda>stmt vals d. case d of None \<Rightarrow> [] | Some (n, h) \<Rightarrow>
        if vals = [SText n] then [\<lparr>column_int64 = (\<lambda>i. if i = 0 then 1 else 0), column_text = (\<lambda>_. Some h)\<rparr>] else []),
     sq_run = (\<lambda>stmt vals d. case vals of [SText n, SText h, SInt t] \<Rightarrow> (SQLITE_DONE, Some (n, h)) | _ \<Rightarrow> (1, d)),
     sq_last_id = (\<lambda>_. 1), sq_localtime = (\<lambda>_. (2024, 1, 1))\<rparr>"

definition demo_meta :: bbs_connection_meta where
  "demo_meta = \<lparr>bm_protocol = Some ''V.22bis'', bm_tx_bps = 2400, bm_rx_bps = 2400, bm_connected = 1, bm_connected_at = 5,
     bm_carrier_state = 1, bm_audio_codec = None, bm_sample_rate = 8000, bm_packet_time_ms = 20, bm_packets_rx = -1,
     bm_packets_tx = -1, bm_packets_lost = -1, bm_jitter_ms = -1\<rparr>"

definition demo_session :: "(string \<times> string) option bbs_session" where
  "demo_session = bbs_session_create demo_sql 7 None demo_meta True"

definition demo_login :: "(string \<times> string) option \<Rightarrow> (string \<times> string) option bbs_session" where
  "demo_login d = demo_session\<lparr>bs_route := BBS_ROUTE_BBS, bs_stage := ST_LOGIN, bs_db := Some d\<rparr>"

lemma demo_session_simps [simp]:
  "bs_route demo_session = BBS_ROUTE_SELECT" "bs_stage demo_session = ST_SELECT" "bs_line demo_session = []"
  "bs_ppp demo_session = []" "bs_columns demo_session = 0" "bs_user_id demo_session = 0" "bs_write_fn demo_session"
  "bs_out demo_session = []"
  by (simp_all add: demo_session_def bbs_session_create_def Let_def split_beta)

lemma demo_login_at [simp]: "at_login d (demo_login d)"
  by (simp add: at_login_def demo_login_def)

theorem bbs_invariant_witness:
  "bbs_inv (bbs_session_feed demo_sql 8 ''hello'' demo_session)"
proof -
  have "bbs_inv demo_session"
    using bbs_invariant [of demo_sql 7 None demo_meta True] by (simp add: demo_session_def)
  with bbs_invariant [where s = demo_session and q = demo_sql and now = 8 and d = "''hello''"] show ?thesis by blast
qed

theorem no_menu_without_login_witness:
  "bbs_session_tick demo_sql 2000 (demo_login None) = demo_login None"
proof -
  have "\<not> authed (bs_stage (demo_login None))" by (simp add: demo_login_def authed_def)
  from no_menu_without_login [OF this, of demo_sql 0 "CHR ''x''" 2000] show ?thesis by blast
qed

theorem typing_echo_witness:
  "bs_out (bbs_session_feed demo_sql 8 ''secret'' ((demo_login None)\<lparr>bs_stage := ST_PASSWORD\<rparr>)) = []
   \<and> bs_out (bbs_session_feed demo_sql 8 ''ada'' (demo_login None)) = [''a'', ''d'', ''a'']"
proof -
  let ?p = "(demo_login None)\<lparr>bs_stage := ST_PASSWORD\<rparr>"
  have p: "list_all is_printable ''secret''" "list_all is_printable ''ada''" by (simp_all add: is_printable_def)
  have 1: "bs_route ?p = BBS_ROUTE_BBS" "bs_stage ?p \<noteq> ST_SELECT" "bs_stage ?p \<noteq> ST_TERM_QUERY" "hidden (bs_stage ?p)"
    "bs_out ?p = []"
    by (simp_all add: demo_login_def hidden_def)
  have 2: "bs_route (demo_login None) = BBS_ROUTE_BBS" "bs_stage (demo_login None) \<noteq> ST_SELECT"
    "bs_stage (demo_login None) \<noteq> ST_TERM_QUERY"
    by (simp_all add: demo_login_def)
  from typing_echo [OF p(1) 1(1-3), of demo_sql 8] typing_echo [OF p(2) 2, of demo_sql 8] 1
  show ?thesis by (simp add: typed_def hidden_def demo_login_def)
qed

theorem raw_ppp_recognised_witness:
  "fst (bbs_session_take_ppp 1024 (feed_all demo_sql 8
      [[CHR 0x7E, CHR 0xFF], [CHR 0x03, CHR 0xC0, CHR 0x21, CHR 0x0D]] demo_session))
     = [CHR 0x7E, CHR 0xFF, CHR 0x03, CHR 0xC0, CHR 0x21, CHR 0x0D]"
proof -
  have "ppp_prefix (concat [[CHR 0x7E, CHR 0xFF]] @ [CHR 0x03, CHR 0xC0, CHR 0x21, CHR 0x0D])"
    "\<not> ppp_prefix (concat [[CHR 0x7E, CHR 0xFF]])"
    by (simp_all add: ppp_prefix_def starts_with_def ppp_frame_a_def ppp_frame_b_def)
  from raw_ppp_recognised [OF this, of demo_session demo_sql 8 "[]"] show ?thesis by simp
qed

theorem account_roundtrip_witness:
  "authed (bs_stage (bbs_session_feed demo_sql 8 (''ada'' @ CHR 0x0D # ''pw'' @ [CHR 0x0D])
     (demo_login (Some (''ada'', hex016 (password_hash ''ada'' ''pw''))))))"
proof -
  let ?h = "hex016 (password_hash ''ada'' ''pw'')"
  have e: "entry ''ada''" "entry ''pw''" "length ''ada'' \<le> 32" "\<not> strcasecmp_eq ''ada'' ''NEW''"
    by (simp_all add: entry_def is_printable_def is_space_def LINE_MAX_def strcasecmp_eq_def cstr_def NUL_def to_lower_def Let_def)
  have q: "sq_prepare demo_sql sql_insert_user None = SQLITE_OK" "sq_prepare demo_sql sql_select_user (Some (''ada'', ?h)) = SQLITE_OK"
    "sq_run demo_sql sql_insert_user [SText ''ada'', SText ?h, SInt 8] None = (SQLITE_DONE, Some (''ada'', ?h))"
    by (simp_all add: demo_sql_def)
  let ?r = "\<lparr>column_int64 = (\<lambda>i. if i = 0 then 1 else 0), column_text = (\<lambda>_. Some ?h)\<rparr> :: sql_row"
  have r: "sq_rows demo_sql sql_select_user [SText ''ada''] (Some (''ada'', ?h)) = [?r]"
    "column_int64 ?r 0 = sq_last_id demo_sql (Some (''ada'', ?h))" "column_text ?r 1 = Some ?h"
    by (simp_all add: demo_sql_def)
  from account_roundtrip [OF demo_login_at demo_login_at e(1,3,4,2,2) q r] show ?thesis by (simp add: Let_def)
qed

end
