(* ===== verification/Filters.thy ===== *)
theory Filters
  imports V22_Tx
begin

text \<open>
  The modem's filter tables, \<open>src/src/dsp/filters/v22bis_filters.h\<close>: the transmitter's pulse shaper, 40
  phases of 9 taps, and for each of the two carriers the real and imaginary part of the receiver's,
  12 phases of 27 taps. A coefficient is its decimal literal, \<open>(m, k)\<close> for \<open>m / 10 ^ k\<close>; the compiler's
  conversion to \<open>float\<close> is \<open>fp_lit\<close> of the arithmetic. \<open>with_tables\<close> completes an arithmetic with them.
\<close>

definition pulseshaper_tx_0 :: "(int \<times> nat) list list" where
  "pulseshaper_tx_0 =
    [[(-4709203406947602, 18), (-8387749978348139, 18), (-8745131329912774, 18), (8801696055602777, 18),
      (5113396005277524, 16), (5113396005277706, 16), (8801696055603029, 18), (-8745131329913067, 18),
      (-8387749978348369, 18)],
     [(-4443739770194017, 18), (-8915415118165263, 18), (-1113510261838836, 17), (2334219897427225, 18),
      (5628803680184772, 16), (4603500029167721, 16), (1448095101279117, 17), (-6326567092360224, 18),
      (-7724352726032965, 18)],
     [(-4084537949629562, 18), (-9293727106411871, 18), (-1345135448488752, 17), (-4866683143849589, 18),
      (6146385928835453, 16), (410231709146366, 15), (1933325695164948, 17), (-3923297135678309, 18),
      (-6940951514090929, 18)],
     [(-3636377484450113, 18), (-9511487116349384, 18), (-1564829035459126, 17), (-1272995810493057, 17),
      (6662699594758577, 16), (3612884926078229, 16), (2333555295420043, 17), (-1577250629838719, 18),
      (-6055037644244497, 18)],
     [(-3105832161501494, 18), (-9560198237899484, 18), (-1768065168767484, 17), (-2116831113450122, 17),
      (7174226861779466, 16), (3138052063968881, 16), (2647985287059357, 17), (6722596774677332, 19),
      (-5085499595406557, 18)],
     [(-2501187909238808, 18), (-9434303716379475, 18), (-1950435273530171, 17), (-3007845490453014, 17),
      (7677407904201075, 16), (2680454717835897, 16), (2877247582025003, 17), (2789126560731668, 18),
      (-4052242109761818, 18)],
     [(-1832326960263387, 18), (-913137823029812, 17), (-21077328659225, 15), (-3934158255267519, 17),
      (8168674457196536, 16), (2242496374549842, 16), (3023311645384477, 17), (4740960770606241, 18),
      (-2975797478215062, 18)],
     [(-1110579664588686, 18), (-8652267401440266, 18), (-2236038306994569, 17), (-4882407201553404, 17),
      (8644483934484084, 16), (1826330285401552, 16), (3089377377879232, 17), (6499520958248608, 18),
      (-187693611817791, 17)],
     [(-3485459597389945, 19), (-8001171522387888, 18), (-2331802055442186, 17), (-5837841949192131, 17),
      (9101353710274374, 16), (1433845006594636, 16), (3079755871629041, 17), (8041056735677682, 18),
      (-776283366058857, 18)],
     [(4401108952275008, 19), (-7185670370671728, 18), (-2391924949963867, 17), (-6784439759388261, 17),
      (9535895177153019, 16), (1066653103246397, 16), (2999740160234134, 17), (9346562110571419, 18),
      (3060508798830493, 19)]]"

definition pulseshaper_tx_1 :: "(int \<times> nat) list list" where
  "pulseshaper_tx_1 =
    [[(1240895148019488, 18), (-6216686941835843, 18), (-241383404834193, 16), (-7705043054460943, 17),
      (9944847191087685, 16), (7260830900568035, 17), (2855468156119003, 17), (1040193810417546, 17),
      (1350823425746748, 18)],
     [(2038730248618655, 18), (-5108388961066086, 18), (-2395552570576224, 17), (-8581517561170789, 17),
      (1032510851916462, 15), (4131746412835322, 17), (265378000648913, 16), (1119806490351094, 17),
      (2339984210756938, 18)],
     [(2818227251187489, 18), (-3878028108443666, 18), (-233576253762182, 16), (-9394929686671898, 17),
      (1067376891493295, 15), (1286770622614596, 17), (2402072104969043, 17), (1173078538971485, 17),
      (325697273426918, 17)],
     [(3563965361176736, 18), (-2545717998876067, 18), (-2233858765512057, 17), (-1012574143824842, 16),
      (1098813846027074, 15), (-1269490250424037, 17), (2108149969574711, 17), (1200080330041997, 17),
      (4086979974831287, 18)],
     [(4260779739949962, 18), (-1134153075916569, 18), (-2089992966480121, 17), (-1075402091630898, 16),
      (1126577483132365, 15), (-3535268685265296, 17), (1780082140316357, 17), (1201350060465616, 17),
      (4817172016041969, 18)],
     [(4894051434174323, 18), (3317283100670974, 19), (-1905106823336177, 17), (-1125966614893565, 16),
      (1150450816908211, 15), (-5511557675089142, 17), (1426057163027229, 17), (1177867987496356, 17),
      (5436872363687577, 18)],
     [(5449994139759265, 18), (1825132284007315, 18), (-1680953039644405, 17), (-1162263979966316, 16),
      (1170246326227387, 15), (-7202004071273424, 17), (1054245611963201, 17), (1131023851671176, 17),
      (5937700742700238, 18)],
     [(5915932445016364, 18), (3317843894052863, 18), (-1420103524636219, 17), (-1182321207186273, 16),
      (1185807878111665, 15), (-8612775355991338, 17), (6726689646694819, 18), (1062578264500985, 17),
      (6313666986102716, 18)],
     [(6280566228168182, 18), (4780701256648016, 18), (-1125944046400361, 17), (-1184220895655063, 16),
      (1197012333471069, 15), (-9752402036219113, 17), (2890769812313401, 18), (9746189173765888, 18),
      (6561219456510925, 18)],
     [(6534216011919969, 18), (618410213945654, 17), (-8026548774830947, 18), (-11661262828665, 14),
      (1203770816201767, 15), (-1063159811162427, 16), (-8916494074553739, 19), (8695125290931516, 18),
      (6679248259423217, 18)]]"

definition pulseshaper_tx_2 :: "(int \<times> nat) list list" where
  "pulseshaper_tx_2 =
    [[(6669044302391708, 18), (7498534933171219, 18), (-4551771610841191, 18), (-1126306229244665, 16),
      (1206029630599493, 15), (-1126306229244703, 16), (-4551771610841379, 18), (7498534933171241, 18),
      (6669044302391854, 18)],
     [(6679248259423085, 18), (8695125290931454, 18), (-8916494074553088, 19), (-106315981116239, 15),
      (1203770816201811, 15), (-116612628286654, 15), (-8026548774831241, 18), (6184102139456507, 18),
      (6534216011920111, 18)],
     [(6561219456510825, 18), (9746189173765787, 18), (2890769812313385, 18), (-9752402036218774, 17),
      (1197012333471113, 15), (-1184220895655105, 16), (-1125944046400403, 17), (478070125664794, 17),
      (6280566228168303, 18)],
     [(6313666986102621, 18), (1062578264500973, 17), (6726689646694668, 18), (-8612775355991034, 17),
      (1185807878111708, 15), (-1182321207186314, 16), (-1420103524636267, 17), (3317843894052735, 18),
      (5915932445016503, 18)],
     [(5937700742700136, 18), (1131023851671157, 17), (105424561196317, 16), (-7202004071273185, 17),
      (1170246326227429, 15), (-1162263979966356, 16), (-168095303964446, 16), (1825132284007158, 18),
      (5449994139759396, 18)],
     [(543687236368749, 17), (117786798749634, 16), (1426057163027187, 17), (-5511557675088948, 17),
      (1150450816908252, 15), (-1125966614893605, 16), (-1905106823336242, 17), (3317283100668741, 19),
      (4894051434174431, 18)],
     [(4817172016041924, 18), (1201350060465596, 17), (1780082140316307, 17), (-3535268685265165, 17),
      (1126577483132406, 15), (-1075402091630936, 16), (-2089992966480188, 17), (-1134153075916841, 18),
      (4260779739950057, 18)],
     [(4086979974831225, 18), (1200080330041976, 17), (2108149969574646, 17), (-1269490250423987, 17),
      (1098813846027114, 15), (-1012574143824877, 16), (-2233858765512127, 17), (-254571799887635, 17),
      (356396536117681, 17)],
     [(325697273426912, 17), (1173078538971461, 17), (2402072104968964, 17), (128677062261455, 16),
      (1067376891493333, 15), (-9394929686672228, 17), (-2335762537621892, 17), (-3878028108443769, 18),
      (2818227251187564, 18)],
     [(2339984210756911, 18), (1119806490351076, 17), (2653780006489047, 17), (4131746412835185, 17),
      (1032510851916499, 15), (-8581517561171091, 17), (-2395552570576299, 17), (-5108388961066214, 18),
      (2038730248618699, 18)]]"

definition pulseshaper_tx_3 :: "(int \<times> nat) list list" where
  "pulseshaper_tx_3 =
    [[(1350823425746781, 18), (1040193810417529, 17), (2855468156118916, 17), (7260830900567793, 17),
      (9944847191088042, 16), (-7705043054461225, 17), (-2413834048342006, 17), (-6216686941836004, 18),
      (1240895148019501, 18)],
     [(3060508798830721, 19), (9346562110571267, 18), (2999740160234045, 17), (106665310324636, 15),
      (9535895177153358, 16), (-6784439759388501, 17), (-2391924949963941, 17), (-7185670370671917, 18),
      (4401108952274974, 19)],
     [(-7762833660588055, 19), (8041056735677525, 18), (3079755871628941, 17), (1433845006594584, 16),
      (91013537102747, 14), (-5837841949192337, 17), (-2331802055442256, 17), (-8001171522388089, 18),
      (-3485459597389978, 19)],
     [(-1876936118177794, 18), (6499520958248516, 18), (3089377377879135, 17), (1826330285401487, 16),
      (8644483934484393, 16), (-488240720155358, 16), (-2236038306994641, 17), (-8652267401440466, 18),
      (-1110579664588731, 18)],
     [(-2975797478214917, 18), (4740960770606187, 18), (3023311645384383, 17), (2242496374549763, 16),
      (8168674457196824, 16), (-3934158255267661, 17), (-2107732865922568, 17), (-9131378230298397, 18),
      (-1832326960263445, 18)],
     [(-4052242109761689, 18), (2789126560731654, 18), (287724758202491, 16), (2680454717835801, 16),
      (7677407904201345, 16), (-300784549045312, 16), (-1950435273530233, 17), (-9434303716379702, 18),
      (-2501187909238868, 18)],
     [(-5085499595406393, 18), (6722596774677773, 19), (264798528705927, 16), (3138052063968769, 16),
      (7174226861779721, 16), (-2116831113450197, 17), (-1768065168767539, 17), (-9560198237899721, 18),
      (-3105832161501594, 18)],
     [(-6055037644244319, 18), (-1577250629838618, 18), (2333555295419968, 17), (3612884926078101, 16),
      (6662699594758814, 16), (-1272995810493103, 17), (-1564829035459176, 17), (-9511487116349637, 18),
      (-363637748445022, 17)],
     [(-6940951514090696, 18), (-3923297135678149, 18), (193332569516489, 16), (4102317091463517, 16),
      (6146385928835669, 16), (-4866683143849828, 18), (-1345135448488794, 17), (-929372710641212, 17),
      (-4084537949629684, 18)],
     [(-7724352726032778, 18), (-6326567092359955, 18), (1448095101279074, 17), (4603500029167559, 16),
      (5628803680184972, 16), (2334219897427269, 18), (-1113510261838872, 17), (-8915415118165492, 18),
      (-4443739770194128, 18)]]"

definition pulseshaper_tx :: "(int \<times> nat) list list" where
  "pulseshaper_tx = pulseshaper_tx_0 @ pulseshaper_tx_1 @ pulseshaper_tx_2 @ pulseshaper_tx_3"

definition pulseshaper_1200_re_0 :: "(int \<times> nat) list list" where
  "pulseshaper_1200_re_0 =
    [[(-7707647797875384, 18), (-2009418113722341, 18), (1892463922874719, 18), (-1883004461876262, 18),
      (-5171057518007794, 18), (5362758723260214, 18), (2588922699302181, 17), (3067968790683083, 17),
      (-8976427239845228, 33), (-4804917889240756, 17), (-6546006874560686, 17), (-2365397550730713, 17),
      (4820599301693863, 17), (8484686632662104, 17), (498717367300205, 16), (-2534339031960323, 17),
      (-7279945100758843, 17), (-5568366039323248, 17), (-1091014284150672, 32), (3953293412632043, 17),
      (3606613619314291, 17), (8411919770277672, 18), (-1020057325815088, 17), (-879752851545668, 17),
      (-1106802252691808, 18), (-9949271628182891, 19), (-6184353047905171, 18)],
     [(-7636444143080429, 18), (-1945580093844012, 18), (1683918622707096, 18), (-2391259927657645, 18),
      (-5555389088024039, 18), (5603144923945318, 18), (2671417069286753, 17), (3141706524327397, 17),
      (-9142210602401604, 33), (-4872645348764632, 17), (-661418706340549, 16), (-2382328600873816, 17),
      (4840629912524039, 17), (8495645923621545, 17), (4979568329330532, 17), (-2523239982801336, 17),
      (-722634250244347, 16), (-5509397705334829, 17), (-1075496449778083, 32), (3880047693483299, 17),
      (3520093730512067, 17), (8145688106748679, 18), (-9748730969010678, 18), (-8155163115755716, 18),
      (-8155083193185032, 19), (-110063465894308, 17), (-636965714316601, 17)],
     [(-7555617556132704, 18), (-1878077099285229, 18), (1467873595736407, 18), (-2912137887367612, 18),
      (-5946391041994166, 18), (5846295255307214, 18), (2754437934456106, 17), (3215553792765711, 17),
      (-9307391724874753, 33), (-4939727336441362, 17), (-668119358744987, 16), (-2398765916032317, 17),
      (4859569587717262, 17), (850462006720962, 16), (4970803135912121, 17), (-2511578080578382, 17),
      (-7171271781457182, 17), (-5449486540629924, 17), (-1059846213099009, 32), (3806600460362824, 17),
      (3433772787178189, 17), (788136161730928, 17), (-9302425660765975, 18), (-7524438479682679, 18),
      (-5316926762630684, 19), (-1202424693534532, 18), (-6543908087782386, 18)],
     [(-7465005067972839, 18), (-1806875045169975, 18), (1244311069508214, 18), (-3445576246838312, 18),
      (-6343970453295563, 18), (6092133018895591, 18), (2837954585304147, 17), (3289480354611447, 17),
      (-9471898113469897, 33), (-5006132948204453, 17), (-6746994509378768, 17), (-2414701478987061, 17),
      (4877408957909527, 17), (8511604595541503, 17), (4960882452663259, 17), (-2499359078377847, 17),
      (-7114759667866438, 17), (-5388660891014452, 17), (-1044070708121339, 32), (3732983466338825, 17),
      (3347685378844138, 17), (7619034909520335, 18), (-8861790619129208, 18), (-6905488874715352, 18),
      (-2553778401169543, 19), (-1300313243781555, 18), (-6707227198035079, 18)]]"

definition pulseshaper_1200_re_1 :: "(int \<times> nat) list list" where
  "pulseshaper_1200_re_1 =
    [[(-7364447741685804, 18), (-1731941708132407, 18), (1013217582474174, 18), (-399150492373362, 17),
      (-6748029770305962, 18), (6340579371912411, 18), (2921935812657011, 17), (3363455729623882, 17),
      (-9635657228683533, 33), (-5071831489659669, 17), (-6811558394172623, 17), (-2430127505591048, 17),
      (4894139190831077, 17), (8516596030589343, 17), (4949811212270393, 17), (-2486588997880067, 17),
      (-7056833543418128, 17), (-5326949459825976, 17), (-1028177099113009, 32), (3659228369088954, 17),
      (3261865735914136, 17), (7358800770004579, 18), (-8426954816924166, 18), (-6298440569939832, 18),
      (1341828774326504, 20), (-1394318438393171, 18), (-6859740993878769, 18)],
     [(-725379082613013, 17), (-1653246766533237, 18), (7745840319952023, 19), (-4549845826900349, 18),
      (-7158466843826594, 18), (6591553362116712, 18), (3006349923914307, 17), (3437449215966786, 17),
      (-9798596528543023, 33), (-5136792495007407, 17), (-6874854328928508, 17), (-2445036449750885, 17),
      (4909751997008647, 17), (8519591886436187, 17), (4937594916996536, 17), (-2473274125483359, 17),
      (-6997521424110435, 17), (-5264381289984874, 17), (-1012172576239799, 32), (3585366712378853, 17),
      (3176347710850378, 17), (7100750118658906, 18), (-7998042863573165, 18), (-5703411817748979, 18),
      (2746823933958224, 19), (-1484460525554665, 18), (-7001581060575282, 18)],
     [(-7132883907769114, 18), (-1570761839614261, 18), (528405719592397, 18), (-5120512841183933, 18),
      (-7575174957836724, 18), (6844971964349447, 18), (309116475969112, 16), (35114299076838, 15),
      (-9960643511992926, 33), (-5200985745866338, 17), (-6936851942381231, 17), (-2459421008260457, 17),
      (4924239635119943, 17), (8520590670887379, 17), (4924239635120119, 17), (-2459421008260545, 17),
      (-6936851942381471, 17), (-5200985745866513, 17), (-9960643511993262, 33), (351142990768391, 16),
      (3091164759691217, 17), (6844971964349649, 18), (-7575174957836939, 18), (-5120512841184068, 18),
      (5284057195924069, 19), (-1570761839614301, 18), (-7132883907769295, 18)],
     [(-7001581060575105, 18), (-1484460525554627, 18), (2746823933958125, 19), (-5703411817748833, 18),
      (-7998042863572948, 18), (7100750118658694, 18), (317634771085028, 16), (3585366712378741, 17),
      (-1012172576239765, 32), (-5264381289984697, 17), (-6997521424110197, 17), (-247327412548327, 16),
      (4937594916996358, 17), (8519591886436498, 17), (4909751997008822, 17), (-2445036449750971, 17),
      (-6874854328928744, 17), (-5136792495007581, 17), (-9798596528543352, 33), (3437449215966895, 17),
      (3006349923914399, 17), (6591553362116903, 18), (-7158466843826788, 18), (-4549845826900461, 18),
      (7745840319952275, 19), (-165324676653328, 17), (-7253790826130315, 18)]]"

definition pulseshaper_1200_re_2 :: "(int \<times> nat) list list" where
  "pulseshaper_1200_re_2 =
    [[(-6859740993878591, 18), (-1394318438393134, 18), (1341828774326068, 20), (-6298440569939679, 18),
      (-8426954816923937, 18), (7358800770004358, 18), (3261865735914036, 17), (3659228369088839, 17),
      (-1028177099112975, 32), (-5326949459825798, 17), (-7056833543417887, 17), (-2486588997879979, 17),
      (4949811212270218, 17), (8516596030589653, 17), (489413919083125, 16), (-2430127505591134, 17),
      (-6811558394172858, 17), (-507183148965984, 16), (-9635657228683852, 33), (3363455729623987, 17),
      (29219358126571, 15), (6340579371912593, 18), (-674802977030614, 17), (-3991504923733709, 18),
      (1013217582474204, 18), (-1731941708132453, 18), (-7364447741685992, 18)],
     [(-6707227198034913, 18), (-130031324378152, 17), (-255377840116949, 18), (-6905488874715177, 18),
      (-886179061912896, 17), (7619034909520104, 18), (3347685378844033, 17), (3732983466338707, 17),
      (-1044070708121304, 32), (-5388660891014271, 17), (-7114759667866194, 17), (-2499359078377759, 17),
      (4960882452663081, 17), (8511604595541809, 17), (4877408957909699, 17), (-2414701478987147, 17),
      (-6746994509378997, 17), (-5006132948204622, 17), (-9471898113470211, 33), (3289480354611549, 17),
      (2837954585304234, 17), (6092133018895765, 18), (-6343970453295732, 18), (-3445576246838387, 18),
      (1244311069508243, 18), (-1806875045170022, 18), (-7465005067973025, 18)],
     [(-6543908087782224, 18), (-1202424693534502, 18), (-5316926762630546, 19), (-7524438479682476, 18),
      (-9302425660765709, 18), (7881361617309039, 18), (3433772787178082, 17), (3806600460362703, 17),
      (-1059846213098973, 32), (-544948654062974, 16), (-7171271781456932, 17), (-2511578080578292, 17),
      (4970803135911943, 17), (8504620067209927, 17), (4859569587717436, 17), (-2398765916032403, 17),
      (-6681193587450099, 17), (-493972733644153, 16), (-9307391724875058, 33), (3215553792765811, 17),
      (2754437934456191, 17), (5846295255307382, 18), (-5946391041994325, 18), (-291213788736768, 17),
      (1467873595736441, 18), (-1878077099285276, 18), (-7555617556132885, 18)],
     [(-6369657143165848, 18), (-1100634658943051, 18), (-8155083193184943, 19), (-8155163115755502, 18),
      (-9748730969010402, 18), (8145688106748433, 18), (3520093730511958, 17), (3880047693483177, 17),
      (-1075496449778047, 32), (-5509397705334645, 17), (-7226342502443216, 17), (-2523239982801245, 17),
      (4979568329330353, 17), (849564592362185, 16), (4840629912524213, 17), (-2382328600873901, 17),
      (-6614187063405716, 17), (-4872645348764797, 17), (-9142210602401896, 33), (3141706524327494, 17),
      (2671417069286836, 17), (5603144923945475, 18), (-5555389088024186, 18), (-2391259927657692, 18),
      (1683918622707139, 18), (-1945580093844064, 18), (-7636444143080606, 18)]]"

definition pulseshaper_1200_re :: "(int \<times> nat) list list" where
  "pulseshaper_1200_re = pulseshaper_1200_re_0 @ pulseshaper_1200_re_1 @ pulseshaper_1200_re_2"

definition pulseshaper_1200_im_0 :: "(int \<times> nat) list list" where
  "pulseshaper_1200_im_0 =
    [[(-2504366581155903, 18), (-618435304790501, 17), (-2604753128588713, 18), (-6918046161050846, 34),
      (-7117350077502472, 18), (-1650487423642093, 17), (-8411919770277398, 18), (2229009801024438, 17),
      (4886539393015176, 17), (349097719010716, 16), (-2126926565220775, 17), (-7279945100758585, 17),
      (-6634985724687398, 17), (0, 0), (6864255677769839, 17), (7799893516284959, 17), (2365397550730799, 17),
      (-404565473906911, 16), (-5939205137406577, 17), (-2872235789960626, 17), (1171859801617061, 17),
      (258892269930226, 16), (1403988461096061, 17), (3232159541058477, 33), (-1523382610141771, 18),
      (3062070949694336, 18), (20094181137224, 16)],
     [(-2481231111269254, 18), (-5987879825079609, 18), (-2317715147838764, 18), (-8785346449005798, 34),
      (-7646337101939133, 18), (-1724470688883357, 17), (-8679960226640519, 18), (2282583400435764, 17),
      (4976787652171367, 17), (3540184069765018, 17), (-2149079651469331, 17), (-73320535150511, 15),
      (-6662555495290046, 17), (0, 0), (6853787820241392, 17), (7765734155410044, 17), (2347981010768873, 17),
      (-40028117366209, 15), (-585472998161258, 16), (-2819019660004727, 17), (1143747785629338, 17),
      (2506985018510464, 17), (1341797705328373, 17), (2996158321870438, 33), (-112245090670382, 17),
      (3387405170273622, 18), (2069627064065265, 18)],
     [(-2454968961190656, 18), (-5780126970016011, 18), (-20203546787086, 16), (-1069902102732144, 33),
      (-8184505122252519, 18), (-1799304666072479, 17), (-8949711369558711, 18), (2336236581533227, 17),
      (5066708067095984, 17), (3588921986675294, 17), (-2170851390907454, 17), (-738264236930978, 16),
      (-6688623721805595, 17), (0, 0), (6841723566490858, 17), (7729842510926309, 17), (2330087448834681, 17),
      (-3959283727560452, 17), (-5769534061232539, 17), (-2765657121578378, 17), (1115700410942756, 17),
      (2425633690011768, 17), (1280369049600541, 17), (2764433849857371, 33), (-7318121868554194, 19),
      (3700682683984233, 18), (2126244628058315, 18)],
     [(-2425527179062845, 18), (-5560989580252432, 18), (-1712647259513254, 18), (-1265884176572607, 33),
      (-8731726235919333, 18), (-1874965749853672, 17), (-9221073417798062, 18), (2389947372663373, 17),
      (5156261174005219, 17), (3637168487719392, 17), (-2192231406472437, 17), (-7431686989071215, 17),
      (-6713177508410821, 17), (0, 0), (6828068917428402, 17), (7692236289013016, 17), (2311725550053297, 17),
      (-3915091306321259, 17), (-5683656211996588, 17), (-2712171244636026, 17), (1087728916377378, 17),
      (2344897831019426, 17), (121972083911705, 16), (2537035454090344, 33), (-3514974420259535, 19),
      (4001952663557449, 18), (2179310223750649, 18)]]"

definition pulseshaper_1200_im_1 :: "(int \<times> nat) list list" where
  "pulseshaper_1200_im_1 =
    [[(-2392854123151668, 18), (-5330368482466303, 18), (-1394574362020963, 18), (-1466455118589383, 33),
      (-9287866174650378, 18), (-1951429674908782, 17), (-9493944966605654, 18), (2443693628635052, 17),
      (5245407484232599, 17), (368490127211453, 16), (-2213209484307273, 17), (-7479163417194334, 17),
      (-6736204698529313, 17), (0, 0), (6812830662314473, 17), (7652934022496596, 17), (2292904211293603, 17),
      (-3870255327098755, 17), (-5597135434362877, 17), (-2658585029826824, 17), (1059844424065746, 17),
      (2264805998319564, 17), (115987082546419, 16), (2314009525078994, 33), (1846868865350993, 20),
      (4291270903422575, 18), (2228864959967508, 18)],
     [(-2356899511763249, 18), (-5088170356247573, 18), (-1066123457523861, 18), (-1671586238558236, 33),
      (-9852784342135275, 18), (-2028671526699877, 17), (-9768223040480568, 18), (2497453043258556, 17),
      (5334107507767512, 17), (3732098205161646, 17), (-2233775580200932, 17), (-7525048429191729, 17),
      (-6757693882679941, 17), (0, 0), (6796016374364397, 17), (7611955058921657, 17), (2273632535505217, 17),
      (-3824796890809732, 17), (-5510010869770851, 17), (-2604921395038003, 17), (1032057933339591, 17),
      (2185386174179172, 17), (110083615965756, 16), (2095399508047642, 33), (3780678801417601, 19),
      (4568699721086125, 18), (2274951591352195, 18)],
     [(-231761447257693, 17), (-4834307854603934, 18), (-7272880791205352, 19), (-1881245898284647, 33),
      (-1042633385637246, 17), (-2106665752710443, 17), (-1004380314724703, 17), (255120316204222, 16),
      (5422321776873634, 17), (3778737331921576, 17), (-2253919825931157, 17), (-7569319548106174, 17),
      (-6777634405846658, 17), (0, 0), (6777634405846901, 17), (7569319548106444, 17), (2253919825931235, 17),
      (-3778737331921703, 17), (-5422321776873817, 17), (-25512031620423, 15), (1004380314724734, 17),
      (2106665752710505, 17), (1042633385637276, 17), (1881245898284697, 33), (727288079120549, 18),
      (4834307854604057, 18), (2317614472576989, 18)],
     [(-2274951591352137, 18), (-4568699721086008, 18), (-3780678801417465, 19), (-2095399508047589, 33),
      (-1100836159657531, 17), (-2185386174179107, 17), (-1032057933339559, 17), (2604921395037922, 17),
      (5510010869770665, 17), (3824796890809604, 17), (-227363253550514, 16), (-7611955058921385, 17),
      (-6796016374364151, 17), (0, 0), (6757693882680181, 17), (7525048429191995, 17), (2233775580201009, 17),
      (-3732098205161772, 17), (-5334107507767691, 17), (-2497453043258635, 17), (9768223040480866, 18),
      (2028671526699936, 17), (9852784342135542, 18), (1671586238558277, 33), (1066123457523895, 18),
      (5088170356247704, 18), (2356899511763308, 18)]]"

definition pulseshaper_1200_im_2 :: "(int \<times> nat) list list" where
  "pulseshaper_1200_im_2 =
    [[(-2228864959967451, 18), (-4291270903422462, 18), (-1846868865350394, 20), (-2314009525078937, 33),
      (-1159870825464158, 17), (-2264805998319497, 17), (-1059844424065713, 17), (265858502982674, 16),
      (5597135434362689, 17), (3870255327098625, 17), (-2292904211293524, 17), (-7652934022496324, 17),
      (-681283066231423, 16), (0, 0), (6736204698529551, 17), (7479163417194601, 17), (2213209484307349, 17),
      (-3684901272114655, 17), (-5245407484232772, 17), (-2443693628635128, 17), (9493944966605944, 18),
      (1951429674908838, 17), (9287866174650624, 18), (1466455118589416, 33), (1394574362021004, 18),
      (5330368482466447, 18), (239285412315173, 17)],
     [(-2179310223750595, 18), (-4001952663557342, 18), (3514974420259463, 19), (-2537035454090279, 33),
      (-1219720839117015, 17), (-2344897831019354, 17), (-1087728916377344, 17), (2712171244635941, 17),
      (5683656211996397, 17), (3915091306321127, 17), (-2311725550053218, 17), (-7692236289012745, 17),
      (-6828068917428158, 17), (0, 0), (6713177508411057, 17), (743168698907148, 16), (2192231406472511, 17),
      (-3637168487719516, 17), (-515626117400539, 16), (-2389947372663447, 17), (9221073417798346, 18),
      (1874965749853725, 17), (8731726235919567, 18), (1265884176572634, 33), (1712647259513294, 18),
      (5560989580252577, 18), (2425527179062905, 18)],
     [(-2126244628058263, 18), (-3700682683984142, 18), (7318121868554004, 19), (-2764433849857296, 33),
      (-1280369049600504, 17), (-2425633690011693, 17), (-1115700410942722, 17), (276565712157829, 16),
      (5769534061232343, 17), (3959283727560318, 17), (-23300874488346, 15), (-7729842510926034, 17),
      (-6841723566490611, 17), (0, 0), (6688623721805834, 17), (7382642369310044, 17), (2170851390907528, 17),
      (-3588921986675415, 17), (-506670806709615, 16), (-23362365815333, 15), (8949711369558988, 18),
      (179930466607253, 16), (8184505122252737, 18), (1069902102732169, 33), (2020354678708648, 18),
      (5780126970016157, 18), (2454968961190715, 18)],
     [(-2069627064065213, 18), (-3387405170273532, 18), (1122450906703807, 18), (-2996158321870359, 33),
      (-1341797705328335, 17), (-2506985018510388, 17), (-1143747785629303, 17), (2819019660004638, 17),
      (5854729981612383, 17), (4002811736620766, 17), (-234798101076879, 16), (-7765734155409765, 17),
      (-6853787820241146, 17), (0, 0), (6662555495290286, 17), (7332053515051361, 17), (2149079651469404, 17),
      (-3540184069765138, 17), (-4976787652171526, 17), (-2282583400435834, 17), (8679960226640788, 18),
      (1724470688883406, 17), (7646337101939336, 18), (8785346449005972, 34), (2317715147838823, 18),
      (5987879825079768, 18), (2481231111269311, 18)]]"

definition pulseshaper_1200_im :: "(int \<times> nat) list list" where
  "pulseshaper_1200_im = pulseshaper_1200_im_0 @ pulseshaper_1200_im_1 @ pulseshaper_1200_im_2"

definition pulseshaper_2400_re_0 :: "(int \<times> nat) list list" where
  "pulseshaper_2400_re_0 =
    [[(-6556516829755513, 18), (5260724919334801, 18), (9949271628182611, 19), (1883004461876262, 18),
      (-2718585819774251, 18), (-1403988461096021, 17), (2202269186922346, 17), (1171859801617025, 17),
      (-4886539393015176, 17), (1835315320537568, 17), (5568366039323058, 17), (-6192691184718763, 17),
      (-2534339031960233, 17), (8484686632662104, 17), (-2621912361438632, 17), (-6634985724687635, 17),
      (6192691184718983, 17), (2126926565220849, 17), (-5939205137406577, 17), (1510023716124376, 17),
      (3067968790683179, 17), (-2202269186922412, 17), (-536275872326037, 17), (879752851545668, 17),
      (-5818803792036249, 19), (2604753128588787, 18), (-5260724919334933, 18)],
     [(-6495947383246565, 18), (5093594813518842, 18), (8852884102339185, 19), (2391259927657645, 18),
      (-2920640883501384, 18), (-1466922385478027, 17), (2272443089434215, 17), (1200025109615766, 17),
      (-4976787652171367, 17), (1861184908104006, 17), (5626363572077485, 17), (-6237017249458634, 17),
      (-2544869747268406, 17), (8495645923621545, 17), (-2617913995652156, 17), (-66059280367466, 15),
      (614709409113224, 16), (2104402665897229, 17), (-585472998161258, 16), (1482046340939984, 17),
      (2994370577335038, 17), (-213256883252238, 16), (-5125211174088235, 18), (8155163115755716, 18),
      (-428738095657721, 18), (2881498946309138, 18), (-5418353997759509, 18)],
     [(-6427192181723145, 18), (4916869679421549, 18), (7717068179368102, 19), (2912137887367612, 18),
      (-3126202775602854, 18), (-1530579968666151, 17), (234306485550061, 16), (1228232256182864, 17),
      (-5066708067095984, 17), (1886807947363615, 17), (5683362725920697, 17), (-6280050699227384, 17),
      (-2554826923770915, 17), (850462006720962, 16), (-2613305860768356, 17), (-6575396780353428, 17),
      (6100248137808725, 17), (2081518637285548, 17), (-5769534061232539, 17), (14539919942676, 15),
      (2920941597110364, 17), (-2063367259174451, 17), (-4890574588040074, 18), (7524438479682679, 18),
      (-2795273819973806, 19), (3147988716585586, 18), (-5566580704653536, 18)],
     [(-6350112595423166, 18), (4730460281679004, 18), (6541730423946999, 19), (3445576246838312, 18),
      (-3335222641662008, 18), (-1594941130745414, 17), (2414108362055351, 17), (1256469690136514, 17),
      (-5156261174005219, 17), (1912172634013386, 17), (5739336333349823, 17), (-6321770544672768, 17),
      (-25642056357016, 15), (8511604595541503, 17), (-260809024893095, 16), (-6543407017283819, 17),
      (6052176062701076, 17), (205828530652023, 16), (-5683656211996588, 17), (142587280470003, 16),
      (2847711273622072, 17), (-1994689235459619, 17), (-4658919037561715, 18), (6905488874715352, 18),
      (-1342600758952683, 19), (3404264268241745, 18), (-5705508237809325, 18)]]"

definition pulseshaper_2400_re_1 :: "(int \<times> nat) list list" where
  "pulseshaper_2400_re_1 =
    [[(-6264573424531381, 18), (4534282258424199, 18), (5326800064528062, 19), (399150492373362, 17),
      (-3547649195755984, 18), (-1659985230403313, 17), (2485547060989462, 17), (1284725769060745, 17),
      (-5245407484232599, 17), (1937267243837984, 17), (5794257654140065, 17), (-6362156406633367, 17),
      (-2573001239661458, 17), (8516596030589343, 17), (-260226975340667, 16), (-650997451250156, 16),
      (6002901158114421, 17), (2034713637300632, 17), (-5597135434362877, 17), (1397700864394134, 17),
      (2774708724991182, 17), (-1926559053231086, 17), (-4430312327679242, 18), (6298440569939832, 18),
      (7054411338001249, 21), (3650373062854004, 18), (-5835244221528597, 18)],
     [(-6170443029864203, 18), (4328256226574886, 18), (4072229245705591, 19), (4549845826900349, 18),
      (-3763428734872909, 18), (-1725691074068017, 17), (2557353992966799, 17), (1312988765897633, 17),
      (-5334107507767512, 17), (1962080139937456, 17), (5848100392205556, 17), (-6401188529180192, 17),
      (-2581209377616492, 17), (8519591886436187, 17), (-2595847266906369, 17), (-6475115724011109, 17),
      (5952447255880259, 17), (2010814723035207, 17), (-5510010869770851, 17), (1369488221996252, 17),
      (2701962747842026, 17), (-1859000515626884, 17), (-420481996944283, 17), (5703411817748979, 18),
      (1444090801595306, 19), (3886368110859653, 18), (-5955900588920694, 18)],
     [(-6067593462025051, 18), (4112307884341454, 18), (2777993266114211, 19), (5120512841183933, 18),
      (-3982505155080521, 18), (-1792036925470696, 17), (2629501801580592, 17), (1341246875622304, 17),
      (-5422321776873634, 17), (198659977991722, 16), (5900838712205012, 17), (-6438847792271414, 17),
      (-2588825979712724, 17), (8520590670887379, 17), (-2588825979712816, 17), (-6438847792271644, 17),
      (5900838712205216, 17), (1986599779917287, 17), (-5422321776873817, 17), (1341246875622346, 17),
      (2629501801580673, 17), (-1792036925470749, 17), (-3982505155080635, 18), (5120512841184068, 18),
      (2777993266114263, 19), (4112307884341558, 18), (-6067593462025205, 18)],
     [(-5955900588920543, 18), (3886368110859554, 18), (1444090801595254, 19), (5703411817748833, 18),
      (-4204819969442716, 18), (-1859000515626829, 17), (2701962747841943, 17), (1369488221996209, 17),
      (-5510010869770665, 17), (201081472303514, 16), (5952447255880056, 17), (-6475115724010877, 17),
      (-2595847266906276, 17), (8519591886436498, 17), (-2581209377616584, 17), (-640118852918042, 16),
      (5848100392205757, 17), (1962080139937523, 17), (-5334107507767691, 17), (1312988765897674, 17),
      (2557353992966878, 17), (-1725691074068067, 17), (-3763428734873011, 18), (4549845826900461, 18),
      (4072229245705723, 19), (4328256226574997, 18), (-617044302986436, 17)]]"

definition pulseshaper_2400_re_2 :: "(int \<times> nat) list list" where
  "pulseshaper_2400_re_2 =
    [[(-5835244221528446, 18), (3650373062853907, 18), (7054411337998957, 21), (6298440569939679, 18),
      (-4430312327679122, 18), (-1926559053231028, 17), (2774708724991097, 17), (139770086439409, 16),
      (-5597135434362689, 17), (2034713637300564, 17), (6002901158114216, 17), (-6509974512501328, 17),
      (-2602269753406578, 17), (8516596030589653, 17), (-2573001239661549, 17), (-6362156406633593, 17),
      (5794257654140264, 17), (193726724383805, 16), (-5245407484232772, 17), (1284725769060785, 17),
      (2485547060989537, 17), (-1659985230403361, 17), (-3547649195756078, 18), (3991504923733709, 18),
      (5326800064528218, 19), (4534282258424322, 18), (-6264573424531541, 18)],
     [(-5705508237809184, 18), (3404264268241654, 18), (-1342600758952655, 19), (6905488874715177, 18),
      (-4658919037561585, 18), (-1994689235459558, 17), (2847711273621983, 17), (1425872804699985, 17),
      (-5683656211996397, 17), (205828530652016, 16), (6052176062700869, 17), (-6543407017283588, 17),
      (-2608090248930856, 17), (8511604595541809, 17), (-256420563570169, 16), (-6321770544672993, 17),
      (5739336333350018, 17), (1912172634013451, 17), (-515626117400539, 16), (1256469690136553, 17),
      (2414108362055425, 17), (-1594941130745459, 17), (-3335222641662097, 18), (3445576246838387, 18),
      (6541730423947153, 19), (4730460281679129, 18), (-6350112595423325, 18)],
     [(-5566580704653399, 18), (3147988716585508, 18), (-2795273819973733, 19), (7524438479682476, 18),
      (-4890574588039934, 18), (-2063367259174387, 17), (2920941597110273, 17), (1453991994267554, 17),
      (-5769534061232343, 17), (2081518637285477, 17), (6100248137808512, 17), (-6575396780353195, 17),
      (-2613305860768262, 17), (8504620067209927, 17), (-2554826923771007, 17), (-6280050699227609, 17),
      (5683362725920892, 17), (1886807947363679, 17), (-506670806709615, 16), (1228232256182903, 17),
      (2343064855500683, 17), (-1530579968666195, 17), (-3126202775602938, 18), (291213788736768, 17),
      (7717068179368283, 19), (4916869679421672, 18), (-64271921817233, 16)],
     [(-5418353997759372, 18), (288149894630906, 17), (-4287380956577162, 19), (8155163115755502, 18),
      (-512521117408809, 17), (-2132568832522315, 17), (2994370577334946, 17), (1482046340939938, 17),
      (-5854729981612383, 17), (2104402665897158, 17), (6147094091132024, 17), (-6605928036746363, 17),
      (-2617913995652062, 17), (849564592362185, 16), (-2544869747268498, 17), (-6237017249458857, 17),
      (5626363572077676, 17), (1861184908104068, 17), (-4976787652171526, 17), (1200025109615803, 17),
      (2272443089434285, 17), (-1466922385478068, 17), (-2920640883501462, 18), (2391259927657692, 18),
      (8852884102339412, 19), (5093594813518979, 18), (-6495947383246715, 18)]]"

definition pulseshaper_2400_re :: "(int \<times> nat) list list" where
  "pulseshaper_2400_re = pulseshaper_2400_re_0 @ pulseshaper_2400_re_1 @ pulseshaper_2400_re_2"

definition pulseshaper_2400_im_0 :: "(int \<times> nat) list list" where
  "pulseshaper_2400_im_0 =
    [[(-4763588312400274, 18), (-3822140382034298, 18), (3062070949694253, 18), (1383609232210169, 33),
      (8366946821917283, 18), (-1020057325815061, 17), (-160004222241487, 16), (3606613619314181, 17),
      (-1795285447969046, 32), (-5648519747543988, 17), (4045654739068975, 17), (4499253508502082, 17),
      (-779989351628468, 16), (0, 0), (8069416510715972, 17), (-4820599301694035, 17), (-4499253508502245, 17),
      (6546006874560907, 17), (2182028568301344, 32), (-4647375131860196, 17), (2229009801024504, 17),
      (1600042222414922, 17), (-1650487423642138, 17), (-6464319082116953, 33), (1790843663680295, 18),
      (1892463922874767, 18), (3822140382034408, 18)],
     [(-4719582033613778, 18), (-3700713252448968, 18), (2724637565828991, 18), (175706928980116, 32),
      (8988808365153178, 18), (-1065781498332861, 17), (-1651026546945845, 17), (3693297524061377, 17),
      (-1828442120480321, 32), (-5728138151310729, 17), (408779241313445, 16), (4531458279634717, 17),
      (-7832303725423326, 17), (0, 0), (8057110806159332, 17), (-4799487655639364, 17), (-4466125280858036, 17),
      (6476685440419609, 17), (2150992899556166, 32), (-456126962484182, 16), (2175537569041868, 17),
      (1549401950726252, 17), (-1577377805503798, 17), (-5992316643740875, 33), (131952017876564, 17),
      (2093531528896221, 18), (3936664611160155, 18)],
     [(-4669628455685434, 18), (-3572314926759835, 18), (2375069369090028, 18), (2139804205464288, 33),
      (9621462816344465, 18), (-1112031439749073, 17), (-1702336263395927, 17), (3780110194681626, 17),
      (-1861478344974951, 32), (-5806997757412424, 17), (4129204722461864, 17), (4562723911018497, 17),
      (-7862948763621845, 17), (0, 0), (8042928425290376, 17), (-4777305399436289, 17), (-4432089703503548, 17),
      (6406255642297191, 17), (2119692426198017, 32), (-4474927223942015, 17), (2122188292120578, 17),
      (14991240646841, 15), (-1505164089693855, 17), (-5528867699714742, 33), (8602968217630388, 19),
      (2287147680280439, 18), (4044357617504851, 18)],
     [(-461362685819744, 17), (-343688057168001, 17), (2013337603042023, 18), (2531768353145213, 33),
      (102647598170573, 16), (-1158792561151503, 17), (-1753952392246574, 17), (3867016080292848, 17),
      (-1894379622693979, 32), (-5885062235940033, 17), (4169871928705001, 17), (4593035152996378, 17),
      (-7891813470930821, 17), (0, 0), (8026876422602094, 17), (-4754063476105402, 17), (-4397163296528374, 17),
      (6334750802687024, 17), (2088141416242677, 32), (-4388385257131195, 17), (2068983347766744, 17),
      (1449226559715914, 17), (-1433867842293604, 17), (-5074070908180688, 33), (4132100252827683, 19),
      (2473342767446673, 18), (4145294378653407, 18)]]"

definition pulseshaper_2400_im_1 :: "(int \<times> nat) list list" where
  "pulseshaper_2400_im_1 =
    [[(-455147901273424, 17), (-3294348894725369, 18), (1639420486442214, 18), (2932910237178767, 33),
      (109185415254512, 16), (-1206049865748786, 17), (-1805855645167576, 17), (3953979349223077, 17),
      (-1927131445736707, 32), (-5962295503469036, 17), (4209774603953337, 17), (4622377199240908, 17),
      (-7918883556437591, 17), (0, 0), (8008962779348817, 17), (-4729773339563348, 17), (-4361362982782762, 17),
      (6262204664386128, 17), (2056354198226018, 32), (-4301680940241453, 17), (2015943891533623, 17),
      (1399727084886129, 17), (-1363509931544295, 17), (-4628019050157988, 33), (-2171124563942895, 20),
      (2652151273248616, 18), (423955308823807, 17)],
     [(-4483089277830606, 18), (-3144662220710657, 18), (1253303290911173, 18), (3343172477116472, 33),
      (1158264266065062, 17), (-1253787955509665, 17), (-18580264350547, 15), (4040963909299204, 17),
      (-1959719305708605, 32), (-6038661745304021, 17), (4248893642982169, 17), (4650735696229493, 17),
      (-7944145607492663, 17), (0, 0), (7989196398379111, 17), (-4704446947250292, 17), (-4324706077105819, 17),
      (6188651369395067, 17), (2024345152479599, 32), (-421485135519328, 16), (1963090845393455, 17),
      (1350642934186827, 17), (-1294110519673992, 17), (-4190799016095284, 33), (-4444454486256102, 19),
      (2823611712023386, 18), (4327215070423067, 18)],
     [(-4408364692808489, 18), (-2987766566225812, 18), (8549784141503443, 19), (3762491796569294, 33),
      (1225689055250687, 17), (-1301991038110435, 17), (-1910444886315012, 17), (4127933428390516, 17),
      (-1992128702398585, 32), (-6114125437607203, 17), (428721027531733, 16), (4678096752438608, 17),
      (-7967587098373449, 17), (0, 0), (7967587098373734, 17), (-4678096752438776, 17), (-4287210275317478, 17),
      (6114125437607409, 17), (1992128702398652, 32), (-4127933428390646, 17), (1910444886315071, 17),
      (1301991038110474, 17), (-1225689055250722, 17), (-3762491796569393, 33), (-8549784141503604, 19),
      (2987766566225888, 18), (4408364692808601, 18)],
     [(-4327215070422957, 18), (-2823611712023314, 18), (4444454486255942, 19), (4190799016095177, 33),
      (1294110519673957, 17), (-1350642934186787, 17), (-1963090845393394, 17), (4214851355193148, 17),
      (-202434515247953, 31), (-618865136939486, 16), (4324706077105671, 17), (4704446947250124, 17),
      (-7989196398378824, 17), (0, 0), (7944145607492946, 17), (-4650735696229658, 17), (-4248893642982315, 17),
      (6038661745304226, 17), (195971930570867, 31), (-4040963909299332, 17), (1858026435054757, 17),
      (1253787955509702, 17), (-1158264266065093, 17), (-3343172477116555, 33), (-1253303290911214, 18),
      (3144662220710738, 18), (448308927783072, 17)]]"

definition pulseshaper_2400_im_2 :: "(int \<times> nat) list list" where
  "pulseshaper_2400_im_2 =
    [[(-423955308823796, 17), (-2652151273248545, 18), (2171124563942191, 20), (4628019050157874, 33),
      (1363509931544258, 17), (-1399727084886087, 17), (-2015943891533561, 17), (4301680940241318, 17),
      (-2056354198225949, 32), (-6262204664385919, 17), (4361362982782613, 17), (472977333956318, 16),
      (-8008962779348533, 17), (0, 0), (7918883556437871, 17), (-4622377199241071, 17), (-4209774603953481, 17),
      (5962295503469237, 17), (192713144573677, 31), (-3953979349223199, 17), (1805855645167631, 17),
      (1206049865748821, 17), (-1091854152545148, 17), (-2932910237178832, 33), (-1639420486442262, 18),
      (3294348894725458, 18), (4551479012734356, 18)],
     [(-4145294378653305, 18), (-2473342767446607, 18), (-4132100252827598, 19), (5074070908180559, 33),
      (1433867842293563, 17), (-144922655971587, 16), (-2068983347766679, 17), (4388385257131057, 17),
      (-2088141416242607, 32), (-633475080268681, 16), (4397163296528223, 17), (4754063476105234, 17),
      (-8026876422601807, 17), (0, 0), (7891813470931099, 17), (-4593035152996542, 17), (-4169871928705143, 17),
      (5885062235940232, 17), (1894379622694042, 32), (-3867016080292968, 17), (1753952392246628, 17),
      (1158792561151536, 17), (-1026475981705757, 17), (-2531768353145269, 33), (-201333760304207, 17),
      (34368805716801, 16), (4613626858197556, 18)],
     [(-4044357617504751, 18), (-2287147680280383, 18), (-8602968217630166, 19), (5528867699714592, 33),
      (1505164089693812, 17), (-1499124064684054, 17), (-2122188292120512, 17), (4474927223941873, 17),
      (-2119692426197945, 32), (-6406255642296975, 17), (4432089703503394, 17), (4777305399436119, 17),
      (-8042928425290087, 17), (0, 0), (7862948763622125, 17), (-456272391101866, 16), (-4129204722462006, 17),
      (5806997757412621, 17), (1861478344975012, 32), (-3780110194681744, 17), (170233626339598, 16),
      (1112031439749104, 17), (-9621462816344723, 18), (-2139804205464339, 33), (-2375069369090084, 18),
      (3572314926759924, 18), (4669628455685546, 18)],
     [(-3936664611160055, 18), (-2093531528896165, 18), (-1319520178765626, 18), (5992316643740719, 33),
      (1577377805503753, 17), (-1549401950726206, 17), (-2175537569041801, 17), (4561269624841677, 17),
      (-2150992899556094, 32), (-6476685440419391, 17), (4466125280857879, 17), (4799487655639192, 17),
      (-8057110806159043, 17), (0, 0), (7832303725423607, 17), (-4531458279634878, 17), (-408779241313459, 16),
      (5728138151310922, 17), (1828442120480379, 32), (-369329752406149, 16), (1651026546945896, 17),
      (1065781498332891, 17), (-8988808365153417, 18), (-1757069289801194, 33), (-272463756582906, 17),
      (3700713252449067, 18), (4719582033613887, 18)]]"

definition pulseshaper_2400_im :: "(int \<times> nat) list list" where
  "pulseshaper_2400_im = pulseshaper_2400_im_0 @ pulseshaper_2400_im_1 @ pulseshaper_2400_im_2"

definition coeff :: "('f, 'd) fp \<Rightarrow> (int \<times> nat) list list \<Rightarrow> nat \<Rightarrow> nat \<Rightarrow> 'f" where
  "coeff F t i j = (case t ! i ! j of (m, k) \<Rightarrow> fp_lit F m (10 ^ k))"

definition with_tables :: "('f, 'd) fp \<Rightarrow> ('f, 'd) fp" where
  "with_tables F = F\<lparr>tab_tx := coeff F pulseshaper_tx, tab_1200_re := coeff F pulseshaper_1200_re,
     tab_1200_im := coeff F pulseshaper_1200_im, tab_2400_re := coeff F pulseshaper_2400_re,
     tab_2400_im := coeff F pulseshaper_2400_im\<rparr>"

subsection \<open>Shapes and size of the coefficients\<close>

lemmas pulseshaper_tx_parts = pulseshaper_tx_0_def pulseshaper_tx_1_def pulseshaper_tx_2_def pulseshaper_tx_3_def

lemma pulseshaper_tx_shape: "length pulseshaper_tx = 40 \<and> list_all (\<lambda>r. length r = 9) pulseshaper_tx"
  by code_simp

text \<open>The sum of a phase's magnitudes, in units of \<open>10 ^ -24\<close>, is at most 3/2.\<close>

definition row_sum :: "(int \<times> nat) list \<Rightarrow> int" where
  "row_sum r = sum_list (map (\<lambda>(m, k). \<bar>m\<bar> * 10 ^ (24 - k)) r)"

lemma pulseshaper_tx_sums: "list_all (\<lambda>r. row_sum r \<le> 1500000000000000000000000 \<and> list_all (\<lambda>(m, k). k \<le> 24) r) pulseshaper_tx"
  by code_simp

lemma rx_shapes:
  "map length pulseshaper_1200_re = replicate 12 27" "map length pulseshaper_1200_im = replicate 12 27"
  "map length pulseshaper_2400_re = replicate 12 27" "map length pulseshaper_2400_im = replicate 12 27"
  by code_simp+

end
