(* ===== verification/V22_Level.thy ===== *)
theory V22_Level
  imports Filters V22_Link
begin

text \<open>
  The level of the transmitter's output with the pulse shaper's real table and exact arithmetic: at
  its default power no sample is ever clipped, whatever bits are sent.
\<close>

definition modem_fp :: "(real, real) fp" where
  "modem_fp = with_tables plain_fp"

lemma modem_fp_simps:
  "fp_add modem_fp = (+)" "fp_sub modem_fp = (-)" "fp_mul modem_fp = (*)" "fp_div modem_fp = (/)"
  "fp_lit modem_fp n d = of_int n / of_int d" "fp_of_int modem_fp = of_int" "fp_le modem_fp = (\<le>)" "fp_lrint modem_fp = round"
  "fp_cos modem_fp = cos" "fp_sin modem_fp = sin" "fp_pow10 modem_fp x = 10 powr x" "fp_to_int modem_fp = c_trunc"
  "tab_tx modem_fp = coeff plain_fp pulseshaper_tx"
  by (simp_all add: modem_fp_def with_tables_def plain_fp_def exact_fp_def)

lemma coeff_value: "coeff plain_fp t i j = of_int (fst (t ! i ! j)) / 10 ^ snd (t ! i ! j)"
  by (simp add: coeff_def plain_fp_def exact_fp_def split_beta)

lemma row_sum_value:
  assumes "list_all (\<lambda>(m, k). k \<le> 24) r"
  shows "(\<Sum>j < length r. \<bar>of_int (fst (r ! j)) / 10 ^ snd (r ! j) :: real\<bar>) = of_int (row_sum r) / 10 ^ 24"
  using assms
proof (induction r)
  case (Cons p r)
  obtain m k where p: "p = (m, k)" by fastforce
  with Cons.prems have k: "k \<le> 24" by simp
  have e: "(10 :: real) ^ 24 = 10 ^ (24 - k) * 10 ^ k" using k by (simp flip: power_add)
  have "\<bar>of_int m / 10 ^ k :: real\<bar> = of_int (\<bar>m\<bar> * 10 ^ (24 - k)) / 10 ^ 24"
    unfolding e by (simp add: field_simps)
  moreover have "(\<Sum>j < length r. \<bar>of_int (fst (r ! j)) / 10 ^ snd (r ! j) :: real\<bar>) = of_int (row_sum r) / 10 ^ 24"
    using Cons by simp
  moreover have "(\<Sum>j < length (p # r). \<bar>of_int (fst ((p # r) ! j)) / 10 ^ snd ((p # r) ! j) :: real\<bar>)
      = \<bar>of_int m / 10 ^ k\<bar> + (\<Sum>j < length r. \<bar>of_int (fst (r ! j)) / 10 ^ snd (r ! j)\<bar>)"
    by (simp only: length_Cons sum.lessThan_Suc_shift) (simp add: p)
  moreover have "of_int (row_sum (p # r)) / 10 ^ 24 = (of_int (\<bar>m\<bar> * 10 ^ (24 - k)) / 10 ^ 24 + of_int (row_sum r) / 10 ^ 24 :: real)"
    by (simp only: row_sum_def p list.map sum_list.Cons case_prod_conv of_int_add add_divide_distrib)
  ultimately show ?case by (simp only:)
qed (simp add: row_sum_def)

lemma phase_sum:
  assumes "p < 40"
  shows "(\<Sum>j < 9. \<bar>tab_tx modem_fp p j\<bar>) \<le> 3 / 2"
proof -
  let ?r = "pulseshaper_tx ! p"
  have r: "length ?r = 9" "row_sum ?r \<le> 1500000000000000000000000" "list_all (\<lambda>(m, k). k \<le> 24) ?r"
    using pulseshaper_tx_shape pulseshaper_tx_sums assms by (auto simp: list_all_length)
  have "(of_int (row_sum ?r) :: real) \<le> of_int 1500000000000000000000000" using r(2) by (simp only: of_int_le_iff)
  then have "of_int (row_sum ?r) / 10 ^ 24 \<le> (3 / 2 :: real)" by simp
  with row_sum_value [OF r(3)] show ?thesis by (simp add: r(1) modem_fp_simps coeff_value)
qed

lemma mac_bound:
  assumes "\<forall>j < 9. \<bar>buf j\<bar> \<le> 3" and "step < 9"
  shows "\<bar>mac modem_fp buf cf 9 n i step acc\<bar> \<le> \<bar>acc\<bar> + 3 * (\<Sum>j = i..<i + n. \<bar>cf j\<bar>)"
  using assms(2)
proof (induction n arbitrary: i step acc)
  case (Suc n)
  let ?s = "if Suc step \<ge> 9 then 0 else Suc step"
  have "\<bar>buf step * cf i\<bar> \<le> 3 * \<bar>cf i\<bar>"
    using assms(1) Suc.prems by (simp add: abs_mult mult_right_mono)
  moreover have "\<bar>acc + buf step * cf i\<bar> \<le> \<bar>acc\<bar> + \<bar>buf step * cf i\<bar>" by (rule abs_triangle_ineq)
  moreover have "\<bar>mac modem_fp buf cf 9 n (Suc i) ?s (acc + buf step * cf i)\<bar>
      \<le> \<bar>acc + buf step * cf i\<bar> + 3 * (\<Sum>j = Suc i..<Suc i + n. \<bar>cf j\<bar>)"
    using Suc.IH [of ?s "Suc i" "acc + buf step * cf i"] by simp
  moreover have "(\<Sum>j = i..<i + Suc n. \<bar>cf j\<bar>) = \<bar>cf i\<bar> + (\<Sum>j = Suc i..<Suc i + n. \<bar>cf j\<bar>)"
    by (simp add: sum.atLeast_Suc_lessThan)
  ultimately have "\<bar>mac modem_fp buf cf 9 n (Suc i) ?s (acc + buf step * cf i)\<bar> \<le> \<bar>acc\<bar> + 3 * (\<Sum>j = i..<i + Suc n. \<bar>cf j\<bar>)"
    by (simp add: algebra_simps)
  then show ?case by (simp add: modem_fp_simps)
qed simp

lemma shaped_bound:
  assumes "\<forall>j < 9. \<bar>buf j\<bar> \<le> 3" and "step < 9" and "p < 40"
  shows "\<bar>mac modem_fp buf (tab_tx modem_fp p) 9 9 0 step 0\<bar> \<le> 9 / 2"
  using mac_bound [OF assms(1,2), of "tab_tx modem_fp p" 9 0 0] phase_sum [OF assms(3)]
  by (simp add: atLeast0LessThan)

text \<open>Modulation turns a point by the carrier's phase, so it adds no more than the square root of 2.\<close>

lemma modulated_bound:
  assumes "\<bar>a\<bar> \<le> 9 / 2" and "\<bar>b\<bar> \<le> (9 / 2 :: real)"
  shows "\<bar>a * cos t - b * sin t\<bar> \<le> 64 / 10"
proof -
  have "(a * cos t - b * sin t)\<^sup>2 + (a * sin t + b * cos t)\<^sup>2 = (a\<^sup>2 + b\<^sup>2) * ((sin t)\<^sup>2 + (cos t)\<^sup>2)"
    by algebra
  then have "(a * cos t - b * sin t)\<^sup>2 \<le> a\<^sup>2 + b\<^sup>2"
  proof -
    assume e: "(a * cos t - b * sin t)\<^sup>2 + (a * sin t + b * cos t)\<^sup>2 = (a\<^sup>2 + b\<^sup>2) * ((sin t)\<^sup>2 + (cos t)\<^sup>2)"
    have "0 \<le> (a * sin t + b * cos t)\<^sup>2" by (rule zero_le_power2)
    then show ?thesis using e by (simp only: sin_cos_squared_add mult_1_right)
  qed
  also have "a\<^sup>2 \<le> (9 / 2)\<^sup>2" using assms(1) by (metis abs_ge_zero power2_abs power_mono)
  then have "a\<^sup>2 + b\<^sup>2 \<le> (9 / 2)\<^sup>2 + b\<^sup>2" by simp
  also have "b\<^sup>2 \<le> (9 / 2)\<^sup>2" using assms(2) by (metis abs_ge_zero power2_abs power_mono)
  then have "(9 / 2)\<^sup>2 + b\<^sup>2 \<le> (64 / 10 :: real)\<^sup>2" by (simp add: power2_eq_square)
  finally show ?thesis by (metis abs_le_square_iff abs_of_nonneg abs_numeral abs_divide)
qed


lemma round_bound:
  fixes x :: real
  assumes "\<bar>x\<bar> \<le> 29952"
  shows "\<bar>round x\<bar> \<le> 29952"
proof -
  have "x \<le> 29952" "- 29952 \<le> x" using assms by linarith+
  then have "round x \<le> round (29952 :: real)" "round (- 29952 :: real) \<le> round x" by (blast intro: round_mono)+
  then show ?thesis by simp
qed

lemma saturation_idle: "\<bar>x\<bar> \<le> 29952 \<Longrightarrow> sm_sat16 modem_fp x = round x"
proof -
  assume x: "\<bar>x\<bar> \<le> 29952"
  have "- (2 ^ 15) \<le> round x" "round x < 2 ^ 15" using round_bound [OF x] by simp_all
  then have "signed_take_bit 15 (round x) = round x" by (rule signed_take_bit_int_eq_self)
  then have "sint (word_of_int (round x) :: 16 word) = round x" by (simp add: signed_of_int)
  moreover have "\<not> 32767 \<le> x" "\<not> x \<le> - 32768" using x by linarith+
  ultimately show ?thesis by (simp add: sm_sat16_def modem_fp_simps)
qed

text \<open>The amplitudes: points within 3, the default gain, no guard tone.\<close>

definition level_ok :: "(real, real) v22 \<Rightarrow> bool" where
  "level_ok s \<longleftrightarrow> tx_inv s \<and> (\<forall>j < 9. \<bar>t_rrc_re s j\<bar> \<le> 3) \<and> (\<forall>j < 9. \<bar>t_rrc_im s j\<bar> \<le> 3)
     \<and> 0 \<le> t_gain s \<and> t_gain s \<le> 4680 \<and> t_guard_gain s = 0"

lemma modulate_bound:
  assumes "level_ok s" and "tx_modulate modem_fp s = (a, s')"
  shows "\<bar>a\<bar> \<le> 29952 \<and> level_ok s'"
proof -
  have inv: "t_rrc_step s < 9" "39 - t_baud_phase s < 40"
    using assms(1) by (auto simp: level_ok_def tx_inv_def V22BIS_TX_FILTER_STEPS_def)
  let ?x = "mac modem_fp (t_rrc_re s) (tab_tx modem_fp (39 - t_baud_phase s)) 9 9 0 (t_rrc_step s) 0"
  let ?y = "mac modem_fp (t_rrc_im s) (tab_tx modem_fp (39 - t_baud_phase s)) 9 9 0 (t_rrc_step s) 0"
  let ?t = "dds_phase modem_fp (t_carrier_phase s)"
  let ?f = "(?x * cos ?t - ?y * sin ?t) * t_gain s"
  have "\<bar>?x\<bar> \<le> 9 / 2" "\<bar>?y\<bar> \<le> 9 / 2"
    using shaped_bound [OF _ inv] assms(1) by (auto simp: level_ok_def)
  then have "\<bar>?x * cos ?t - ?y * sin ?t\<bar> \<le> 64 / 10" by (rule modulated_bound)
  moreover have "0 \<le> t_gain s" "t_gain s \<le> 4680" using assms(1) by (simp_all add: level_ok_def)
  ultimately have "\<bar>?x * cos ?t - ?y * sin ?t\<bar> * t_gain s \<le> 64 / 10 * 4680"
    by (intro mult_mono) auto
  then have f: "\<bar>?f\<bar> \<le> 29952" using \<open>0 \<le> t_gain s\<close> by (simp add: abs_mult)
  have "a = sm_sat16 modem_fp ?f"
    using assms by (auto simp: tx_modulate_def V22BIS_TX_FILTER_STEPS_def modem_fp_simps sm_dds_complex_def Let_def level_ok_def)
  moreover have "level_ok s'"
    using assms by (auto simp: tx_modulate_def level_ok_def tx_inv_def Let_def split: prod.splits)
  ultimately show ?thesis using round_bound [OF f] saturation_idle [OF f] by simp
qed


subsection \<open>Symbols\<close>

definition amps :: "('f, 'd) v22 \<Rightarrow> (nat \<Rightarrow> 'f) \<times> (nat \<Rightarrow> 'f) \<times> 'f \<times> 'f" where
  "amps s = (t_rrc_re s, t_rrc_im s, t_gain s, t_guard_gain s)"

lemma amps_upd [simp]:
  "amps (s\<lparr>t_training := a\<rparr>) = amps s" "amps (s\<lparr>t_training_count := b\<rparr>) = amps s" "amps (s\<lparr>t_constellation := c\<rparr>) = amps s"
  "amps (s\<lparr>t_shutdown := d\<rparr>) = amps s" "amps (s\<lparr>t_fake_get := e\<rparr>) = amps s" "amps (s\<lparr>t_scramble_reg := r\<rparr>) = amps s"
  "amps (s\<lparr>t_pattern_count := k\<rparr>) = amps s" "amps (s\<lparr>t_baud_phase := p\<rparr>) = amps s"
  by (simp_all add: amps_def)

lemma amps_steps:
  "amps (snd (scramble b s)) = amps s" "amps (fst (snd (get_scrambled_bit cb (s, u)))) = amps s"
  "amps (snd (scramble_ones s)) = amps s" "amps (advance n s) = amps s"
proof -
  show sc: "amps (snd (scramble b s)) = amps s" for b and s :: "('a, 'b) v22"
    by (simp add: scramble_def Let_def)
  show "amps (fst (snd (get_scrambled_bit cb (s, u)))) = amps s"
    by (simp add: get_scrambled_bit_def split_beta Let_def sc)
  show "amps (snd (scramble_ones s)) = amps s" by (simp add: scramble_ones_def split_beta Let_def sc)
  show "amps (advance n s) = amps s" by (simp add: advance_def)
qed

lemma amps_dibit: "amps (fst (snd (get_dibit cb (s, u)))) = amps s"
  using amps_steps(2) [of cb s u] amps_steps(2) [of cb "fst (snd (get_scrambled_bit cb (s, u)))" "snd (snd (get_scrambled_bit cb (s, u)))"]
  by (simp add: get_dibit_def split_beta Let_def)

definition small :: "int \<times> int \<Rightarrow> bool" where
  "small p \<longleftrightarrow> \<bar>fst p\<bar> \<le> 3 \<and> \<bar>snd p\<bar> \<le> 3"

lemma point_small: "b < 4 \<Longrightarrow> t_constellation s < 4 \<Longrightarrow> small (point b s)"
  using point_levels [of "4 * t_constellation s + b"] by (auto simp: point_def small_def)

lemma scramble_ones_small: "fst (scramble_ones s) < 4"
  by (rule scramble_ones_upd [of s]) simp

lemma scramble_ones_constellation: "t_constellation (snd (scramble_ones s)) = t_constellation s"
  by (rule scramble_ones_upd [of s]) simp

lemma send_s11_small: "small (fst (send_s11 su))" "amps (fst (snd (send_s11 su))) = amps (fst su)"
  using point_small [of 1 "advance (fst (scramble_ones (fst su))) (snd (scramble_ones (fst su)))"]
  by (simp_all add: send_s11_def split_beta Let_def amps_steps)

lemma training_get_small:
  "t_constellation s < 4 \<Longrightarrow> small (fst (training_get cb (s, u))) \<and> amps (fst (snd (training_get cb (s, u)))) = amps s"
  using send_s11_small scramble_ones_small
  by (cases "t_training s")
     (simp_all add: training_get_def tx_normal_def split_beta Let_def amps_steps point_small scramble_ones_constellation
        send_s11_small scramble_ones_small small_def [of "(0, 0)"])

lemma getbaud_small:
  fixes s :: "('f, 'd) v22"
  assumes "getbaud cb (s, u) = (p, s', u')" and "t_constellation s < 4"
  shows "small p \<and> amps s' = amps s"
proof -
  define D where "D s0 = (let (bits0, s1, u1) = get_dibit cb (s0, u);
                          s2 = advance bits0 s1;
                          (bits, s3, u3) = (if v_negotiated s2 = 1200 then (1, s2, u1) else get_dibit cb (s2, u1))
                      in (point bits s3, s3, u3))" for s0 :: "('f, 'd) v22"
  have *: "small (fst (D s0)) \<and> amps (fst (snd (D s0))) = amps s0" for s0
  proof -
    obtain b0 s1 u1 where 1: "get_dibit cb (s0, u) = (b0, s1, u1)" by (metis prod_cases3)
    obtain b s3 u3 where 2: "(if v_negotiated (advance b0 s1) = 1200 then (1, advance b0 s1, u1)
        else get_dibit cb (advance b0 s1, u1)) = (b, s3, u3)" by (metis prod_cases3)
    have a: "amps s1 = amps s0" using amps_dibit [of cb s0 u] 1 by simp
    have "b < 4 \<and> amps s3 = amps s1 \<and> t_constellation s3 < 4"
      using 2 amps_dibit [of cb "advance b0 s1" u1] get_dibit_frame [of cb "advance b0 s1" u1 b s3 u3] amps_steps(4) [of b0 s1]
      by (auto split: if_splits)
    with 1 2 a show ?thesis by (simp add: D_def Let_def point_small)
  qed
  have "getbaud cb (s, u) = (if t_training s \<noteq> TxNormal then training_get cb (s, u)
      else if t_shutdown s \<noteq> 0 \<and> t_shutdown s + 1 > 10 then ((0, 0), s\<lparr>t_shutdown := t_shutdown s + 1\<rparr>, u)
      else D (if t_shutdown s \<noteq> 0 then s\<lparr>t_shutdown := t_shutdown s + 1\<rparr> else s))"
    by (simp add: getbaud_def D_def Let_def)
  with assms(1) show ?thesis
    using training_get_small [OF assms(2), of cb u] * [of s] * [of "s\<lparr>t_shutdown := t_shutdown s + 1\<rparr>"]
    by (auto simp: small_def split: if_splits)
qed

lemma tx_symbol_level:
  assumes "level_ok s" and "tx_symbol modem_fp cb (s, u) = (s', u')"
  shows "level_ok s'"
proof -
  have inv: "tx_inv s'" using tx_symbol_step [OF assms(2)] assms(1) by (simp add: level_ok_def)
  have "(\<forall>j < 9. \<bar>t_rrc_re s' j\<bar> \<le> 3) \<and> (\<forall>j < 9. \<bar>t_rrc_im s' j\<bar> \<le> 3) \<and> t_gain s' = t_gain s \<and> t_guard_gain s' = t_guard_gain s"
  proof (cases "t_baud_phase s + 3 \<ge> 40")
    case True
    obtain re im s2 u2 where g: "getbaud cb (s\<lparr>t_baud_phase := t_baud_phase s + 3 - 40\<rparr>, u) = ((re, im), s2, u2)"
      by (metis prod_cases3 prod.collapse)
    have "t_constellation s < 4" using assms(1) by (simp add: level_ok_def tx_inv_def)
    with getbaud_small [OF g] have b: "\<bar>re\<bar> \<le> 3" "\<bar>im\<bar> \<le> 3" "amps s2 = amps s" by (simp_all add: small_def)
    then have "\<bar>real_of_int re\<bar> \<le> 3" "\<bar>real_of_int im\<bar> \<le> 3" by linarith+
    with assms b(3) g True show ?thesis
      by (auto simp: tx_symbol_def V22BIS_TX_PHASE_STEP_def V22BIS_TX_PHASES_def modem_fp_simps level_ok_def amps_def)
  next
    case False
    with assms show ?thesis
      by (auto simp: tx_symbol_def V22BIS_TX_PHASE_STEP_def V22BIS_TX_PHASES_def level_ok_def)
  qed
  with inv assms(1) show ?thesis by (simp add: level_ok_def)
qed

lemma tx_samples_level:
  assumes "level_ok s"
  shows "(\<forall>a \<in> set (fst (tx_samples modem_fp cb n (s, u))). \<bar>a\<bar> \<le> 29952)
    \<and> level_ok (fst (snd (tx_samples modem_fp cb n (s, u))))"
  using assms
proof (induction n arbitrary: s u)
  case (Suc n)
  obtain s1 u1 where 1: "tx_symbol modem_fp cb (s, u) = (s1, u1)" by fastforce
  obtain a s2 where 2: "tx_modulate modem_fp s1 = (a, s2)" by fastforce
  have m: "\<bar>a\<bar> \<le> 29952 \<and> level_ok s2" using modulate_bound [OF tx_symbol_level [OF Suc.prems 1] 2] .
  with Suc.IH [of s2 u1] 1 2 show ?case by (simp add: tx_sample_def split_beta)
qed simp


subsection \<open>The default power\<close>

lemma powr_default: "10 powr (- (857 / 1000)) \<le> (1 / 316 * 100 :: real)"
proof -
  have "10 powr (- (857 / 1000)) \<le> (10 :: real) powr (- (1 / 2))" by (rule powr_mono) simp_all
  also have "\<dots> = 1 / sqrt 10" by (simp add: powr_minus_divide powr_half_sqrt)
  also have "(316 / 100 :: real) \<le> sqrt 10" by (rule real_le_rsqrt) (simp add: power2_eq_square)
  then have "1 / sqrt 10 \<le> (1 / (316 / 100) :: real)" by (intro divide_left_mono) simp_all
  finally show ?thesis by simp
qed

lemma guard_rates: "dds_rate modem_fp 550 \<noteq> 0" "dds_rate modem_fp 1800 \<noteq> 0"
  by (simp_all add: dds_rate_def modem_fp_simps c_trunc_def floor_divide_of_int_eq)

lemma init_level: "level_ok (v22bis_init modem_fp calling rate)"
proof -
  let ?s = "v22bis_init modem_fp calling rate"
  define z where "z = (v22_zero modem_fp calling rate)\<lparr>t_guard_rate := 0\<rparr>"
  have i: "?s = v22bis_restart modem_fp z"
    by (simp add: v22bis_init_def z_def v22_zero_def Let_def)
  have "tx_inv ?s" unfolding i by (rule restart_tx)
  moreover have g: "t_gain ?s = 4490 / 10000 * 10 powr (- (857 / 1000)) * 32768" "t_guard_gain ?s = 0"
    "\<And>j. j < 9 \<Longrightarrow> t_rrc_re ?s j = 0" "\<And>j. j < 9 \<Longrightarrow> t_rrc_im ?s j = 0"
    unfolding i using guard_rates
    by (simp_all add: v22bis_restart_def v22bis_tx_power_def v22bis_rx_restart_def v22bis_rx_set_signal_cutoff_def
      sm_power_meter_init_def equalizer_reset_def Let_def modem_fp_simps z_def v22_zero_def)
  moreover have "t_gain ?s \<le> 4680" unfolding g using powr_default by simp
  moreover have "0 \<le> t_gain ?s" unfolding g by simp
  ultimately show ?thesis by (simp add: level_ok_def)
qed

text \<open>C39: with the pulse shaper's table as it is and exact arithmetic, the transmitter at its default power never
  clips: after \<open>v22bis_init\<close>, whatever bits it is given and however many samples are taken, every sample is within
  29952, more than 8 percent below the saturation of \<open>sm_sat16\<close>, and it stays so.\<close>

theorem transmit_never_clips:
  "level_ok (v22bis_init modem_fp calling rate)
   \<and> (level_ok s \<longrightarrow> (case v22bis_tx modem_fp cb n (s, u) of (amp, s', u') \<Rightarrow> list_all (\<lambda>a. \<bar>a\<bar> \<le> 29952) amp \<and> level_ok s'))"
  using init_level tx_samples_level [of s cb n u] by (auto simp: v22bis_tx_def list_all_iff split: prod.split)

theorem transmit_never_clips_witness:
  "list_all (\<lambda>a. \<bar>a\<bar> \<le> 29952) (fst (v22bis_tx modem_fp idle_cb 8000 (v22bis_init modem_fp False 2400, ())))"
  using transmit_never_clips [of False 2400 "v22bis_init modem_fp False 2400" idle_cb 8000 "()"] by (simp add: split_beta)

end
