(* ===== verification/V22_Cb.thy ===== *)
theory V22_Cb
  imports V22_Rx
begin

text \<open>
  What the modem asks of its user. The modem reaches its user data only through the three
  callbacks, so whatever they keep, the modem keeps: the interface between the V.22bis engine and
  the call that runs it. The locale's provider is the call, which proves that its \<open>get_bit\<close>, \<open>put_bit\<close>
  and \<open>status\<close> keep a predicate on the call record, and gets it kept by any number of samples.
\<close>

locale line_user =
  fixes cb :: "'u v22_cb"
    and P :: "'u \<Rightarrow> bool"
  assumes get_keeps: "P u \<Longrightarrow> P (snd (cb_get cb u))"
    and put_keeps: "cb_put cb = Some f \<Longrightarrow> P u \<Longrightarrow> P (f b u)"
    and status_keeps: "cb_status cb = Some g \<Longrightarrow> P u \<Longrightarrow> P (g st u)"
begin

lemma report_keeps: "P u \<Longrightarrow> P (report_status cb st u)"
  by (auto simp: report_status_def status_keeps split: option.split)

lemma scrambled_bit_keeps:
  assumes "P u"
  shows "P (snd (snd (get_scrambled_bit cb (s, u))))"
  using get_keeps [OF assms] assms by (auto simp: get_scrambled_bit_def Let_def split: prod.split)

lemma dibit_keeps:
  assumes "P u"
  shows "P (snd (snd (get_dibit cb (s, u))))"
proof -
  obtain a s1 u1 where 1: "get_scrambled_bit cb (s, u) = (a, s1, u1)" by (metis prod_cases3)
  with scrambled_bit_keeps [OF assms, of s] have "P u1" by simp
  from scrambled_bit_keeps [OF this, of s1] 1 show ?thesis by (simp add: get_dibit_def split_beta)
qed

lemma training_get_keeps:
  assumes "P u"
  shows "P (snd (snd (training_get cb (s, u))))"
  using report_keeps [OF assms] assms
  by (cases "t_training s") (auto simp: training_get_def send_s11_def tx_normal_def Let_def split: prod.split)

lemma getbaud_keeps:
  assumes "P u"
  shows "P (snd (snd (getbaud cb (s, u))))"
proof -
  have *: "P (snd (snd (let (bits0, s1, u1) = get_dibit cb (s0, u);
                          s2 = advance bits0 s1;
                          (bits, s3, u3) = (if v_negotiated s2 = 1200 then (1, s2, u1) else get_dibit cb (s2, u1))
                      in (point bits s3, s3, u3))))" for s0 :: "('f, 'd) v22"
  proof -
    obtain a s1 u1 where 1: "get_dibit cb (s0, u) = (a, s1, u1)" by (metis prod_cases3)
    with dibit_keeps [OF assms, of s0] have "P u1" by simp
    from this dibit_keeps [OF this, of "advance a s1"] 1 show ?thesis by (simp add: Let_def split_beta)
  qed
  then show ?thesis
    using training_get_keeps [OF assms, of s] assms * [of "if t_shutdown s \<noteq> 0 then s\<lparr>t_shutdown := t_shutdown s + 1\<rparr> else s"]
    unfolding getbaud_def Let_def by simp
qed

lemma tx_symbol_keeps:
  assumes "P u"
  shows "P (snd (tx_symbol F cb (s, u)))"
  using getbaud_keeps [OF assms, of "s\<lparr>t_baud_phase := t_baud_phase s + V22BIS_TX_PHASE_STEP - V22BIS_TX_PHASES\<rparr>"] assms
  by (auto simp: tx_symbol_def Let_def split: prod.split)

lemma tx_samples_keeps: "P (snd su) \<Longrightarrow> P (snd (snd (tx_samples F cb n su)))"
proof (induction n arbitrary: su)
  case (Suc n)
  obtain s u where su: "su = (s, u)" by fastforce
  obtain s1 u1 where 1: "tx_symbol F cb (s, u) = (s1, u1)" by fastforce
  obtain a s2 where 2: "tx_modulate F s1 = (a, s2)" by fastforce
  have "P u1" using tx_symbol_keeps [of u F s] Suc.prems su 1 by simp
  with Suc.IH [of "(s2, u1)"] su 1 2 show ?case by (simp add: tx_sample_def split_beta)
qed simp

lemma v22bis_tx_keeps: "P u \<Longrightarrow> P (snd (snd (v22bis_tx F cb n (s, u))))"
  by (simp add: v22bis_tx_def tx_samples_keeps)

lemma put_bit_keeps: "P (snd su) \<Longrightarrow> P (snd (put_bit cb b su))"
  by (auto simp: put_bit_def split_beta put_keeps split: option.split)

lemma decode_baud_keeps: "P (snd su) \<Longrightarrow> P (snd (decode_baud cb nearest su))"
  by (auto simp: decode_baud_def Let_def split_beta intro!: put_bit_keeps)

lemma rx_normal_keeps:
  assumes "P u"
  shows "P (snd (snd (rx_normal F cb z nearest (s, u))))"
  using report_keeps [OF assms] assms
  by (auto simp: rx_normal_def Let_def split_beta intro!: decode_baud_keeps)

lemma rx_training_step_keeps:
  assumes "P u"
  shows "P (snd (snd (rx_training_step F cb z nearest (s, u))))"
  using rx_normal_keeps [OF assms, where z = z and nearest = nearest and s = s and F = F] assms
  by (cases "r_training s") (simp_all add: rx_training_step_def Let_def split_beta)

lemma process_half_baud_keeps:
  assumes "P u"
  shows "P (snd (process_half_baud F cb z (s, u)))"
  using assms by (simp add: process_half_baud_def rx_symbol_def Let_def split_beta rx_training_step_keeps)

lemma rx_half_symbol_keeps:
  assumes "P u"
  shows "P (snd (rx_half_symbol F cb (s, u)))"
  by (simp add: rx_half_symbol_def Let_def split_beta process_half_baud_keeps assms)

lemma rx_carrier_keeps:
  assumes "P u"
  shows "P (snd (snd (rx_carrier F cb (s, u))))"
  using report_keeps [OF assms] assms by (auto simp: rx_carrier_def Let_def)

lemma rx_sample_keeps:
  assumes "P u"
  shows "P (snd (rx_sample F cb a (s, u)))"
proof -
  obtain go s1 u1 where 1: "rx_carrier F cb (rx_intake F a s, u) = (go, s1, u1)" by (metis prod_cases3)
  with rx_carrier_keeps [OF assms, of F "rx_intake F a s"] have "P u1" by simp
  then show ?thesis
    using rx_half_symbol_keeps [of u1 F "s1\<lparr>r_eq_put_step := r_eq_put_step s1 - V22BIS_RX_COEFF_SETS\<rparr>"] 1
    by (auto simp: rx_sample_def Let_def split_beta)
qed

lemma v22bis_rx_keeps:
  assumes "P u"
  shows "P (snd (v22bis_rx F cb xs (s, u)))"
proof -
  have "P (snd su) \<Longrightarrow> P (snd (foldl (\<lambda>su a. rx_sample F cb a su) su xs))" for su
  proof (induction xs arbitrary: su)
    case (Cons x xs)
    from Cons.prems have "P (snd (rx_sample F cb x su))"
      using rx_sample_keeps [of "snd su" F x "fst su"] by simp
    with Cons.IH show ?case by simp
  qed simp
  with assms show ?thesis by (simp add: v22bis_rx_def)
qed

end

end
