(* ===== verification/Call.thy ===== *)
theory Call
  imports Serial Ast_Socket Pppd V22_Cb Bbs
begin

text \<open>
  One dial-up call, \<open>src/src/call/sm_call.c\<close>: the call record, the modem's callbacks on it, the audio
  path with the answer sequence and the choice of the engine, the byte path between the line and
  pppd or the board, the processes started, and the loop over the AudioSocket connection. All the
  engines are compiled in (\<open>SM_HAVE_V8\<close>, \<open>SM_HAVE_V34\<close>, \<open>SM_HAVE_BM\<close>). The engines that are not part
  of this repository's C code (BinModem, spanDSP's V.8 and V.34) are inputs: for each chunk of
  audio, what they report, which samples they give, and in which order they call \<open>get_bit\<close> and
  \<open>put_bit\<close>. The results of system calls are inputs too. Log lines and the hex dumps switched on by
  environment variables are left out.
\<close>

subsection \<open>Data\<close>

datatype call_mode = SM_CALL_MODE_V22 | SM_CALL_MODE_V34

datatype call_phase = SM_CALL_IDLE | SM_CALL_ANSWER_TONE | SM_CALL_V8 | SM_CALL_HANDSHAKE | SM_CALL_DATA | SM_CALL_HANGUP

record call_config =
  cc_rate :: int
  cc_answer_tone_ms :: int
  cc_pre_tone_silence_ms :: int
  cc_pppd_path :: string
  cc_shim_exe :: string
  cc_local_ip :: string
  cc_peer_ip :: string
  cc_dns1 :: "string option"
  cc_dns2 :: "string option"
  cc_log_dir :: "string option"
  cc_ip_up_script :: "string option"
  cc_ip_down_script :: "string option"
  cc_bbs_db :: "string option"
  cc_auth :: bool
  cc_enable_ppp :: bool
  cc_echo_data :: bool
  cc_use_v8 :: bool
  cc_use_v34 :: bool
  cc_use_binmodem :: bool
  cc_use_v90 :: bool
  cc_v34_baud :: int
  cc_v34_rate :: int
  cc_log_level :: int

text \<open>What a call gives back: descriptors, engines, sessions, captures, and the signals to pppd.\<close>

datatype release = RelFd int | RelV8 | RelBm | RelV34 | RelBbs | RelCapIn | RelCapOut | RelTerm int | RelKill int

text \<open>Handles of external engines are booleans: whether there is one. \<open>cl_ppy_out\<close> is
  \<open>ppy_out[0 .. ppy_out_len)\<close>. The last fields record the effects: the bytes the pppd relay has taken,
  those sent to Asterisk, what was acquired (each item named by the release that gives it back), what was
  released, and whether memory outside \<open>txbuf\<close> was written.\<close>

record ('f, 'd, 'q) sm_call =
  cl_cfg :: call_config
  cl_call_id :: int
  cl_as :: ast_socket
  cl_cap_in :: "int list option"
  cl_cap_out :: "int list option"
  cl_cap_count :: int
  cl_mode :: call_mode
  cl_modem :: "('f, 'd) v22"
  cl_v34 :: bool
  cl_v34_baud_rate :: int
  cl_bm :: bool
  cl_bbs :: "'q bbs_session option"
  cl_bm_phase_seen :: string
  cl_bm_ec_seen :: int
  cl_bm_nocarrier :: int
  cl_txbits :: bitq
  cl_deframer :: deframer
  cl_tone_left :: int
  cl_silence_left :: int
  cl_tone_phase :: 'd
  cl_tone_phase_inc :: 'd
  cl_tone_amplitude :: 'd
  cl_ppp_fd :: int
  cl_pppd_pid :: int
  cl_ppp_started :: bool
  cl_v8 :: bool
  cl_v8_done :: bool
  cl_v8_ok :: int
  cl_rx_guard :: int
  cl_phase :: call_phase
  cl_negotiated_rate :: int
  cl_samples_in :: int
  cl_samples_out :: int
  cl_bytes_rx :: int
  cl_bytes_tx :: int
  cl_ppy_out :: "u8 list"
  cl_txbuf :: "nat \<Rightarrow> int"
  cl_to_ppp :: "u8 list"
  cl_sent :: "u8 list"
  cl_taken :: "release list"
  cl_released :: "release list"
  cl_fault :: bool

definition PPY_OUT_SIZE :: nat where "PPY_OUT_SIZE = 4096"
definition TXBUF_SIZE :: nat where "TXBUF_SIZE = SM_AS_MAX_PAYLOAD div 2"
definition SM_SAMPLE_RATE :: int where "SM_SAMPLE_RATE = 8000"

text \<open>Double arithmetic beyond the modem's: the sine and \<open>SM_TWO_PI\<close>.\<close>

record ('f, 'd) call_fp =
  cf_fp :: "('f, 'd) fp"
  cf_sin :: "'d \<Rightarrow> 'd"
  cf_two_pi :: 'd

subsection \<open>Callbacks\<close>

text \<open>\<open>bbs_write\<close>: the bytes pushed before the first that does not fit.\<close>

fun push_all :: "u8 list \<Rightarrow> bitq \<Rightarrow> nat \<times> bitq" where
  "push_all [] b = (0, b)"
| "push_all (x # xs) b =
     (let (r, b1) = sm_bitq_push_byte b x
      in if r < 0 then (0, b1) else (let (n, b2) = push_all xs b1 in (Suc n, b2)))"

definition bbs_write :: "u8 list \<Rightarrow> ('f, 'd, 'q) sm_call \<Rightarrow> ('f, 'd, 'q) sm_call" where
  "bbs_write bs c =
     (let (i, b) = push_all bs (cl_txbits c) in c\<lparr>cl_txbits := b, cl_bytes_tx := cl_bytes_tx c + int i\<rparr>)"

definition byte_of :: "char \<Rightarrow> u8" where "byte_of ch = of_nat (of_char ch)"
definition char_of_byte :: "u8 \<Rightarrow> char" where "char_of_byte b = char_of (unat b)"

text \<open>The session's writes are \<open>bbs_write\<close> calls; they are delivered when its operation returns, the
  session itself never looking at the queue.\<close>

definition bbs_deliver :: "'q bbs_session \<Rightarrow> ('f, 'd, 'q) sm_call \<Rightarrow> ('f, 'd, 'q) sm_call" where
  "bbs_deliver s c =
     foldl (\<lambda>c p. bbs_write (map byte_of p) c) (c\<lparr>cl_bbs := Some (s\<lparr>bs_out := []\<rparr>)\<rparr>) (bs_out s)"

definition bbs_meta_of :: "int \<Rightarrow> int \<Rightarrow> int \<Rightarrow> ('f, 'd, 'q) sm_call \<Rightarrow> bbs_connection_meta" where
  "bbs_meta_of now bm_tx bm_rx c =
     \<lparr>bm_protocol = Some (if cl_bm c \<or> cl_mode c = SM_CALL_MODE_V34 then ''V.34'' else ''V.22bis''),
      bm_tx_bps = (if cl_bm c then bm_tx else cl_negotiated_rate c),
      bm_rx_bps = (if cl_bm c then bm_rx else cl_negotiated_rate c),
      bm_connected = 1, bm_connected_at = now, bm_carrier_state = 1, bm_audio_codec = None, bm_sample_rate = 0,
      bm_packet_time_ms = 0, bm_packets_rx = -1, bm_packets_tx = -1, bm_packets_lost = -1, bm_jitter_ms = -1\<rparr>"

definition start_bbs_selector :: "'q sql_api \<Rightarrow> int \<Rightarrow> int \<Rightarrow> int \<Rightarrow> ('f, 'd, 'q) sm_call \<Rightarrow> ('f, 'd, 'q) sm_call" where
  "start_bbs_selector q now bm_tx bm_rx c =
     (if cl_bbs c \<noteq> None \<or> cc_echo_data (cl_cfg c) then c
      else bbs_deliver (bbs_session_start (bbs_session_create q now (cc_bbs_db (cl_cfg c)) (bbs_meta_of now bm_tx bm_rx c) True))
             (c\<lparr>cl_taken := cl_taken c @ [RelBbs]\<rparr>))"

definition call_get_bit :: "('f, 'd, 'q) sm_call \<Rightarrow> int \<times> ('f, 'd, 'q) sm_call" where
  "call_get_bit c = (let (b, t) = sm_bitq_pop (cl_txbits c) in (if b < 0 then 1 else b, c\<lparr>cl_txbits := t\<rparr>))"

definition deframe :: "int \<Rightarrow> ('f, 'd, 'q) sm_call \<Rightarrow> ('f, 'd, 'q) sm_call" where
  "deframe bt c = c\<lparr>cl_deframer := sm_deframer_bit (cl_deframer c) bt\<rparr>"

text \<open>\<open>v34_rate\<close>: what \<open>v34_get_current_bit_rate\<close> answers.\<close>

definition call_put_bit :: "int \<Rightarrow> int \<Rightarrow> ('f, 'd, 'q) sm_call \<Rightarrow> ('f, 'd, 'q) sm_call" where
  "call_put_bit v34_rate bt c =
     (if bt < 0 then c
      else if cl_mode c = SM_CALL_MODE_V34
      then deframe bt (if cl_phase c \<noteq> SM_CALL_DATA then c\<lparr>cl_phase := SM_CALL_DATA, cl_negotiated_rate := v34_rate\<rparr> else c)
      else if cl_phase c \<noteq> SM_CALL_DATA then c
      else deframe bt c)"

definition call_status :: "v22_status \<Rightarrow> ('f, 'd, 'q) sm_call \<Rightarrow> ('f, 'd, 'q) sm_call" where
  "call_status st c =
     (if st = RetrainOccurred then c\<lparr>cl_deframer := sm_deframer_init, cl_phase := SM_CALL_HANDSHAKE\<rparr> else c)"

definition modem_cb :: "int \<Rightarrow> ('f, 'd, 'q) sm_call v22_cb" where
  "modem_cb v34_rate = \<lparr>cb_get = call_get_bit, cb_put = Some (call_put_bit v34_rate), cb_status = Some call_status\<rparr>"

definition V8_MOD_V22 :: int where "V8_MOD_V22 = 0x04"

text \<open>\<open>V8_MOD_V34\<close> is spanDSP's constant, an argument.\<close>

definition call_v8_result :: "int \<Rightarrow> int \<times> int \<Rightarrow> ('f, 'd, 'q) sm_call \<Rightarrow> ('f, 'd, 'q) sm_call" where
  "call_v8_result mod_v34 res c =
     (case res of (status, mods) \<Rightarrow>
        if status = 2
        then c\<lparr>cl_v8_done := True,
               cl_v8_ok := (if cc_use_v34 (cl_cfg c) \<and> mods AND mod_v34 \<noteq> 0 then 2
                            else if mods AND V8_MOD_V22 \<noteq> 0 then 1 else 0)\<rparr>
        else if status = 3 \<or> status = 4 then c\<lparr>cl_v8_done := True, cl_v8_ok := 0\<rparr>
        else c)"

subsection \<open>Init\<close>

text \<open>Whether \<open>bm_create\<close>, \<open>sm_v8_create\<close> and, when a capture is asked for, the two \<open>fopen\<close> succeed.\<close>

record init_env =
  ie_bm :: bool
  ie_v8 :: bool
  ie_capture :: "(bool \<times> bool) option"

definition call_zero :: "('f, 'd) call_fp \<Rightarrow> call_config \<Rightarrow> int \<Rightarrow> ('f, 'd, 'q) sm_call" where
  "call_zero F cfg call_id =
     (let z = dp_lit (cf_fp F) 0 1
      in \<lparr>cl_cfg = cfg, cl_call_id = call_id, cl_as = sm_ast_init 0, cl_cap_in = None, cl_cap_out = None, cl_cap_count = 0,
          cl_mode = SM_CALL_MODE_V22, cl_modem = v22bis_init (cf_fp F) False (cc_rate cfg), cl_v34 = False, cl_v34_baud_rate = 0,
          cl_bm = False, cl_bbs = None, cl_bm_phase_seen = [], cl_bm_ec_seen = -2, cl_bm_nocarrier = 0,
          cl_txbits = sm_bitq_init, cl_deframer = sm_deframer_init, cl_tone_left = 0, cl_silence_left = 0,
          cl_tone_phase = z, cl_tone_phase_inc = z, cl_tone_amplitude = z, cl_ppp_fd = -1, cl_pppd_pid = -1,
          cl_ppp_started = False, cl_v8 = False, cl_v8_done = False, cl_v8_ok = 0, cl_rx_guard = 0, cl_phase = SM_CALL_IDLE,
          cl_negotiated_rate = 0, cl_samples_in = 0, cl_samples_out = 0, cl_bytes_rx = 0, cl_bytes_tx = 0, cl_ppy_out = [],
          cl_txbuf = (\<lambda>_. 0), cl_to_ppp = [], cl_sent = [], cl_taken = [], cl_released = [], cl_fault = False\<rparr>)"

definition call_capture :: "(bool \<times> bool) option \<Rightarrow> ('f, 'd, 'q) sm_call \<Rightarrow> ('f, 'd, 'q) sm_call" where
  "call_capture cap c =
     (case cap of None \<Rightarrow> c
      | Some (i, j) \<Rightarrow> c\<lparr>cl_cap_in := (if i then Some [] else None), cl_cap_out := (if j then Some [] else None),
          cl_taken := cl_taken c @ (if i then [RelCapIn] else []) @ (if j then [RelCapOut] else [])\<rparr>)"

definition tone_setup :: "('f, 'd) call_fp \<Rightarrow> ('f, 'd, 'q) sm_call \<Rightarrow> ('f, 'd, 'q) sm_call" where
  "tone_setup F c =
     (let P = cf_fp F
      in c\<lparr>cl_tone_phase := dp_lit P 0 1,
           cl_tone_phase_inc := dp_div P (dp_mul P (cf_two_pi F) (dp_lit P 2100 1)) (dp_lit P SM_SAMPLE_RATE 1),
           cl_tone_amplitude := dp_lit P 6000 1\<rparr>)"

text \<open>\<open>ms * SM_SAMPLE_RATE / 1000\<close>, computed in \<open>int\<close>: the product wraps at 32 bits as the machine's multiplication
  does (signed overflow is undefined in C; the option parser accepts values of \<open>ms\<close> that overflow).\<close>

definition samples_of_ms :: "int \<Rightarrow> int" where
  "samples_of_ms ms = c_div (c_int (ms * SM_SAMPLE_RATE)) 1000"

definition sm_call_init :: "('f, 'd) call_fp \<Rightarrow> init_env \<Rightarrow> call_config \<Rightarrow> int \<Rightarrow> ('f, 'd, 'q) sm_call" where
  "sm_call_init F e cfg call_id =
     (let c0 = tone_setup F (call_capture (ie_capture e) (call_zero F cfg call_id))
      in if cc_use_binmodem cfg \<and> ie_bm e then c0\<lparr>cl_bm := True, cl_phase := SM_CALL_V8, cl_taken := cl_taken c0 @ [RelBm]\<rparr>
         else if cc_use_v8 cfg \<and> ie_v8 e then c0\<lparr>cl_v8 := True, cl_phase := SM_CALL_V8, cl_taken := cl_taken c0 @ [RelV8]\<rparr>
         else if cc_answer_tone_ms cfg > 0 \<or> cc_pre_tone_silence_ms cfg > 0
         then c0\<lparr>cl_phase := SM_CALL_ANSWER_TONE,
                 cl_silence_left := samples_of_ms (cc_pre_tone_silence_ms cfg),
                 cl_tone_left := samples_of_ms (cc_answer_tone_ms cfg)\<rparr>
         else c0\<lparr>cl_phase := SM_CALL_HANDSHAKE\<rparr>)"

subsection \<open>pppd\<close>

definition call_pppd_config :: "('f, 'd, 'q) sm_call \<Rightarrow> pppd_config" where
  "call_pppd_config c =
     (let g = cl_cfg c;
          dir = opt_str (cc_log_dir g);
          log_path = (if dir \<noteq> [] then snprintf 512 (dir @ ''/pppd-call'' @ dec_int (cl_call_id c) @ ''.log'') else [])
      in \<lparr>pc_pppd_path = cc_pppd_path g, pc_shim_exe = cc_shim_exe g, pc_local_ip = cc_local_ip g, pc_peer_ip = cc_peer_ip g,
          pc_dns1 = cc_dns1 g, pc_dns2 = cc_dns2 g, pc_log_path = (if log_path \<noteq> [] then Some log_path else None),
          pc_ip_up_script = cc_ip_up_script g, pc_ip_down_script = cc_ip_down_script g, pc_auth = cc_auth g\<rparr>)"

definition start_pppd :: "spawn_env \<Rightarrow> ('f, 'd, 'q) sm_call \<Rightarrow> int \<times> ('f, 'd, 'q) sm_call" where
  "start_pppd e c =
     (case sm_pppd_spawn e of (pid, fd, shut) \<Rightarrow>
        (let c1 = c\<lparr>cl_pppd_pid := pid, cl_ppp_fd := (case fd of None \<Rightarrow> cl_ppp_fd c | Some f \<Rightarrow> f)\<rparr>
         in if pid < 0 then (-1, c1)
            else (0, c1\<lparr>cl_ppp_started := True,
                      cl_taken := cl_taken c1 @ (case fd of None \<Rightarrow> [] | Some f \<Rightarrow> [RelFd f]) @ [RelTerm pid]\<rparr>)))"

text \<open>\<open>alive\<close>: \<open>waitpid (pid, WNOHANG)\<close> returns 0.\<close>

definition stop_pppd :: "bool \<Rightarrow> ('f, 'd, 'q) sm_call \<Rightarrow> ('f, 'd, 'q) sm_call" where
  "stop_pppd alive c =
     (let c1 = (if cl_ppp_fd c \<ge> 0 then c\<lparr>cl_released := cl_released c @ [RelFd (cl_ppp_fd c)], cl_ppp_fd := -1\<rparr> else c)
      in if cl_pppd_pid c1 > 0
         then c1\<lparr>cl_released := cl_released c1 @ RelTerm (cl_pppd_pid c1) # (if alive then [RelKill (cl_pppd_pid c1)] else []),
                 cl_pppd_pid := -1\<rparr>
         else c1)"

datatype write_ev = WrIntr | WrAgain | WrFail | WrOk nat

text \<open>The write loop; an exhausted list is a descriptor that takes no more for now.\<close>

fun flush_loop :: "write_ev list \<Rightarrow> u8 list \<Rightarrow> u8 list \<Rightarrow> u8 list \<times> u8 list" where
  "flush_loop [] taken buf = (taken, buf)"
| "flush_loop (WrIntr # es) taken buf = (if buf = [] then (taken, buf) else flush_loop es taken buf)"
| "flush_loop (WrAgain # es) taken buf = (taken, buf)"
| "flush_loop (WrFail # es) taken buf = (taken, buf)"
| "flush_loop (WrOk n # es) taken buf =
     (if buf = [] then (taken, buf) else flush_loop es (taken @ take n buf) (drop n buf))"

definition ppp_flush :: "write_ev list \<Rightarrow> ('f, 'd, 'q) sm_call \<Rightarrow> ('f, 'd, 'q) sm_call" where
  "ppp_flush es c =
     (if cl_ppp_fd c < 0 then c
      else (let (t, b) = flush_loop es (cl_to_ppp c) (cl_ppy_out c) in c\<lparr>cl_to_ppp := t, cl_ppy_out := b\<rparr>))"

text \<open>The results of one round: \<open>time\<close>, the spawn, the writes to and the read from the relay.\<close>

record pump_env =
  pe_now :: int
  pe_spawn :: spawn_env
  pe_writes :: "write_ev list"
  pe_read :: read_res

definition pump_echo :: "u8 list \<Rightarrow> ('f, 'd, 'q) sm_call \<Rightarrow> ('f, 'd, 'q) sm_call" where
  "pump_echo tmp c =
     c\<lparr>cl_txbits := foldl (\<lambda>b x. snd (sm_bitq_push_byte b x)) (cl_txbits c) tmp,
       cl_bytes_tx := cl_bytes_tx c + int (length tmp), cl_bytes_rx := cl_bytes_rx c + int (length tmp)\<rparr>"

text \<open>With a session: feed it, and on its choice of PPP hand over what it kept.\<close>

definition pump_bbs :: "'q sql_api \<Rightarrow> pump_env \<Rightarrow> u8 list \<Rightarrow> 'q bbs_session \<Rightarrow> ('f, 'd, 'q) sm_call \<Rightarrow> ('f, 'd, 'q) sm_call" where
  "pump_bbs q e tmp s0 c0 =
     (let s = (if tmp \<noteq> [] then bbs_session_feed q (pe_now e) (map char_of_byte tmp) s0 else s0);
          c1 = (bbs_deliver s c0);
          c2 = c1\<lparr>cl_bytes_rx := cl_bytes_rx c1 + int (length tmp)\<rparr>
      in if bs_route s = BBS_ROUTE_HANGUP then c2\<lparr>cl_phase := SM_CALL_HANGUP\<rparr>
         else if bs_route s \<noteq> BBS_ROUTE_PPP then c2
         else (let (rc, c3) = (if cc_enable_ppp (cl_cfg c2) \<and> cl_ppp_fd c2 < 0 then start_pppd (pe_spawn e) c2 else (0, c2))
               in if rc < 0 then c3\<lparr>cl_phase := SM_CALL_HANGUP\<rparr>
                  else (let c4 = (if cl_ppp_fd c3 \<ge> 0
                                  then c3\<lparr>cl_ppy_out := map byte_of (fst (bbs_session_take_ppp 1024 s))\<rparr> else c3)
                        in ppp_flush (pe_writes e) (c4\<lparr>cl_bbs := None, cl_released := cl_released c4 @ [RelBbs]\<rparr>))))"

text \<open>Received bytes wait in \<open>ppy_out\<close>; those that do not fit are dropped.\<close>

definition stage_rx :: "u8 list \<Rightarrow> ('f, 'd, 'q) sm_call \<Rightarrow> ('f, 'd, 'q) sm_call" where
  "stage_rx tmp c =
     c\<lparr>cl_ppy_out := cl_ppy_out c @ take (PPY_OUT_SIZE - length (cl_ppy_out c)) tmp,
       cl_bytes_rx := cl_bytes_rx c + int (length tmp)\<rparr>"

definition pump_read :: "read_res \<Rightarrow> ('f, 'd, 'q) sm_call \<Rightarrow> ('f, 'd, 'q) sm_call" where
  "pump_read r c =
     (if cl_ppp_fd c < 0 then c
      else case r of
        ReadData bs \<Rightarrow> (if bs = [] then c\<lparr>cl_ppp_fd := -1\<rparr> else bbs_write (take 256 bs) c)
      | ReadEof \<Rightarrow> c\<lparr>cl_ppp_fd := -1\<rparr>
      | ReadError \<Rightarrow> c
      | ReadRetry \<Rightarrow> c)"

definition take_rx :: "('f, 'd, 'q) sm_call \<Rightarrow> u8 list \<times> ('f, 'd, 'q) sm_call" where
  "take_rx c = (let ((n, tmp), d) = sm_deframer_take (cl_deframer c) 256 in (tmp, c\<lparr>cl_deframer := d\<rparr>))"

definition pump_ppp :: "'q sql_api \<Rightarrow> pump_env \<Rightarrow> ('f, 'd, 'q) sm_call \<Rightarrow> ('f, 'd, 'q) sm_call" where
  "pump_ppp q e c =
     (let echo = cc_echo_data (cl_cfg c) in
      if cl_phase c \<noteq> SM_CALL_DATA \<and> cl_ppp_fd c < 0 \<and> \<not> echo then c
      else (let (rc, c1) = (if cl_phase c = SM_CALL_DATA \<and> \<not> echo \<and> cc_enable_ppp (cl_cfg c) \<and> \<not> cl_ppp_started c
                            then start_pppd (pe_spawn e) c else (0, c))
            in if rc < 0 then c1\<lparr>cl_phase := SM_CALL_HANGUP\<rparr>
               else if cl_phase c1 = SM_CALL_DATA
               then (let (tmp, c2) = take_rx c1
                     in if tmp \<noteq> [] \<and> echo then pump_echo tmp c2
                        else case cl_bbs c2 of
                          Some s \<Rightarrow> pump_bbs q e tmp s c2
                        | None \<Rightarrow> pump_read (pe_read e) (ppp_flush (pe_writes e) (stage_rx tmp c2)))
               else pump_read (pe_read e) c1))"

subsection \<open>Audio\<close>

datatype bm_state = BM_RUNNING | BM_CONNECTED | BM_FAILED | BM_AGREED_V22 | BM_AGREED_OTHER | BM_RETRAINING

text \<open>A call of \<open>get_bit\<close> or of \<open>put_bit\<close> by an external engine.\<close>

datatype eng_ev = EngGet | EngPut int

record bm_obs =
  bo_status :: bm_state
  bo_phase :: string
  bo_ec :: int
  bo_rate_rx :: int
  bo_carrier :: bool
  bo_service :: "eng_ev list"
  bo_step :: "nat \<Rightarrow> int"

text \<open>What the external engines do during one chunk of audio, and the time it ends.\<close>

record chunk_env =
  ce_bm :: bm_obs
  ce_v8_tx :: "int list"
  ce_v8_results :: "(int \<times> int) list"
  ce_mod_v34 :: int
  ce_v34_init :: bool
  ce_v34_tx :: "eng_ev list \<times> int list"
  ce_v34_rx :: "eng_ev list"
  ce_v34_rate :: int

definition run_ev :: "int \<Rightarrow> eng_ev \<Rightarrow> ('f, 'd, 'q) sm_call \<Rightarrow> ('f, 'd, 'q) sm_call" where
  "run_ev v34_rate ev c = (case ev of EngGet \<Rightarrow> snd (call_get_bit c) | EngPut b \<Rightarrow> call_put_bit v34_rate b c)"

definition run_evs :: "int \<Rightarrow> eng_ev list \<Rightarrow> ('f, 'd, 'q) sm_call \<Rightarrow> ('f, 'd, 'q) sm_call" where
  "run_evs v34_rate evs c = foldl (\<lambda>c ev. run_ev v34_rate ev c) c evs"

text \<open>What follows V.8 when V.22bis carries the call: the receiver restarts, deaf for 500 ms.\<close>

definition RX_GUARD :: int where "RX_GUARD = SM_SAMPLE_RATE * 500 div 1000"

definition start_v22 :: "('f, 'd) call_fp \<Rightarrow> ('f, 'd, 'q) sm_call \<Rightarrow> ('f, 'd, 'q) sm_call" where
  "start_v22 F c =
     c\<lparr>cl_mode := SM_CALL_MODE_V22, cl_modem := v22bis_rx_restart (cf_fp F) (cl_modem c), cl_rx_guard := RX_GUARD,
       cl_phase := SM_CALL_HANDSHAKE\<rparr>"

definition bm_note :: "bm_obs \<Rightarrow> ('f, 'd, 'q) sm_call \<Rightarrow> ('f, 'd, 'q) sm_call" where
  "bm_note ob c = c\<lparr>cl_bm_phase_seen := (if bo_phase ob \<noteq> cl_bm_phase_seen c then snprintf 96 (bo_phase ob) else cl_bm_phase_seen c),
                   cl_bm_ec_seen := bo_ec ob\<rparr>"

definition bm_data :: "bm_obs \<Rightarrow> nat \<Rightarrow> ('f, 'd, 'q) sm_call \<Rightarrow> ('f, 'd, 'q) sm_call" where
  "bm_data ob n c =
     (let c1 = (if cl_phase c \<noteq> SM_CALL_DATA
                then c\<lparr>cl_deframer := sm_deframer_init, cl_phase := SM_CALL_DATA, cl_negotiated_rate := bo_rate_rx ob\<rparr>
                else c\<lparr>cl_negotiated_rate := bo_rate_rx ob\<rparr>)
      in if bo_carrier ob then c1\<lparr>cl_bm_nocarrier := 0\<rparr>
         else (let c2 = c1\<lparr>cl_bm_nocarrier := cl_bm_nocarrier c1 + int n\<rparr>
               in if cl_bm_nocarrier c2 \<ge> SM_SAMPLE_RATE div 2 then c2\<lparr>cl_phase := SM_CALL_HANGUP\<rparr> else c2))"

definition bm_poll :: "('f, 'd) call_fp \<Rightarrow> bm_obs \<Rightarrow> nat \<Rightarrow> ('f, 'd, 'q) sm_call \<Rightarrow> ('f, 'd, 'q) sm_call" where
  "bm_poll F ob n c0 =
     (let c = bm_note ob c0; st = bo_status ob
      in if st = BM_FAILED then c\<lparr>cl_phase := SM_CALL_HANGUP\<rparr>
         else if st = BM_AGREED_V22 \<or> st = BM_AGREED_OTHER
         then (start_v22 F c)\<lparr>cl_bm := False, cl_released := cl_released c @ [RelBm]\<rparr>
         else (let c1 = (if st = BM_RETRAINING \<and> cl_phase c = SM_CALL_DATA
                         then c\<lparr>cl_deframer := sm_deframer_init, cl_phase := SM_CALL_HANDSHAKE, cl_bm_nocarrier := 0\<rparr>
                         else c)
               in if st = BM_CONNECTED then bm_data ob n c1 else c1))"

definition put_tx :: "nat \<Rightarrow> int list \<Rightarrow> ('f, 'd, 'q) sm_call \<Rightarrow> ('f, 'd, 'q) sm_call" where
  "put_tx i xs c = c\<lparr>cl_txbuf := mem_write (cl_txbuf c) i xs\<rparr>"

definition v22_tx :: "('f, 'd) call_fp \<Rightarrow> int \<Rightarrow> nat \<Rightarrow> nat \<Rightarrow> ('f, 'd, 'q) sm_call \<Rightarrow> ('f, 'd, 'q) sm_call" where
  "v22_tx F rate i n c =
     (let (xs, m, c1) = v22bis_tx (cf_fp F) (modem_cb rate) n (cl_modem c, c) in put_tx i xs (c1\<lparr>cl_modem := m\<rparr>))"

definition v22_rx :: "('f, 'd) call_fp \<Rightarrow> int \<Rightarrow> int list \<Rightarrow> ('f, 'd, 'q) sm_call \<Rightarrow> ('f, 'd, 'q) sm_call" where
  "v22_rx F rate xs c =
     (let (m, c1) = v22bis_rx (cf_fp F) (modem_cb rate) xs (cl_modem c, c) in c1\<lparr>cl_modem := m\<rparr>)"

text \<open>The rest of a chunk during V.8: what the engine did not generate is silence.\<close>

definition v8_chunk :: "chunk_env \<Rightarrow> nat \<Rightarrow> nat \<Rightarrow> ('f, 'd, 'q) sm_call \<Rightarrow> ('f, 'd, 'q) sm_call" where
  "v8_chunk e i m c =
     (let got = (if cl_v8 c then take m (ce_v8_tx e) else []);
          c1 = put_tx i (got @ replicate (m - length got) 0) c
      in if cl_v8 c then foldl (\<lambda>c r. call_v8_result (ce_mod_v34 e) r c) c1 (ce_v8_results e) else c1)"

definition tone_sample :: "('f, 'd) call_fp \<Rightarrow> nat \<Rightarrow> ('f, 'd, 'q) sm_call \<Rightarrow> ('f, 'd, 'q) sm_call" where
  "tone_sample F i c =
     (let P = cf_fp F;
          c1 = (if cl_silence_left c > 0 then put_tx i [0] (c\<lparr>cl_silence_left := cl_silence_left c - 1\<rparr>)
                else if cl_tone_left c > 0
                then put_tx i [sm_sat16 P (dp_to_f P (dp_mul P (cl_tone_amplitude c) (cf_sin F (cl_tone_phase c))))]
                       (c\<lparr>cl_tone_phase := dp_add P (cl_tone_phase c) (cl_tone_phase_inc c), cl_tone_left := cl_tone_left c - 1\<rparr>)
                else c)
      in if cl_silence_left c1 \<le> 0 \<and> cl_tone_left c1 \<le> 0 then c1\<lparr>cl_phase := SM_CALL_HANDSHAKE\<rparr> else c1)"

text \<open>The rest of a chunk in an engine: first what the guard keeps from the receiver.\<close>

definition guard_chunk :: "('f, 'd) call_fp \<Rightarrow> chunk_env \<Rightarrow> nat \<Rightarrow> nat \<Rightarrow> ('f, 'd, 'q) sm_call \<Rightarrow> nat \<times> ('f, 'd, 'q) sm_call" where
  "guard_chunk F e i m c =
     (if cl_rx_guard c > 0
      then (let skip = min m (nat (cl_rx_guard c));
                c1 = v22_rx F (ce_v34_rate e) (replicate skip 0) (v22_tx F (ce_v34_rate e) i skip c)
            in (skip, c1\<lparr>cl_rx_guard := cl_rx_guard c1 - int skip\<rparr>))
      else (0, c))"

definition modem_chunk :: "('f, 'd) call_fp \<Rightarrow> chunk_env \<Rightarrow> nat \<Rightarrow> int list \<Rightarrow> ('f, 'd, 'q) sm_call \<Rightarrow> ('f, 'd, 'q) sm_call" where
  "modem_chunk F e i xs c =
     (if cl_mode c = SM_CALL_MODE_V34
      then run_evs (ce_v34_rate e) (ce_v34_rx e)
             (put_tx i (take (length xs) (snd (ce_v34_tx e))) (run_evs (ce_v34_rate e) (fst (ce_v34_tx e)) c))
      else v22_rx F (ce_v34_rate e) xs (v22_tx F (ce_v34_rate e) i (length xs) c))"

definition engine_chunk :: "('f, 'd) call_fp \<Rightarrow> chunk_env \<Rightarrow> nat \<Rightarrow> int list \<Rightarrow> ('f, 'd, 'q) sm_call \<Rightarrow> ('f, 'd, 'q) sm_call" where
  "engine_chunk F e i xs c =
     (let (skip, c1) = guard_chunk F e i (length xs) c
      in if skip < length xs then modem_chunk F e (i + skip) (drop skip xs) c1 else c1)"

text \<open>The loop over a chunk from sample \<open>i\<close> on: the answer sequence sample by sample, everything else to the
  end of the chunk.\<close>

fun audio_loop :: "('f, 'd) call_fp \<Rightarrow> chunk_env \<Rightarrow> nat \<Rightarrow> int list \<Rightarrow> ('f, 'd, 'q) sm_call \<Rightarrow> ('f, 'd, 'q) sm_call" where
  "audio_loop F e i [] c = c"
| "audio_loop F e i (x # xs) c =
     (if cl_phase c = SM_CALL_V8 then v8_chunk e i (Suc (length xs)) c
      else if cl_phase c = SM_CALL_ANSWER_TONE then audio_loop F e (Suc i) xs (tone_sample F i c)
      else engine_chunk F e i (x # xs) c)"

text \<open>\<open>v34_init\<close> and what follows when it succeeds.\<close>

definition try_v34 :: "chunk_env \<Rightarrow> ('f, 'd, 'q) sm_call \<Rightarrow> bool \<times> ('f, 'd, 'q) sm_call" where
  "try_v34 e c =
     (if ce_v34_init e
      then (True, c\<lparr>cl_v34 := True, cl_mode := SM_CALL_MODE_V34,
                    cl_v34_baud_rate := (if cc_v34_baud (cl_cfg c) \<noteq> 0 then cc_v34_baud (cl_cfg c) else 2400),
                    cl_phase := SM_CALL_HANDSHAKE, cl_taken := cl_taken c @ [RelV34]\<rparr>)
      else (False, c\<lparr>cl_v34 := False\<rparr>))"

definition v8_finish :: "('f, 'd) call_fp \<Rightarrow> chunk_env \<Rightarrow> ('f, 'd, 'q) sm_call \<Rightarrow> ('f, 'd, 'q) sm_call" where
  "v8_finish F e c =
     (let (started, c1) = (if cl_v8_ok c = 2
                           then (let (ok, c') = try_v34 e c in (ok, if ok then c' else c'\<lparr>cl_v8_ok := 1\<rparr>))
                           else (False, c))
      in if started then c1
         else if cc_use_v34 (cl_cfg c1) \<and> cl_v8_ok c1 = 0 then snd (try_v34 e c1)
         else start_v22 F c1)"

definition detect_data :: "('f, 'd, 'q) sm_call \<Rightarrow> ('f, 'd, 'q) sm_call" where
  "detect_data c =
     (if cl_mode c = SM_CALL_MODE_V22 \<and> cl_phase c = SM_CALL_HANDSHAKE \<and> \<not> cl_bm c
         \<and> t_training (cl_modem c) = TxNormal \<and> r_training (cl_modem c) = RxNormal
      then c\<lparr>cl_phase := SM_CALL_DATA, cl_negotiated_rate := v_negotiated (cl_modem c), cl_deframer := sm_deframer_init\<rparr>
      else c)"

text \<open>\<open>cap_out\<close> gets what \<open>txbuf\<close> holds when the chunk comes in.\<close>

definition capture_chunk :: "int list \<Rightarrow> ('f, 'd, 'q) sm_call \<Rightarrow> ('f, 'd, 'q) sm_call" where
  "capture_chunk xs c =
     (if (cl_cap_in c \<noteq> None \<or> cl_cap_out c \<noteq> None) \<and> cl_cap_count c < 120 * SM_SAMPLE_RATE
      then c\<lparr>cl_cap_in := map_option (\<lambda>f. f @ xs) (cl_cap_in c),
             cl_cap_out := map_option (\<lambda>f. f @ mem_read (cl_txbuf c) 0 (length xs)) (cl_cap_out c),
             cl_cap_count := cl_cap_count c + int (length xs)\<rparr>
      else c)"

text \<open>The BinModem engine's part: True when it has made the chunk's samples.\<close>

definition bm_chunk :: "('f, 'd) call_fp \<Rightarrow> chunk_env \<Rightarrow> nat \<Rightarrow> ('f, 'd, 'q) sm_call \<Rightarrow> bool \<times> ('f, 'd, 'q) sm_call" where
  "bm_chunk F e n c =
     (if \<not> cl_bm c then (False, c)
      else (let c1 = bm_poll F (ce_bm e) n c
            in if cl_bm c1
               then (True, put_tx 0 (map (bo_step (ce_bm e)) [0..<n]) (run_evs (ce_v34_rate e) (bo_service (ce_bm e)) c1))
               else (False, c1)))"

definition count_audio :: "'q sql_api \<Rightarrow> nat \<Rightarrow> ('f, 'd, 'q) sm_call \<Rightarrow> ('f, 'd, 'q) sm_call" where
  "count_audio q n c0 =
     (let c = c0\<lparr>cl_samples_in := cl_samples_in c0 + int n, cl_samples_out := cl_samples_out c0 + int n\<rparr>
      in case cl_bbs c of None \<Rightarrow> c
         | Some s \<Rightarrow> bbs_deliver (bbs_session_tick q (word_of_int (int n * 1000 div SM_SAMPLE_RATE)) s) c)"

definition process_chunk :: "('f, 'd) call_fp \<Rightarrow> 'q sql_api \<Rightarrow> chunk_env \<Rightarrow> int list \<Rightarrow> ('f, 'd, 'q) sm_call \<Rightarrow> ('f, 'd, 'q) sm_call" where
  "process_chunk F q e xs c0 =
     (let (made, c1) = bm_chunk F e (length xs) (capture_chunk xs c0);
          c2 = (if made then c1 else audio_loop F e 0 xs c1);
          c3 = (if cl_phase c2 = SM_CALL_V8 \<and> cl_v8_done c2 then v8_finish F e c2 else c2)
      in count_audio q (length xs) (detect_data c3))"

text \<open>\<open>n\<close> samples that lie at \<open>xs\<close>; more than \<open>txbuf\<close> has room for are written past it.\<close>

definition process_audio :: "('f, 'd) call_fp \<Rightarrow> 'q sql_api \<Rightarrow> chunk_env \<Rightarrow> int list \<Rightarrow> nat \<Rightarrow> ('f, 'd, 'q) sm_call \<Rightarrow> ('f, 'd, 'q) sm_call" where
  "process_audio F q e xs n c =
     (if n > TXBUF_SIZE \<or> length xs < n then c\<lparr>cl_fault := True\<rparr> else process_chunk F q e (take n xs) c)"

subsection \<open>The call\<close>

text \<open>One round of a loop: the engines, the byte path, the results of sending and of \<open>waitpid\<close>.\<close>

record round_env =
  re_chunk :: chunk_env
  re_pump :: pump_env
  re_send :: "send_ev list"
  re_waitpid :: int

definition pcm_of :: "u8 list \<Rightarrow> int list" where
  "pcm_of bs = map sint (bytes_samples bs)"

datatype 'c step = Continue nat 'c | Leave 'c

text \<open>An audio message: an odd last byte and what does not fit \<open>txbuf\<close> are cut off; the reply has as many samples.\<close>

definition audio_len :: "nat \<Rightarrow> nat" where
  "audio_len plen0 =
     (let plen = (if odd plen0 then plen0 - 1 else plen0)
      in (if plen > TXBUF_SIZE * 2 then TXBUF_SIZE * 2 else plen) div 2)"

definition audio_msg :: "('f, 'd) call_fp \<Rightarrow> 'q sql_api \<Rightarrow> round_env \<Rightarrow> ast_msg \<Rightarrow> ('f, 'd, 'q) sm_call \<Rightarrow> bool \<times> ('f, 'd, 'q) sm_call" where
  "audio_msg F q e m c =
     (let n = audio_len (msg_plen m);
          c1 = process_audio F q (re_chunk e) (pcm_of (msg_bytes m)) n c;
          (r, bytes, _) = sm_ast_write_audio (map word_of_int (mem_read (cl_txbuf c1) 0 n)) (re_send e)
      in (r \<ge> 0, c1\<lparr>cl_sent := cl_sent c1 @ bytes\<rparr>))"

text \<open>After the message: the byte path, and whether pppd has died.\<close>

definition after_msg :: "'q sql_api \<Rightarrow> round_env \<Rightarrow> ('f, 'd, 'q) sm_call \<Rightarrow> ('f, 'd, 'q) sm_call step" where
  "after_msg q e c =
     (let c1 = pump_ppp q (re_pump e) c
      in if cl_ppp_started c1 \<and> cl_pppd_pid c1 > 0 \<and> re_waitpid e = cl_pppd_pid c1
         then Leave (c1\<lparr>cl_pppd_pid := -1\<rparr>) else Continue 0 c1)"

definition call_round :: "('f, 'd) call_fp \<Rightarrow> 'q sql_api \<Rightarrow> round_env \<Rightarrow> int \<times> ast_msg option \<Rightarrow> nat \<Rightarrow> ('f, 'd, 'q) sm_call
    \<Rightarrow> ('f, 'd, 'q) sm_call step" where
  "call_round F q e res t c =
     (case res of (r, mo) \<Rightarrow>
        if r < 0 then Leave c
        else case mo of
          None \<Rightarrow> if Suc t \<ge> 5 then Leave c else Continue (Suc t) (pump_ppp q (re_pump e) c)
        | Some m \<Rightarrow>
            if msg_kind m = SM_AS_KIND_AUDIO
            then (let (ok, c1) = audio_msg F q e m c in if ok then after_msg q e c1 else Leave c1)
            else if msg_kind m = SM_AS_KIND_HANGUP \<or> msg_kind m = SM_AS_KIND_ERROR then Leave c
            else after_msg q e c)"

definition read_msg :: "io_ev list \<Rightarrow> ('f, 'd, 'q) sm_call \<Rightarrow> (int \<times> ast_msg option) \<times> ('f, 'd, 'q) sm_call \<times> io_ev list" where
  "read_msg es c =
     (let (r, m, s, es1) = sm_ast_read (cl_as c) SM_AS_MAX_PAYLOAD es in ((r, m), c\<lparr>cl_as := s\<rparr>, es1))"

text \<open>The main loop, one round for each element; False when they are used up and the call still goes on.\<close>

fun call_loop :: "('f, 'd) call_fp \<Rightarrow> 'q sql_api \<Rightarrow> round_env list \<Rightarrow> io_ev list \<Rightarrow> nat \<Rightarrow> ('f, 'd, 'q) sm_call
    \<Rightarrow> bool \<times> ('f, 'd, 'q) sm_call" where
  "call_loop F q [] es t c = (cl_phase c = SM_CALL_HANGUP, c)"
| "call_loop F q (e # evs) es t c =
     (if cl_phase c = SM_CALL_HANGUP then (True, c)
      else (let (res, c1, es1) = read_msg es c
            in case call_round F q e res t c1 of
                 Leave c2 \<Rightarrow> (True, c2)
               | Continue t2 c2 \<Rightarrow> call_loop F q evs es1 t2 c2))"

definition call_teardown :: "bool \<Rightarrow> int \<Rightarrow> ('f, 'd, 'q) sm_call \<Rightarrow> ('f, 'd, 'q) sm_call" where
  "call_teardown alive fd c =
     (let c1 = c\<lparr>cl_released := cl_released c
                   @ (if cl_cap_in c \<noteq> None then [RelCapIn] else []) @ (if cl_cap_out c \<noteq> None then [RelCapOut] else [])
                   @ (if cl_v8 c then [RelV8] else []) @ (if cl_bm c then [RelBm] else []) @ (if cl_v34 c then [RelV34] else [])
                   @ (if cl_bbs c \<noteq> None then [RelBbs] else []),
                 cl_cap_in := None, cl_cap_out := None, cl_v8 := False, cl_bm := False, cl_v34 := False, cl_bbs := None\<rparr>;
          c2 = stop_pppd alive c1
      in c2\<lparr>cl_released := cl_released c2 @ [RelFd fd]\<rparr>)"

text \<open>Waiting for the UUID: Some True when the call can start, Some False when it is given up, None while the
  rounds given do not decide.\<close>

fun wait_uuid :: "('f, 'd) call_fp \<Rightarrow> 'q sql_api \<Rightarrow> round_env list \<Rightarrow> io_ev list \<Rightarrow> ('f, 'd, 'q) sm_call
    \<Rightarrow> bool option \<times> round_env list \<times> io_ev list \<times> ('f, 'd, 'q) sm_call" where
  "wait_uuid F q [] es c = (None, [], es, c)"
| "wait_uuid F q (e # evs) es c =
     (let ((r, mo), c1, es1) = read_msg es c
      in case mo of
           None \<Rightarrow> (Some False, evs, es1, c1)
         | Some m \<Rightarrow>
             if msg_kind m = SM_AS_KIND_UUID \<and> msg_plen m \<ge> 16 then (Some True, evs, es1, c1)
             else if msg_kind m = SM_AS_KIND_AUDIO
             then (Some True, evs, es1, process_audio F q (re_chunk e) (pcm_of (msg_bytes m)) (msg_plen m div 2) c1)
             else wait_uuid F q evs es1 c1)"

text \<open>The result, None while the call goes on.\<close>

definition sm_call_run :: "('f, 'd) call_fp \<Rightarrow> 'q sql_api \<Rightarrow> bool \<Rightarrow> round_env list \<Rightarrow> io_ev list \<Rightarrow> int \<Rightarrow> ('f, 'd, 'q) sm_call
    \<Rightarrow> int option \<times> ('f, 'd, 'q) sm_call" where
  "sm_call_run F q alive evs es fd c0 =
     (let (go, evs1, es1, c1) = wait_uuid F q evs es (c0\<lparr>cl_as := sm_ast_init fd, cl_taken := cl_taken c0 @ [RelFd fd]\<rparr>)
      in case go of
           None \<Rightarrow> (None, c1)
         | Some False \<Rightarrow> (Some (-1), c1)
         | Some True \<Rightarrow>
             (let (left, c2) = call_loop F q evs1 es1 0 c1
              in if left then (Some 0, call_teardown alive fd c2) else (None, c2)))"

end
