(* ===== verification/Call_Inv.thy ===== *)
theory Call_Inv
  imports Call
begin

text \<open>
  What every step of a call keeps: the modem's callbacks touch only the bit queue, the deframer,
  the phase and the rate, so a chunk of audio leaves the rest of the call alone; and the engine in
  charge, the byte buffers, pppd and the answer sequence stay consistent over every round.
\<close>

subsection \<open>Frames\<close>

definition queues_ok :: "('f, 'd, 'q) sm_call \<Rightarrow> bool" where
  "queues_ok c \<longleftrightarrow> bitq_inv (cl_txbits c) \<and> deframer_inv (cl_deframer c)"

text \<open>\<open>c\<close> differs from \<open>c0\<close> only in what an engine may touch.\<close>

definition engine_frame :: "('f, 'd, 'q) sm_call \<Rightarrow> ('f, 'd, 'q) sm_call \<Rightarrow> bool" where
  "engine_frame c0 c \<longleftrightarrow>
     c\<lparr>cl_txbits := cl_txbits c0, cl_deframer := cl_deframer c0, cl_phase := cl_phase c0,
       cl_negotiated_rate := cl_negotiated_rate c0, cl_modem := cl_modem c0, cl_txbuf := cl_txbuf c0\<rparr> = c0
     \<and> (queues_ok c0 \<longrightarrow> queues_ok c) \<and> cl_phase c \<in> {cl_phase c0, SM_CALL_DATA, SM_CALL_HANDSHAKE}"

lemma engine_frame_refl [simp]: "engine_frame c c"
  by (simp add: engine_frame_def)

lemma engine_frame_trans [trans]: "engine_frame a b \<Longrightarrow> engine_frame b c \<Longrightarrow> engine_frame a c"
proof -
  assume ab: "engine_frame a b" and bc: "engine_frame b c"
  let ?r = "\<lambda>x y. x\<lparr>cl_txbits := cl_txbits y, cl_deframer := cl_deframer y, cl_phase := cl_phase y,
       cl_negotiated_rate := cl_negotiated_rate y, cl_modem := cl_modem y, cl_txbuf := cl_txbuf y\<rparr>"
  from ab bc have e: "?r b a = a" "?r c b = b" by (simp_all add: engine_frame_def)
  have "?r c a = ?r (?r c b) a" by simp
  with e have "?r c a = a" by simp
  with ab bc show ?thesis by (auto simp: engine_frame_def)
qed

lemma engine_frameD:
  assumes "engine_frame c0 c"
  shows "cl_cfg c = cl_cfg c0" "cl_mode c = cl_mode c0" "cl_v34 c = cl_v34 c0" "cl_bm c = cl_bm c0" "cl_bbs c = cl_bbs c0"
    "cl_tone_left c = cl_tone_left c0" "cl_silence_left c = cl_silence_left c0" "cl_ppp_fd c = cl_ppp_fd c0"
    "cl_pppd_pid c = cl_pppd_pid c0" "cl_ppp_started c = cl_ppp_started c0" "cl_v8 c = cl_v8 c0" "cl_v8_done c = cl_v8_done c0"
    "cl_v8_ok c = cl_v8_ok c0" "cl_rx_guard c = cl_rx_guard c0" "cl_ppy_out c = cl_ppy_out c0" "cl_fault c = cl_fault c0"
    "cl_samples_in c = cl_samples_in c0" "cl_samples_out c = cl_samples_out c0" "cl_sent c = cl_sent c0"
    "cl_to_ppp c = cl_to_ppp c0" "cl_released c = cl_released c0" "cl_as c = cl_as c0"
    "cl_phase c = cl_phase c0 \<or> cl_phase c = SM_CALL_DATA \<or> cl_phase c = SM_CALL_HANDSHAKE" "queues_ok c0 \<Longrightarrow> queues_ok c"
proof -
  let ?r = "c\<lparr>cl_txbits := cl_txbits c0, cl_deframer := cl_deframer c0, cl_phase := cl_phase c0,
       cl_negotiated_rate := cl_negotiated_rate c0, cl_modem := cl_modem c0, cl_txbuf := cl_txbuf c0\<rparr>"
  have e: "?r = c0" using assms by (simp add: engine_frame_def)
  show "cl_cfg c = cl_cfg c0" using arg_cong [OF e, of cl_cfg] by simp
  show "cl_mode c = cl_mode c0" using arg_cong [OF e, of cl_mode] by simp
  show "cl_v34 c = cl_v34 c0" using arg_cong [OF e, of cl_v34] by simp
  show "cl_bm c = cl_bm c0" using arg_cong [OF e, of cl_bm] by simp
  show "cl_bbs c = cl_bbs c0" using arg_cong [OF e, of cl_bbs] by simp
  show "cl_tone_left c = cl_tone_left c0" using arg_cong [OF e, of cl_tone_left] by simp
  show "cl_silence_left c = cl_silence_left c0" using arg_cong [OF e, of cl_silence_left] by simp
  show "cl_ppp_fd c = cl_ppp_fd c0" using arg_cong [OF e, of cl_ppp_fd] by simp
  show "cl_pppd_pid c = cl_pppd_pid c0" using arg_cong [OF e, of cl_pppd_pid] by simp
  show "cl_ppp_started c = cl_ppp_started c0" using arg_cong [OF e, of cl_ppp_started] by simp
  show "cl_v8 c = cl_v8 c0" using arg_cong [OF e, of cl_v8] by simp
  show "cl_v8_done c = cl_v8_done c0" using arg_cong [OF e, of cl_v8_done] by simp
  show "cl_v8_ok c = cl_v8_ok c0" using arg_cong [OF e, of cl_v8_ok] by simp
  show "cl_rx_guard c = cl_rx_guard c0" using arg_cong [OF e, of cl_rx_guard] by simp
  show "cl_ppy_out c = cl_ppy_out c0" using arg_cong [OF e, of cl_ppy_out] by simp
  show "cl_fault c = cl_fault c0" using arg_cong [OF e, of cl_fault] by simp
  show "cl_samples_in c = cl_samples_in c0" using arg_cong [OF e, of cl_samples_in] by simp
  show "cl_samples_out c = cl_samples_out c0" using arg_cong [OF e, of cl_samples_out] by simp
  show "cl_sent c = cl_sent c0" using arg_cong [OF e, of cl_sent] by simp
  show "cl_to_ppp c = cl_to_ppp c0" using arg_cong [OF e, of cl_to_ppp] by simp
  show "cl_released c = cl_released c0" using arg_cong [OF e, of cl_released] by simp
  show "cl_as c = cl_as c0" using arg_cong [OF e, of cl_as] by simp
  show "cl_phase c = cl_phase c0 \<or> cl_phase c = SM_CALL_DATA \<or> cl_phase c = SM_CALL_HANDSHAKE" "queues_ok c0 \<Longrightarrow> queues_ok c"
    using assms by (auto simp: engine_frame_def)
qed

subsection \<open>The callbacks\<close>

lemma push_byte_inv: "bitq_inv b \<Longrightarrow> bitq_inv (snd (sm_bitq_push_byte b x))"
  using push_bytes_items [of b "[x]"] push_byte_refused [of b x]
  by (cases "sm_bitq_count b + 10 \<le> 65536") (auto simp: push_bytes_def)

lemma push_all_inv: "bitq_inv b \<Longrightarrow> bitq_inv (snd (push_all xs b))"
proof (induction xs arbitrary: b)
  case (Cons x xs)
  from Cons.IH [OF push_byte_inv [OF Cons.prems, of x]] push_byte_inv [OF Cons.prems, of x] show ?case
    by (auto simp: Let_def split: prod.split)
qed simp

lemma get_bit_frame: "engine_frame c0 c \<Longrightarrow> engine_frame c0 (snd (call_get_bit c))"
proof -
  have "engine_frame c (snd (call_get_bit c))"
    using bitq.inv_pop [of "cl_txbits c"]
    by (auto simp: call_get_bit_def Let_def split_beta engine_frame_def queues_ok_def)
  then show "engine_frame c0 c \<Longrightarrow> engine_frame c0 (snd (call_get_bit c))" by (rule engine_frame_trans [rotated])
qed

lemma put_bit_frame: "engine_frame c0 c \<Longrightarrow> engine_frame c0 (call_put_bit r b c)"
proof -
  have "engine_frame c (call_put_bit r b c)"
    by (auto simp: call_put_bit_def deframe_def engine_frame_def queues_ok_def deframer_bit_inv)
  then show "engine_frame c0 c \<Longrightarrow> engine_frame c0 (call_put_bit r b c)" by (rule engine_frame_trans [rotated])
qed

lemma status_frame: "engine_frame c0 c \<Longrightarrow> engine_frame c0 (call_status st c)"
proof -
  have "engine_frame c (call_status st c)"
    by (auto simp: call_status_def engine_frame_def queues_ok_def deframer_inv_init)
  then show "engine_frame c0 c \<Longrightarrow> engine_frame c0 (call_status st c)" by (rule engine_frame_trans [rotated])
qed

interpretation call_line: line_user "modem_cb rate" "engine_frame c0" for rate c0
  by unfold_locales (auto simp: modem_cb_def get_bit_frame put_bit_frame status_frame)

lemma modem_frame: "engine_frame c0 c \<Longrightarrow> engine_frame c0 (c\<lparr>cl_modem := m\<rparr>)"
  by (erule engine_frame_trans) (simp add: engine_frame_def queues_ok_def)

lemma put_tx_frame: "engine_frame c (put_tx i xs c)"
  by (simp add: put_tx_def engine_frame_def queues_ok_def)

lemma v22_tx_frame: "engine_frame c (v22_tx F r i n c)"
proof -
  have "engine_frame c (snd (snd (v22bis_tx (cf_fp F) (modem_cb r) n (cl_modem c, c))))"
    by (rule call_line.v22bis_tx_keeps) simp
  then show ?thesis
    by (auto simp: v22_tx_def Let_def split_beta intro: engine_frame_trans [OF _ put_tx_frame] modem_frame)
qed

lemma v22_rx_frame: "engine_frame c (v22_rx F r xs c)"
proof -
  have "engine_frame c (snd (v22bis_rx (cf_fp F) (modem_cb r) xs (cl_modem c, c)))"
    by (rule call_line.v22bis_rx_keeps) simp
  then show ?thesis by (auto simp: v22_rx_def Let_def split_beta intro: modem_frame)
qed

lemma run_evs_frame: "engine_frame c (run_evs r evs c)"
proof (induction evs arbitrary: c)
  case (Cons ev evs)
  have "engine_frame c (run_ev r ev c)"
    by (cases ev) (simp_all add: run_ev_def get_bit_frame put_bit_frame)
  also have "engine_frame (run_ev r ev c) (run_evs r (ev # evs) c)" using Cons.IH by (simp add: run_evs_def)
  finally show ?case .
qed (simp add: run_evs_def)

lemma modem_chunk_frame: "engine_frame c (modem_chunk F e i xs c)"
  by (auto simp: modem_chunk_def intro: engine_frame_trans [OF v22_tx_frame v22_rx_frame]
      engine_frame_trans [OF engine_frame_trans [OF run_evs_frame put_tx_frame] run_evs_frame])

subsection \<open>The invariant\<close>

text \<open>Which engine is in charge of what phase, and the half second of silence after V.8. The lengths of the answer
  sequence are as configured while the products that compute them stay below 2^31.\<close>

definition tone_ms_ok :: "call_config \<Rightarrow> bool" where
  "tone_ms_ok cfg \<longleftrightarrow> cc_answer_tone_ms cfg \<le> 268435 \<and> cc_pre_tone_silence_ms cfg \<le> 268435"

definition engines_ok :: "('f, 'd, 'q) sm_call \<Rightarrow> bool" where
  "engines_ok c \<longleftrightarrow> (cl_mode c = SM_CALL_MODE_V34 \<longrightarrow> cl_v34 c \<and> \<not> cl_bm c)
     \<and> (cl_bm c \<longrightarrow> \<not> cl_v8 c \<and> \<not> cl_v8_done c)
     \<and> (cl_phase c = SM_CALL_V8 \<longrightarrow> (cl_bm c \<or> cl_v8 c) \<and> cl_rx_guard c = 0 \<and> cl_mode c = SM_CALL_MODE_V22 \<and> \<not> cl_v34 c)
     \<and> (cl_phase c = SM_CALL_ANSWER_TONE \<longrightarrow> \<not> cl_bm c \<and> cl_rx_guard c = 0 \<and> cl_mode c = SM_CALL_MODE_V22
          \<and> (tone_ms_ok (cl_cfg c) \<longrightarrow> cl_silence_left c > 0 \<or> cl_tone_left c > 0))
     \<and> cl_phase c \<noteq> SM_CALL_IDLE
     \<and> 0 \<le> cl_rx_guard c \<and> cl_rx_guard c \<le> RX_GUARD \<and> (cl_rx_guard c > 0 \<longrightarrow> cl_mode c = SM_CALL_MODE_V22)"

definition bytes_ok :: "('f, 'd, 'q) sm_call \<Rightarrow> bool" where
  "bytes_ok c \<longleftrightarrow> queues_ok c \<and> length (cl_ppy_out c) \<le> PPY_OUT_SIZE
     \<and> (cl_ppp_started c \<longrightarrow> cc_enable_ppp (cl_cfg c) \<and> \<not> cc_echo_data (cl_cfg c))
     \<and> (\<not> cl_ppp_started c \<longrightarrow> cl_ppp_fd c < 0 \<and> cl_pppd_pid c \<le> 0)"

definition call_ok :: "('f, 'd, 'q) sm_call \<Rightarrow> bool" where
  "call_ok c \<longleftrightarrow> engines_ok c \<and> bytes_ok c \<and> cl_bbs c = None"

lemma bytes_ok_frame: "engine_frame c0 c \<Longrightarrow> bytes_ok c0 \<Longrightarrow> bytes_ok c"
  by (simp add: bytes_ok_def engine_frameD [of c0 c])

lemma RX_GUARD_value: "RX_GUARD = 4000"
  by (simp add: RX_GUARD_def SM_SAMPLE_RATE_def)

text \<open>An engine runs only outside V.8 and the answer sequence, or is BinModem, so it cannot upset them.\<close>

lemma engines_ok_frame:
  assumes "engine_frame c0 c" and "engines_ok c0"
  shows "engines_ok c"
proof -
  note d = engine_frameD(1-4,6,7,11,12,14) [OF assms(1)]
  from engine_frameD(23) [OF assms(1)] show ?thesis
    by (elim disjE) (use assms(2) d in \<open>simp_all add: engines_ok_def\<close>)
qed

lemma call_ok_frame: "engine_frame c0 c \<Longrightarrow> call_ok c0 \<Longrightarrow> call_ok c"
  by (simp add: call_ok_def bytes_ok_frame engines_ok_frame engine_frameD(5))

lemma capture_ok [simp]: "call_ok (capture_chunk xs c) = call_ok c"
  by (simp add: capture_chunk_def call_ok_def engines_ok_def bytes_ok_def queues_ok_def)

text \<open>The fields the invariant does not read.\<close>

lemma call_ok_upd [simp]:
  "call_ok (c\<lparr>cl_v8_ok := k\<rparr>) = call_ok c"
  "call_ok (c\<lparr>cl_bm_phase_seen := p\<rparr>) = call_ok c" "call_ok (c\<lparr>cl_bm_ec_seen := n\<rparr>) = call_ok c"
  "call_ok (c\<lparr>cl_bm_nocarrier := n\<rparr>) = call_ok c" "call_ok (c\<lparr>cl_negotiated_rate := n\<rparr>) = call_ok c"
  "call_ok (c\<lparr>cl_released := rs\<rparr>) = call_ok c" "call_ok (c\<lparr>cl_samples_in := n\<rparr>) = call_ok c"
  "call_ok (c\<lparr>cl_samples_out := n\<rparr>) = call_ok c" "call_ok (c\<lparr>cl_sent := bs\<rparr>) = call_ok c"
  "call_ok (c\<lparr>cl_to_ppp := bs\<rparr>) = call_ok c" "call_ok (c\<lparr>cl_bytes_rx := n\<rparr>) = call_ok c"
  "call_ok (c\<lparr>cl_bytes_tx := n\<rparr>) = call_ok c" "call_ok (c\<lparr>cl_as := a\<rparr>) = call_ok c"
  "call_ok (c\<lparr>cl_taken := rs\<rparr>) = call_ok c" "call_ok (c\<lparr>cl_fault := f\<rparr>) = call_ok c"
  by (simp_all add: call_ok_def engines_ok_def bytes_ok_def queues_ok_def)

lemma call_ok_pid: "call_ok c \<Longrightarrow> n \<le> 0 \<Longrightarrow> call_ok (c\<lparr>cl_pppd_pid := n\<rparr>)"
  by (simp add: call_ok_def engines_ok_def bytes_ok_def queues_ok_def)

lemma call_ok_hangup: "call_ok c \<Longrightarrow> call_ok (c\<lparr>cl_phase := SM_CALL_HANGUP\<rparr>)"
  by (simp add: call_ok_def engines_ok_def bytes_ok_def queues_ok_def)

lemma call_ok_reset:
  "call_ok c \<Longrightarrow> call_ok (c\<lparr>cl_deframer := sm_deframer_init, cl_phase := SM_CALL_DATA\<rparr>)"
  "call_ok c \<Longrightarrow> call_ok (c\<lparr>cl_deframer := sm_deframer_init, cl_phase := SM_CALL_HANDSHAKE\<rparr>)"
  "call_ok c \<Longrightarrow> call_ok (c\<lparr>cl_deframer := sm_deframer_init\<rparr>)"
  "call_ok c \<Longrightarrow> call_ok (c\<lparr>cl_phase := SM_CALL_DATA\<rparr>)"
  by (simp_all add: call_ok_def engines_ok_def bytes_ok_def queues_ok_def deframer_inv_init)

lemma start_v22_ok: "call_ok c \<Longrightarrow> call_ok (start_v22 F c)"
  by (simp add: start_v22_def call_ok_def engines_ok_def bytes_ok_def queues_ok_def RX_GUARD_value)

lemma bm_data_ok:
  assumes "call_ok c"
  shows "call_ok (bm_data ob n c)"
proof -
  have 1: "call_ok (c\<lparr>cl_deframer := sm_deframer_init, cl_phase := SM_CALL_DATA, cl_negotiated_rate := r\<rparr>)" for r
    using call_ok_reset [OF assms] by simp
  then show ?thesis
    using assms by (auto simp: bm_data_def Let_def call_ok_reset intro!: call_ok_hangup)
qed

lemma bm_poll_ok:
  assumes "call_ok c" and "cl_bm c"
  shows "call_ok (bm_poll F ob n c)"
proof -
  have n: "call_ok (bm_note ob c)" using assms by (simp add: bm_note_def)
  have v: "call_ok ((start_v22 F (bm_note ob c))\<lparr>cl_bm := False, cl_released := l\<rparr>)" for l
    using start_v22_ok [OF n, of F] by (simp add: start_v22_def call_ok_def engines_ok_def bytes_ok_def queues_ok_def)
  have r: "call_ok ((bm_note ob c)\<lparr>cl_deframer := sm_deframer_init, cl_phase := SM_CALL_HANDSHAKE, cl_bm_nocarrier := k\<rparr>)" for k
    using call_ok_reset [OF n] by simp
  show ?thesis
    using n v r bm_data_ok [OF n] call_ok_hangup [OF n] by (simp add: bm_poll_def Let_def)
qed

lemma bm_chunk_ok:
  assumes "call_ok c"
  shows "call_ok (snd (bm_chunk F e n c))"
  using bm_poll_ok [OF assms] assms
  by (auto simp: bm_chunk_def Let_def intro: call_ok_frame [OF engine_frame_trans [OF run_evs_frame put_tx_frame]])

lemma foldl_keeps: "(\<And>x a. P a \<Longrightarrow> P (f a x)) \<Longrightarrow> P a \<Longrightarrow> P (foldl f a xs)"
  by (induction xs arbitrary: a) auto

lemma call_ok_v8_done: "call_ok c \<Longrightarrow> \<not> cl_bm c \<Longrightarrow> call_ok (c\<lparr>cl_v8_done := d\<rparr>)"
  by (auto simp: call_ok_def engines_ok_def bytes_ok_def queues_ok_def)

lemma v8_result_ok: "call_ok c \<and> \<not> cl_bm c \<Longrightarrow> call_ok (call_v8_result m r c) \<and> \<not> cl_bm (call_v8_result m r c)"
  by (cases r) (simp add: call_v8_result_def call_ok_v8_done)

lemma v8_chunk_ok:
  assumes "call_ok c"
  shows "call_ok (v8_chunk e i m c)"
proof -
  have p: "call_ok (put_tx i xs c)" for xs using call_ok_frame [OF put_tx_frame assms] .
  have "call_ok (foldl (\<lambda>c r. call_v8_result m r c) (put_tx i xs c) rs)" if "cl_v8 c" for m xs rs
  proof -
    have "\<not> cl_bm (put_tx i xs c)" using that assms by (auto simp: put_tx_def call_ok_def engines_ok_def)
    with p have "call_ok (put_tx i xs c) \<and> \<not> cl_bm (put_tx i xs c)" by simp
    from foldl_keeps [of "\<lambda>c. call_ok c \<and> \<not> cl_bm c" "\<lambda>c r. call_v8_result m r c", OF v8_result_ok this]
    show ?thesis by blast
  qed
  with p show ?thesis by (simp add: v8_chunk_def Let_def)
qed

lemma tone_sample_ok:
  assumes "call_ok c" and "cl_phase c = SM_CALL_ANSWER_TONE"
  shows "call_ok (tone_sample F i c)"
  using assms by (auto simp: tone_sample_def put_tx_def Let_def call_ok_def engines_ok_def bytes_ok_def queues_ok_def)

lemma guard_chunk_ok:
  assumes "call_ok c"
  shows "call_ok (snd (guard_chunk F e i m c))"
proof (cases "cl_rx_guard c > 0")
  case True
  define skip where "skip = min m (nat (cl_rx_guard c))"
  define c1 where "c1 = v22_rx F (ce_v34_rate e) (replicate skip 0) (v22_tx F (ce_v34_rate e) i skip c)"
  have f: "engine_frame c c1" unfolding c1_def by (rule engine_frame_trans [OF v22_tx_frame v22_rx_frame])
  have "call_ok c1" using call_ok_frame [OF f assms] .
  moreover have "int skip \<le> cl_rx_guard c1" "cl_rx_guard c1 = cl_rx_guard c" "cl_rx_guard c > 0"
    using engine_frameD(14) [OF f] True by (auto simp: skip_def)
  ultimately have "call_ok (c1\<lparr>cl_rx_guard := cl_rx_guard c1 - int skip\<rparr>)"
    by (auto simp: call_ok_def engines_ok_def bytes_ok_def queues_ok_def)
  with True show ?thesis by (simp add: guard_chunk_def Let_def skip_def [symmetric] c1_def [symmetric])
qed (simp add: guard_chunk_def assms)

lemma engine_chunk_ok:
  assumes "call_ok c"
  shows "call_ok (engine_chunk F e i xs c)"
  using guard_chunk_ok [OF assms, of F e i "length xs"]
  by (auto simp: engine_chunk_def split_beta intro: call_ok_frame [OF modem_chunk_frame])

lemma audio_loop_ok: "call_ok c \<Longrightarrow> call_ok (audio_loop F e i xs c)"
  by (induction F e i xs c rule: audio_loop.induct)
    (simp_all add: v8_chunk_ok tone_sample_ok engine_chunk_ok)

text \<open>V.8 ends with an engine in charge.\<close>

lemma v8_finish_ok:
  assumes "call_ok c" and "cl_phase c = SM_CALL_V8" and "cl_v8_done c"
  shows "call_ok (v8_finish F e c)"
proof -
  have nb: "\<not> cl_bm c" using assms by (auto simp: call_ok_def engines_ok_def)
  have t: "call_ok (snd (try_v34 e c))"
    using assms nb by (auto simp: try_v34_def call_ok_def engines_ok_def bytes_ok_def queues_ok_def)
  have f: "\<not> fst (try_v34 e c) \<Longrightarrow> snd (try_v34 e c) = c\<lparr>cl_v34 := False\<rparr>"
    by (simp add: try_v34_def split: if_splits)
  have n: "call_ok (c\<lparr>cl_v34 := False\<rparr>)" using assms by (auto simp: call_ok_def engines_ok_def bytes_ok_def queues_ok_def)
  then have "call_ok (start_v22 F (c\<lparr>cl_v34 := False, cl_v8_ok := 1\<rparr>))" by (intro start_v22_ok) simp
  then show ?thesis
    using t f n start_v22_ok [OF assms(1)] by (auto simp: v8_finish_def Let_def split_beta)
qed

lemma detect_data_ok: "call_ok c \<Longrightarrow> call_ok (detect_data c)"
  by (simp add: detect_data_def call_ok_reset)

lemma call_ok_no_bbs: "call_ok c \<Longrightarrow> cl_bbs c = None"
  by (simp add: call_ok_def)

lemma count_audio_ok: "call_ok c \<Longrightarrow> call_ok (count_audio q n c)"
  using call_ok_no_bbs [of c] by (simp add: count_audio_def Let_def)

lemma process_chunk_ok:
  assumes "call_ok c"
  shows "call_ok (process_chunk F q e xs c)"
proof -
  obtain made c1 where b: "bm_chunk F e (length xs) (capture_chunk xs c) = (made, c1)" by fastforce
  have "call_ok c1" using bm_chunk_ok [of "capture_chunk xs c" F e "length xs"] assms b by simp
  then have "call_ok (if made then c1 else audio_loop F e 0 xs c1)" by (simp add: audio_loop_ok)
  with b show ?thesis
    by (simp add: process_chunk_def Let_def count_audio_ok detect_data_ok v8_finish_ok)
qed

lemma process_audio_ok: "call_ok c \<Longrightarrow> call_ok (process_audio F q e xs n c)"
  by (simp add: process_audio_def process_chunk_ok)

subsection \<open>The byte path\<close>

lemma start_pppd_result:
  assumes "start_pppd e c = (rc, c')"
  shows "(rc = 0 \<and> 0 \<le> se_fork e \<and> (\<exists>a b. se_socketpair e = Some (a, b)
        \<and> c' = c\<lparr>cl_pppd_pid := se_fork e, cl_ppp_fd := b, cl_ppp_started := True,
               cl_taken := cl_taken c @ [RelFd b, RelTerm (se_fork e)]\<rparr>))
    \<or> (rc = -1 \<and> c' = c\<lparr>cl_pppd_pid := -1\<rparr>)"
proof (cases "se_socketpair e")
  case None
  with assms show ?thesis by (auto simp: start_pppd_def sm_pppd_spawn_def)
next
  case (Some p)
  with assms show ?thesis by (cases p) (auto simp: start_pppd_def sm_pppd_spawn_def Let_def split: if_splits)
qed

lemma start_pppd_ok:
  assumes "call_ok c" and "cc_enable_ppp (cl_cfg c)" and "\<not> cc_echo_data (cl_cfg c)" and "start_pppd e c = (rc, c')"
  shows "call_ok c'"
proof -
  have "call_ok (c\<lparr>cl_pppd_pid := p, cl_ppp_fd := f, cl_ppp_started := True, cl_taken := rs\<rparr>)" for p f rs
    using assms(1-3) by (simp add: call_ok_def engines_ok_def bytes_ok_def queues_ok_def)
  with start_pppd_result [OF assms(4)] call_ok_pid [OF assms(1), of "-1"] show ?thesis by auto
qed

lemma bbs_write_frame: "call_ok c \<Longrightarrow> call_ok (bbs_write bs c)"
  using push_all_inv [of "cl_txbits c" bs]
  by (auto simp: bbs_write_def split_beta Let_def call_ok_def engines_ok_def bytes_ok_def queues_ok_def)

lemma flush_loop_shrinks: "flush_loop es t b = (t', b') \<Longrightarrow> t' @ b' = t @ b \<and> length b' \<le> length b"
  by (induction es t b rule: flush_loop.induct) (fastforce split: if_splits)+

lemma ppp_flush_ok:
  assumes "call_ok c"
  shows "call_ok (ppp_flush es c)"
proof -
  obtain t b where f: "flush_loop es (cl_to_ppp c) (cl_ppy_out c) = (t, b)" by fastforce
  have "call_ok (c\<lparr>cl_ppy_out := b\<rparr>)"
    using flush_loop_shrinks [OF f] assms by (simp add: call_ok_def engines_ok_def bytes_ok_def queues_ok_def)
  moreover have "call_ok (c\<lparr>cl_to_ppp := t, cl_ppy_out := b\<rparr>) = call_ok (c\<lparr>cl_ppy_out := b\<rparr>)"
    by (simp add: call_ok_def engines_ok_def bytes_ok_def queues_ok_def)
  ultimately show ?thesis using assms f by (simp add: ppp_flush_def)
qed

lemma stage_rx_ok: "call_ok c \<Longrightarrow> call_ok (stage_rx tmp c)"
  by (auto simp: stage_rx_def call_ok_def engines_ok_def bytes_ok_def queues_ok_def min_def)

lemma pump_read_ok: "call_ok c \<Longrightarrow> call_ok (pump_read r c)"
proof -
  assume c: "call_ok c"
  then have "cl_ppp_fd c \<ge> 0 \<Longrightarrow> call_ok (c\<lparr>cl_ppp_fd := -1\<rparr>)"
    by (simp add: call_ok_def engines_ok_def bytes_ok_def queues_ok_def)
  with c bbs_write_frame [OF c] show ?thesis
    by (auto simp: pump_read_def split: read_res.split)
qed

lemma take_rx_ok: "call_ok c \<Longrightarrow> call_ok (snd (take_rx c))"
  using deframer_take_inv [of "cl_deframer c" 256]
  by (auto simp: take_rx_def split_beta Let_def call_ok_def engines_ok_def bytes_ok_def queues_ok_def)

lemma pump_echo_ok: "call_ok c \<Longrightarrow> call_ok (pump_echo tmp c)"
  using foldl_keeps [of bitq_inv "\<lambda>b x. snd (sm_bitq_push_byte b x)" "cl_txbits c" tmp, OF push_byte_inv]
  by (simp add: pump_echo_def call_ok_def engines_ok_def bytes_ok_def queues_ok_def)

lemma pump_ppp_ok:
  assumes "call_ok c"
  shows "call_ok (pump_ppp q e c)"
proof -
  let ?start = "cl_phase c = SM_CALL_DATA \<and> \<not> cc_echo_data (cl_cfg c) \<and> cc_enable_ppp (cl_cfg c) \<and> \<not> cl_ppp_started c"
  obtain rc c1 where s: "(if ?start then start_pppd (pe_spawn e) c else (0, c)) = (rc, c1)" by fastforce
  have c1: "call_ok c1"
    using assms s start_pppd_ok [OF assms, of "pe_spawn e" rc c1] by (auto split: if_splits)
  obtain tmp c2 where t: "take_rx c1 = (tmp, c2)" by fastforce
  have c2: "call_ok c2" using take_rx_ok [OF c1] t by simp
  have "call_ok (pump_read (pe_read e) (ppp_flush (pe_writes e) (stage_rx tmp c2)))"
    by (intro pump_read_ok ppp_flush_ok stage_rx_ok c2)
  then show ?thesis
    using s t c1 c2 assms
    by (simp add: pump_ppp_def Let_def split_beta call_ok_hangup pump_read_ok pump_echo_ok call_ok_no_bbs)
qed

subsection \<open>The call\<close>

lemma call_round_ok:
  assumes "call_ok c"
  shows "case call_round F q e res t c of Leave c' \<Rightarrow> call_ok c' | Continue t' c' \<Rightarrow> call_ok c'"
proof -
  have a: "case after_msg q e c of Leave c' \<Rightarrow> call_ok c' | Continue t' c' \<Rightarrow> call_ok c'" if "call_ok c" for c :: "('a, 'b, 'c) sm_call"
    using pump_ppp_ok [OF that, of q "re_pump e"] by (simp add: after_msg_def Let_def call_ok_pid)
  have m: "call_ok (snd (audio_msg F q e m c))" for m
    using process_audio_ok [OF assms, of F q "re_chunk e" "pcm_of (msg_bytes m)" "audio_len (msg_plen m)"]
    by (simp add: audio_msg_def Let_def split_beta)
  show ?thesis
    using a m assms pump_ppp_ok [OF assms]
    by (auto simp: call_round_def Let_def split_beta split: option.split)
qed

lemma read_msg_ok: "call_ok c \<Longrightarrow> read_msg es c = (res, c', es') \<Longrightarrow> call_ok c'"
  by (auto simp: read_msg_def split_beta Let_def)

lemma call_loop_ok: "call_ok c \<Longrightarrow> call_ok (snd (call_loop F q evs es t c))"
proof (induction F q evs es t c rule: call_loop.induct)
  case (2 F q e evs es t c)
  show ?case
  proof (cases "cl_phase c = SM_CALL_HANGUP")
    case False
    obtain res c1 es1 where r: "read_msg es c = (res, c1, es1)" by (metis prod_cases3)
    have "call_ok c1" using read_msg_ok [OF 2(2) r] .
    with call_round_ok [of c1 F q e res t] False r 2(1) [OF False r [symmetric] refl] show ?thesis
      by (simp split: step.split_asm step.split)
  qed (simp add: 2)
qed simp

lemma wait_uuid_ok:
  "call_ok c \<Longrightarrow> wait_uuid F q evs es c = (go, evs', es', c') \<Longrightarrow> call_ok c'"
proof (induction F q evs es c rule: wait_uuid.induct)
  case (2 F q e evs es c)
  obtain r mo c1 es1 where r: "read_msg es c = ((r, mo), c1, es1)" by (metis prod.collapse)
  have c1: "call_ok c1" using read_msg_ok [OF 2(2) r] .
  show ?case
  proof (cases mo)
    case None
    with 2(3) r c1 show ?thesis by simp
  next
    case (Some m)
    note ih = 2(1) [OF r [symmetric] refl refl Some]
    show ?thesis
      using 2(3) r c1 Some ih
        process_audio_ok [OF c1, of F q "re_chunk e" "pcm_of (msg_bytes m)" "msg_plen m div 2"]
      by (auto split: if_splits)
  qed
qed simp

lemma stop_pppd_ok:
  assumes "call_ok c"
  shows "call_ok (stop_pppd alive c)"
proof -
  have "call_ok (c\<lparr>cl_ppp_fd := -1, cl_released := rs, cl_pppd_pid := -1\<rparr>)" "call_ok (c\<lparr>cl_released := rs, cl_pppd_pid := -1\<rparr>)"
    "call_ok (c\<lparr>cl_released := rs, cl_ppp_fd := -1\<rparr>)" for rs
    using assms by (simp_all add: call_ok_def engines_ok_def bytes_ok_def queues_ok_def)
  with assms show ?thesis by (simp add: stop_pppd_def Let_def)
qed

lemma c_int_id: "- (2 ^ 31) \<le> x \<Longrightarrow> x < 2 ^ 31 \<Longrightarrow> c_int x = x"
  unfolding c_int_def sint_sbintrunc' by (rule signed_take_bit_int_eq_self) simp_all

lemma samples_of_ms_exact: "- 268435 \<le> ms \<Longrightarrow> ms \<le> 268435 \<Longrightarrow> samples_of_ms ms = c_div (ms * 8000) 1000"
  by (simp add: samples_of_ms_def SM_SAMPLE_RATE_def c_int_id)

lemma samples_of_ms_eight: "0 \<le> ms \<Longrightarrow> ms \<le> 268435 \<Longrightarrow> samples_of_ms ms = 8 * ms"
  by (simp add: samples_of_ms_exact c_div_nonneg)

lemma init_ok: "call_ok (sm_call_init F e cfg call_id :: ('a, 'b, 'c) sm_call)"
proof -
  define c0 :: "('a, 'b, 'c) sm_call" where "c0 = tone_setup F (call_capture (ie_capture e) (call_zero F cfg call_id))"
  have b: "bytes_ok c0" "cl_bbs c0 = None" "cl_mode c0 = SM_CALL_MODE_V22" "\<not> cl_bm c0" "\<not> cl_v8 c0" "\<not> cl_v8_done c0"
    "cl_rx_guard c0 = 0" "queues_ok c0" "\<not> cl_v34 c0" "cl_cfg c0 = cfg"
    by (auto simp: c0_def tone_setup_def call_capture_def call_zero_def bytes_ok_def queues_ok_def PPY_OUT_SIZE_def bitq_inv_init
        deframer_inv_init Let_def split: option.split)
  have t: "samples_of_ms x > 0" if "x > 0" "x \<le> 268435" for x
    using that samples_of_ms_eight [of x] by simp
  have bm: "call_ok (c0\<lparr>cl_bm := True, cl_phase := SM_CALL_V8\<rparr>)" and v8: "call_ok (c0\<lparr>cl_v8 := True, cl_phase := SM_CALL_V8\<rparr>)"
    and hs: "call_ok (c0\<lparr>cl_phase := SM_CALL_HANDSHAKE\<rparr>)"
    and tn: "(tone_ms_ok cfg \<Longrightarrow> a > 0 \<or> b > 0) \<Longrightarrow>
       call_ok (c0\<lparr>cl_phase := SM_CALL_ANSWER_TONE, cl_silence_left := a, cl_tone_left := b\<rparr>)" for a b
    using b RX_GUARD_value by (simp_all add: call_ok_def engines_ok_def bytes_ok_def queues_ok_def)
  have tk: "call_ok (c0\<lparr>cl_bm := True, cl_phase := SM_CALL_V8, cl_taken := ts\<rparr>) = call_ok (c0\<lparr>cl_bm := True, cl_phase := SM_CALL_V8\<rparr>)"
    "call_ok (c0\<lparr>cl_v8 := True, cl_phase := SM_CALL_V8, cl_taken := ts\<rparr>) = call_ok (c0\<lparr>cl_v8 := True, cl_phase := SM_CALL_V8\<rparr>)" for ts
    by (simp_all add: call_ok_def engines_ok_def bytes_ok_def queues_ok_def)
  have s: "samples_of_ms (cc_pre_tone_silence_ms cfg) > 0 \<or> samples_of_ms (cc_answer_tone_ms cfg) > 0"
    if "cc_answer_tone_ms cfg > 0 \<or> cc_pre_tone_silence_ms cfg > 0" "tone_ms_ok cfg"
    using that t by (auto simp: tone_ms_ok_def)
  show ?thesis
    using bm v8 hs tn [OF s] tk unfolding sm_call_init_def Let_def c0_def [symmetric] by simp
qed

end
