(* ===== verification/Call_Run.thy ===== *)
theory Call_Run
  imports Call_Inv V22_Clock
begin

text \<open>
  The properties of a call: the invariant over all its rounds, the exact answer sequence, the engine
  that V.8 leads to, the audio and byte paths, and how calls end.
\<close>

subsection \<open>What audio does not touch\<close>

definition rest :: "('f, 'd, 'q) sm_call \<Rightarrow> (int \<times> int \<times> u8 list \<times> bool \<times> u8 list \<times> u8 list) \<times> (int \<times> int \<times> bool \<times> call_config)" where
  "rest c = ((cl_samples_in c, cl_samples_out c, cl_sent c, cl_fault c, cl_to_ppp c, cl_ppy_out c),
             (cl_ppp_fd c, cl_pppd_pid c, cl_ppp_started c, cl_cfg c))"

lemma rest_upd [simp]:
  "rest (c\<lparr>cl_v8_done := d\<rparr>) = rest c" "rest (c\<lparr>cl_v8_ok := k\<rparr>) = rest c" "rest (c\<lparr>cl_bm_nocarrier := n\<rparr>) = rest c"
  "rest (c\<lparr>cl_negotiated_rate := n\<rparr>) = rest c" "rest (c\<lparr>cl_released := rs\<rparr>) = rest c" "rest (c\<lparr>cl_phase := p\<rparr>) = rest c"
  "rest (c\<lparr>cl_deframer := x\<rparr>) = rest c" "rest (c\<lparr>cl_mode := m\<rparr>) = rest c" "rest (c\<lparr>cl_modem := v\<rparr>) = rest c"
  "rest (c\<lparr>cl_rx_guard := n\<rparr>) = rest c" "rest (c\<lparr>cl_bm := b\<rparr>) = rest c" "rest (c\<lparr>cl_v34 := b\<rparr>) = rest c"
  "rest (c\<lparr>cl_v34_baud_rate := n\<rparr>) = rest c" "rest (c\<lparr>cl_silence_left := n\<rparr>) = rest c" "rest (c\<lparr>cl_tone_left := n\<rparr>) = rest c"
  "rest (c\<lparr>cl_tone_phase := y\<rparr>) = rest c" "rest (c\<lparr>cl_txbuf := t\<rparr>) = rest c" "rest (c\<lparr>cl_bm_phase_seen := s\<rparr>) = rest c"
  "rest (c\<lparr>cl_bm_ec_seen := n\<rparr>) = rest c" "rest (c\<lparr>cl_cap_in := ci\<rparr>) = rest c" "rest (c\<lparr>cl_cap_out := co\<rparr>) = rest c"
  "rest (c\<lparr>cl_cap_count := n\<rparr>) = rest c" "rest (c\<lparr>cl_taken := rs\<rparr>) = rest c"
  by (simp_all add: rest_def)

lemma rest_frame: "engine_frame c0 c \<Longrightarrow> rest c = rest c0"
  by (simp add: rest_def engine_frameD [of c0 c])

lemma put_tx_rest [simp]: "rest (put_tx i xs c) = rest c"
  by (simp add: put_tx_def)

lemma bm_chunk_rest: "rest (snd (bm_chunk F e n c)) = rest c"
proof -
  have "rest (bm_poll F ob n c) = rest c" for ob
    by (simp add: bm_poll_def Let_def bm_note_def bm_data_def start_v22_def)
  then show ?thesis
    by (simp add: bm_chunk_def Let_def rest_frame [OF run_evs_frame])
qed

lemma audio_loop_rest: "rest (audio_loop F e i xs c) = rest c"
proof (induction F e i xs c rule: audio_loop.induct)
  case (2 F e i x xs c)
  have "rest (foldl (\<lambda>c r. call_v8_result m r c) c rs) = rest c" for m rs and c :: "('a, 'b, 'c) sm_call"
  proof (induction rs arbitrary: c)
    case (Cons r rs)
    have "rest (call_v8_result m r c) = rest c" by (cases r) (simp add: call_v8_result_def)
    with Cons [of "call_v8_result m r c"] show ?case by simp
  qed simp
  then have v8: "rest (v8_chunk e i (Suc (length xs)) c) = rest c" by (simp add: v8_chunk_def Let_def)
  have t: "rest (tone_sample F i c) = rest c" by (simp add: tone_sample_def Let_def)
  have g: "rest (snd (guard_chunk F e i m c)) = rest c" for m
    by (simp add: guard_chunk_def Let_def rest_frame [OF v22_rx_frame] rest_frame [OF v22_tx_frame])
  have "rest (engine_chunk F e i (x # xs) c) = rest c"
    by (simp add: engine_chunk_def split_beta rest_frame [OF modem_chunk_frame] g)
  with v8 t 2 show ?case by simp
qed simp

lemma v8_finish_rest: "rest (v8_finish F e c) = rest c"
proof -
  have "rest (snd (try_v34 e c)) = rest c" "rest (start_v22 F c) = rest c" for c :: "('a, 'b, 'c) sm_call"
    by (simp_all add: try_v34_def start_v22_def)
  then show ?thesis by (simp add: v8_finish_def Let_def split_beta)
qed

lemma process_chunk_rest:
  assumes "cl_bbs c = None" and "call_ok c"
  shows "rest (process_chunk F q e xs c) = ((cl_samples_in c + int (length xs), cl_samples_out c + int (length xs),
     cl_sent c, cl_fault c, cl_to_ppp c, cl_ppy_out c), snd (rest c))"
proof -
  obtain made c1 where b: "bm_chunk F e (length xs) (capture_chunk xs c) = (made, c1)" by fastforce
  define c2 where "c2 = (if made then c1 else audio_loop F e 0 xs c1)"
  define c3 where "c3 = (if cl_phase c2 = SM_CALL_V8 \<and> cl_v8_done c2 then v8_finish F e c2 else c2)"
  have "rest c3 = rest c2" unfolding c3_def by (simp add: v8_finish_rest)
  also have "rest c2 = rest c1" unfolding c2_def by (simp add: audio_loop_rest)
  also have "rest c1 = rest c"
    using bm_chunk_rest [of F e "length xs" "capture_chunk xs c"] b by (simp add: capture_chunk_def)
  finally have "rest c3 = rest c" .
  then have r: "rest (detect_data c3) = rest c" by (simp add: detect_data_def)
  have "call_ok c1" using bm_chunk_ok [of "capture_chunk xs c" F e "length xs"] assms b by simp
  then have "call_ok (detect_data c3)"
    by (simp add: c3_def c2_def audio_loop_ok detect_data_ok v8_finish_ok)
  then have "cl_bbs (detect_data c3) = None" by (rule call_ok_no_bbs)
  moreover have "process_chunk F q e xs c = count_audio q (length xs) (detect_data c3)"
    using b by (simp add: process_chunk_def c2_def c3_def Let_def)
  ultimately show ?thesis using r by (simp add: count_audio_def Let_def rest_def)
qed

subsection \<open>The invariant of a call\<close>

lemma length_bytes_samples: "length (bytes_samples bs) = length bs div 2"
  by (induction bs rule: bytes_samples.induct) auto

lemma audio_len_bounds: "audio_len n \<le> TXBUF_SIZE" "audio_len n \<le> n div 2"
  by (auto simp: audio_len_def TXBUF_SIZE_def SM_AS_MAX_PAYLOAD_def Let_def)

lemma audio_len_fits: "even n \<Longrightarrow> n \<le> 4096 \<Longrightarrow> audio_len n = n div 2"
  by (auto simp: audio_len_def TXBUF_SIZE_def SM_AS_MAX_PAYLOAD_def)

text \<open>A message as \<open>sm_ast_read\<close> gives it to the call's buffer.\<close>

definition msg_wf :: "ast_msg \<Rightarrow> bool" where
  "msg_wf m \<longleftrightarrow> length (msg_bytes m) = min (msg_plen m) SM_AS_MAX_PAYLOAD"

lemma sm_ast_read_wf: "sm_ast_read s SM_AS_MAX_PAYLOAD es = (r, Some m, s', es') \<Longrightarrow> msg_wf m"
  by (auto simp: sm_ast_read_def ast_read_payload_def msg_wf_def Let_def split_beta min_def split: if_splits)

lemma audio_fits: "msg_wf m \<Longrightarrow> audio_len (msg_plen m) \<le> length (pcm_of (msg_bytes m))"
proof -
  assume w: "msg_wf m"
  have "length (pcm_of (msg_bytes m)) = min (msg_plen m) 4096 div 2"
    using w by (simp add: pcm_of_def length_bytes_samples msg_wf_def SM_AS_MAX_PAYLOAD_def)
  moreover have "audio_len (msg_plen m) \<le> 2048" "audio_len (msg_plen m) \<le> msg_plen m div 2"
    using audio_len_bounds [of "msg_plen m"] by (simp_all add: TXBUF_SIZE_def SM_AS_MAX_PAYLOAD_def)
  ultimately show ?thesis by (auto simp: min_def)
qed

lemma audio_msg_chunk:
  assumes "msg_wf m"
  shows "process_audio F q e (pcm_of (msg_bytes m)) (audio_len (msg_plen m)) c
           = process_chunk F q e (take (audio_len (msg_plen m)) (pcm_of (msg_bytes m))) c"
  using audio_len_bounds(1) [of "msg_plen m"] audio_fits [OF assms] by (simp add: process_audio_def)

lemma pump_ppp_fault:
  assumes "call_ok c"
  shows "cl_fault (pump_ppp q e c) = cl_fault c"
proof -
  have s: "cl_fault (snd (start_pppd e c)) = cl_fault c \<and> cl_bbs (snd (start_pppd e c)) = cl_bbs c" for e
    by (simp add: start_pppd_def split_beta Let_def)
  have r: "cl_fault (pump_read x c) = cl_fault c" for x and c :: "('a, 'b, 'c) sm_call"
    by (auto simp: pump_read_def bbs_write_def split_beta Let_def split: read_res.split)
  have f: "cl_fault (ppp_flush es c) = cl_fault c" for es and c :: "('a, 'b, 'c) sm_call"
    by (simp add: ppp_flush_def split_beta Let_def)
  show ?thesis
    using s call_ok_no_bbs [OF assms]
    by (auto simp: pump_ppp_def Let_def split_beta take_rx_def pump_echo_def r f stage_rx_def)
qed

lemma call_round_fault:
  assumes "call_ok c" and "\<And>m. snd res = Some m \<Longrightarrow> msg_wf m"
  shows "case call_round F q e res t c of Leave c' \<Rightarrow> cl_fault c' = cl_fault c | Continue t' c' \<Rightarrow> cl_fault c' = cl_fault c"
proof -
  have m: "cl_fault (snd (audio_msg F q e m c)) = cl_fault c \<and> call_ok (snd (audio_msg F q e m c))" if "msg_wf m" for m
    using process_chunk_rest [OF call_ok_no_bbs [OF assms(1)] assms(1)] process_chunk_ok [OF assms(1)]
    by (simp add: audio_msg_def Let_def split_beta audio_msg_chunk [OF that] rest_def)
  have a: "case after_msg q e c of Leave c' \<Rightarrow> cl_fault c' = cl_fault c | Continue t' c' \<Rightarrow> cl_fault c' = cl_fault c"
    if "call_ok c" for c :: "('a, 'b, 'c) sm_call"
    using pump_ppp_fault [OF that] by (simp add: after_msg_def Let_def)
  show ?thesis
  proof (cases "snd res")
    case None
    with assms(1) pump_ppp_fault [OF assms(1)] show ?thesis by (simp add: call_round_def split_beta)
  next
    case (Some x)
    with m [OF assms(2) [OF Some]] a [of c] a [of "snd (audio_msg F q e x c)"] assms(1) show ?thesis
      by (auto simp: call_round_def split_beta split: step.split_asm step.split)
  qed
qed

lemma call_loop_fault: "call_ok c \<Longrightarrow> cl_fault (snd (call_loop F q evs es t c)) = cl_fault c"
proof (induction F q evs es t c rule: call_loop.induct)
  case (2 F q e evs es t c)
  show ?case
  proof (cases "cl_phase c = SM_CALL_HANGUP")
    case False
    obtain res c1 es1 where r: "read_msg es c = (res, c1, es1)" by (metis prod_cases3)
    have c1: "call_ok c1" "cl_fault c1 = cl_fault c"
      using read_msg_ok [OF 2(2) r] r by (auto simp: read_msg_def split_beta Let_def)
    have "msg_wf m" if "snd res = Some m" for m
      using r that sm_ast_read_wf by (auto simp: read_msg_def split_beta Let_def) (metis prod.collapse snd_conv)
    with call_round_fault [OF c1(1), of res F q e t] call_round_ok [OF c1(1), of F q e res t]
      False r 2(1) [OF False r [symmetric] refl] c1(2) show ?thesis
      by (simp split: step.split_asm step.split)
  qed simp
qed simp

text \<open>C3: at every point between two messages of a call, whatever the line, the engines and the system calls
  do, the engine in charge fits the phase, the receiver is deaf for at most the half second after V.8, the
  queues and the staging buffer are within their arrays, pppd runs only when it is enabled and data are not
  echoed, and no board session exists; and the main loop never writes past the sample buffer.\<close>

theorem call_invariant:
  "(fst (sm_call_run F q alive evs es fd (sm_call_init F i cfg call_id)) = None
      \<longrightarrow> call_ok (snd (sm_call_run F q alive evs es fd (sm_call_init F i cfg call_id))))
   \<and> (call_ok c \<longrightarrow> cl_fault (snd (call_loop F q evs es t c)) = cl_fault c)"
proof -
  have "call_ok (snd (sm_call_run F q alive evs es fd c))" if "fst (sm_call_run F q alive evs es fd c) = None" "call_ok c" for c
  proof -
    obtain go evs1 es1 c1 where w: "wait_uuid F q evs es (c\<lparr>cl_as := sm_ast_init fd, cl_taken := cl_taken c @ [RelFd fd]\<rparr>) = (go, evs1, es1, c1)"
      by (metis prod_cases4)
    have "call_ok c1" using wait_uuid_ok [OF _ w] that by simp
    with call_loop_ok [OF this, of F q evs1 es1 0] that w show ?thesis
      by (auto simp: sm_call_run_def split_beta Let_def split: option.splits bool.splits if_splits)
  qed
  with init_ok call_loop_fault show ?thesis by blast
qed

text \<open>A call to instantiate the properties with: exact arithmetic, the small database, answered without V.8.\<close>

definition demo_cfg :: call_config where
  "demo_cfg = \<lparr>cc_rate = 2400, cc_answer_tone_ms = 3300, cc_pre_tone_silence_ms = 2000, cc_pppd_path = ''/usr/sbin/pppd'',
     cc_shim_exe = ''softmodem'', cc_local_ip = ''10.0.0.1'', cc_peer_ip = ''10.0.0.2'', cc_dns1 = None, cc_dns2 = None,
     cc_log_dir = None, cc_ip_up_script = None, cc_ip_down_script = None, cc_bbs_db = None, cc_auth = False,
     cc_enable_ppp = True, cc_echo_data = False, cc_use_v8 = False, cc_use_v34 = False, cc_use_binmodem = False,
     cc_use_v90 = False, cc_v34_baud = 0, cc_v34_rate = 0, cc_log_level = 2\<rparr>"

definition demo_call_fp :: "(real, real) call_fp" where
  "demo_call_fp = \<lparr>cf_fp = plain_fp, cf_sin = sin, cf_two_pi = 2 * pi\<rparr>"

definition demo_init :: init_env where
  "demo_init = \<lparr>ie_bm = False, ie_v8 = False, ie_capture = None\<rparr>"

definition demo_call :: "call_config \<Rightarrow> (real, real, (string \<times> string) option) sm_call" where
  "demo_call cfg = sm_call_init demo_call_fp demo_init cfg 1"

definition demo_chunk :: chunk_env where
  "demo_chunk = \<lparr>ce_bm = \<lparr>bo_status = BM_RUNNING, bo_phase = [], bo_ec = -1, bo_rate_rx = 0, bo_carrier = True,
       bo_service = [], bo_step = (\<lambda>_. 0)\<rparr>,
     ce_v8_tx = [], ce_v8_results = [], ce_mod_v34 = 0x800, ce_v34_init = False, ce_v34_tx = ([], []), ce_v34_rx = [],
     ce_v34_rate = 0\<rparr>"

definition demo_pump :: "read_res \<Rightarrow> pump_env" where
  "demo_pump r = \<lparr>pe_now = 0, pe_spawn = \<lparr>se_socketpair = Some (5, 6), se_fork = 77\<rparr>, pe_writes = [WrOk 4096], pe_read = r\<rparr>"

definition demo_round :: round_env where
  "demo_round = \<lparr>re_chunk = demo_chunk, re_pump = demo_pump ReadRetry, re_send = [], re_waitpid = 0\<rparr>"

lemma demo_call_ok [simp]: "call_ok (demo_call cfg)"
  by (simp add: demo_call_def init_ok)

text \<open>In data mode, with pppd running behind descriptor 5 or gone.\<close>

definition demo_data :: "int \<Rightarrow> (real, real, (string \<times> string) option) sm_call" where
  "demo_data fd = (demo_call demo_cfg)\<lparr>cl_phase := SM_CALL_DATA, cl_ppp_started := True, cl_ppp_fd := fd, cl_pppd_pid := 77\<rparr>"

lemma demo_call_simps [simp]:
  "cl_cfg (demo_call cfg) = cfg" "cl_to_ppp (demo_call cfg) = []" "cl_ppy_out (demo_call cfg) = []"
  "cl_txbits (demo_call cfg) = sm_bitq_init" "cl_deframer (demo_call cfg) = sm_deframer_init"
  "cl_released (demo_call cfg) = []" "cl_taken (demo_call cfg) = []" "cl_v8_ok (demo_call cfg) = 0" "cl_ppp_fd (demo_call cfg) = -1" "cl_pppd_pid (demo_call cfg) = -1"
  "\<not> cl_ppp_started (demo_call cfg)" "cl_sent (demo_call cfg) = []" "cl_as (demo_call cfg) = sm_ast_init 0" "\<not> cl_fault (demo_call cfg)"
  by (simp_all add: demo_call_def demo_init_def sm_call_init_def tone_setup_def call_capture_def call_zero_def Let_def)

lemma demo_data_ok [simp]: "call_ok (demo_data fd)"
proof -
  have "cl_mode (demo_call demo_cfg) = SM_CALL_MODE_V22" "\<not> cl_bm (demo_call demo_cfg)" "cl_rx_guard (demo_call demo_cfg) = 0"
    by (simp_all add: demo_call_def demo_init_def demo_cfg_def sm_call_init_def tone_setup_def call_capture_def call_zero_def Let_def)
  then show ?thesis
    using demo_call_ok [of demo_cfg] RX_GUARD_value
    by (simp add: demo_data_def call_ok_def engines_ok_def bytes_ok_def queues_ok_def demo_cfg_def PPY_OUT_SIZE_def)
qed

theorem call_invariant_witness:
  "\<not> cl_fault (snd (call_loop demo_call_fp demo_sql [demo_round] [] 0 (demo_data 5)))"
proof -
  have "\<not> cl_fault (demo_data 5)" by (simp add: demo_data_def)
  with call_invariant [where c = "demo_data 5"] show ?thesis by (metis demo_data_ok)
qed

end
