(* ===== verification/Call_Path.thy ===== *)
theory Call_Path
  imports Call_Run
begin

text \<open>
  The answer sequence of a call without V.8: which samples are sent before the modem gets the line.
\<close>

subsection \<open>The answer sequence\<close>

text \<open>The samples still to be sent before the handshake: silence, then the tone's.\<close>

definition tone_at :: "('f, 'd) call_fp \<Rightarrow> ('f, 'd, 'q) sm_call \<Rightarrow> nat \<Rightarrow> int" where
  "tone_at F c k = sm_sat16 (cf_fp F) (dp_to_f (cf_fp F) (dp_mul (cf_fp F) (cl_tone_amplitude c)
     (cf_sin F (((\<lambda>p. dp_add (cf_fp F) p (cl_tone_phase_inc c)) ^^ k) (cl_tone_phase c)))))"

definition answer_signal :: "('f, 'd) call_fp \<Rightarrow> ('f, 'd, 'q) sm_call \<Rightarrow> int list" where
  "answer_signal F c = replicate (nat (cl_silence_left c)) 0 @ map (tone_at F c) [0..<nat (cl_tone_left c)]"

lemma answer_signal_phase [simp]: "answer_signal F (c\<lparr>cl_phase := p\<rparr>) = answer_signal F c"
  by (simp add: answer_signal_def tone_at_def)

lemma mem_write_one: "mem_write a i [x] = a(i := x)"
  by (auto simp: mem_write_def fun_eq_iff)

lemma tone_sample_step:
  assumes "cl_phase c = SM_CALL_ANSWER_TONE" and "answer_signal F c = x # rest_signal"
  shows "answer_signal F (tone_sample F i c) = rest_signal \<and> cl_txbuf (tone_sample F i c) = (cl_txbuf c)(i := x)
    \<and> cl_phase (tone_sample F i c) = (if rest_signal = [] then SM_CALL_HANDSHAKE else SM_CALL_ANSWER_TONE)
    \<and> cl_modem (tone_sample F i c) = cl_modem c"
proof (cases "cl_silence_left c > 0")
  case True
  define k where "k = nat (cl_silence_left c) - 1"
  have k: "nat (cl_silence_left c) = Suc k" "nat (cl_silence_left c - 1) = k" using True by (auto simp: k_def)
  have t: "tone_at F (c\<lparr>cl_silence_left := n, cl_txbuf := b\<rparr>) = tone_at F c" for n b
    by (simp add: tone_at_def fun_eq_iff)
  have s: "tone_sample F i c = (let c1 = c\<lparr>cl_silence_left := cl_silence_left c - 1, cl_txbuf := (cl_txbuf c)(i := 0)\<rparr>
      in if cl_silence_left c - 1 \<le> 0 \<and> cl_tone_left c \<le> 0 then c1\<lparr>cl_phase := SM_CALL_HANDSHAKE\<rparr> else c1)"
    using True by (simp add: tone_sample_def put_tx_def mem_write_one Let_def)
  have x: "x = 0" "rest_signal = replicate k 0 @ map (tone_at F c) [0..<nat (cl_tone_left c)]"
    using assms(2) by (simp_all add: answer_signal_def k(1))
  have e: "(rest_signal = []) = (cl_silence_left c - 1 \<le> 0 \<and> cl_tone_left c \<le> 0)"
    using x(2) k by auto
  have r: "answer_signal F (c\<lparr>cl_silence_left := cl_silence_left c - 1, cl_txbuf := (cl_txbuf c)(i := 0)\<rparr>) = rest_signal"
    using x(2) k(2) by (simp add: answer_signal_def t)
  show ?thesis using r x(1) e assms(1) unfolding s Let_def by simp
next
  case False
  then have n: "nat (cl_silence_left c) = 0" by simp
  have tl: "cl_tone_left c > 0"
    by (rule ccontr) (use assms(2) n in \<open>simp add: answer_signal_def\<close>)
  define k where "k = nat (cl_tone_left c) - 1"
  have k: "nat (cl_tone_left c) = Suc k" "nat (cl_tone_left c - 1) = k" using tl by (auto simp: k_def)
  let ?c1 = "c\<lparr>cl_tone_phase := dp_add (cf_fp F) (cl_tone_phase c) (cl_tone_phase_inc c), cl_tone_left := cl_tone_left c - 1,
     cl_txbuf := (cl_txbuf c)(i := tone_at F c 0)\<rparr>"
  have s: "tone_sample F i c = (if cl_tone_left c - 1 \<le> 0 then ?c1\<lparr>cl_phase := SM_CALL_HANDSHAKE\<rparr> else ?c1)"
    using False tl by (simp add: tone_sample_def put_tx_def mem_write_one Let_def tone_at_def)
  have t: "tone_at F ?c1 j = tone_at F c (Suc j)" for j
    by (simp add: tone_at_def funpow_Suc_right del: funpow.simps)
  have sg: "answer_signal F c = tone_at F c 0 # map (tone_at F c) [Suc 0..<Suc k]"
    by (simp add: answer_signal_def n k(1) upt_rec [of 0] del: upt_Suc)
  have "map (tone_at F c) [Suc 0..<Suc k] = map (tone_at F ?c1) [0..<k]"
    by (rule nth_equalityI) (simp_all add: t del: upt_Suc)
  then have "x # rest_signal = tone_at F c 0 # map (tone_at F ?c1) [0..<k]" using assms(2) sg by (simp only:)
  then have x: "x = tone_at F c 0" "rest_signal = map (tone_at F ?c1) [0..<k]" by (simp_all only: list.inject)
  have r: "answer_signal F ?c1 = rest_signal" using x(2) n k(2) by (simp add: answer_signal_def)
  have e: "(rest_signal = []) = (cl_tone_left c - 1 \<le> 0)" using x(2) k by auto
  show ?thesis using r x(1) e assms(1) unfolding s by simp
qed

text \<open>Engines write from their place in the chunk on.\<close>

interpretation call_txbuf: line_user "modem_cb rate" "\<lambda>u. cl_txbuf u = t" for rate t
  by unfold_locales
    (auto simp: modem_cb_def call_get_bit_def call_put_bit_def call_status_def deframe_def split_beta Let_def)

lemma mem_write_below: "j < i \<Longrightarrow> mem_write a i xs j = a j"
  by (simp add: mem_write_def)

lemma v22_tx_below: "j < i \<Longrightarrow> cl_txbuf (v22_tx F r i n c) j = cl_txbuf c j"
  using call_txbuf.v22bis_tx_keeps [OF refl, of "cf_fp F" r n "cl_modem c" c]
  by (auto simp: v22_tx_def split_beta Let_def put_tx_def mem_write_below)

lemma v22_rx_txbuf [simp]: "cl_txbuf (v22_rx F r xs c) = cl_txbuf c"
  using call_txbuf.v22bis_rx_keeps [OF refl, of "cf_fp F" r xs "cl_modem c" c]
  by (auto simp: v22_rx_def split_beta Let_def)

lemma run_evs_txbuf [simp]: "cl_txbuf (run_evs r evs c) = cl_txbuf c"
proof (induction evs arbitrary: c)
  case (Cons ev evs)
  have "cl_txbuf (run_ev r ev c) = cl_txbuf c"
    by (cases ev) (auto simp: run_ev_def call_get_bit_def call_put_bit_def deframe_def split_beta Let_def)
  with Cons [of "run_ev r ev c"] show ?case by (simp add: run_evs_def)
qed (simp add: run_evs_def)

lemma engine_chunk_below:
  assumes "j < i"
  shows "cl_txbuf (engine_chunk F e i xs c) j = cl_txbuf c j"
proof -
  have g: "cl_txbuf (snd (guard_chunk F e i m c)) j = cl_txbuf c j" for m
    using assms by (simp add: guard_chunk_def Let_def v22_tx_below)
  have m: "cl_txbuf (modem_chunk F e (i + k) ys c) j = cl_txbuf c j" for k ys and c :: "('a, 'b, 'c) sm_call"
    using assms by (simp add: modem_chunk_def v22_tx_below put_tx_def mem_write_below)
  show ?thesis using g m by (simp add: engine_chunk_def split_beta)
qed

lemma audio_loop_handshake: "cl_phase c = SM_CALL_HANDSHAKE \<Longrightarrow>
    audio_loop F e i xs c = (if xs = [] then c else engine_chunk F e i xs c)"
  by (cases xs) simp_all

text \<open>A chunk that comes in during the sequence.\<close>

lemma audio_loop_answer:
  assumes "cl_phase c = SM_CALL_ANSWER_TONE" and "answer_signal F c \<noteq> []"
  shows "mem_read (cl_txbuf (audio_loop F e i xs c)) i (min (length xs) (length (answer_signal F c)))
           = take (length xs) (answer_signal F c)
    \<and> (\<forall>j < i. cl_txbuf (audio_loop F e i xs c) j = cl_txbuf c j)
    \<and> (length xs < length (answer_signal F c) \<longrightarrow>
         cl_phase (audio_loop F e i xs c) = SM_CALL_ANSWER_TONE
         \<and> answer_signal F (audio_loop F e i xs c) = drop (length xs) (answer_signal F c)
         \<and> cl_modem (audio_loop F e i xs c) = cl_modem c)"
  using assms
proof (induction xs arbitrary: i c)
  case Nil
  then show ?case by simp
next
  case (Cons x xs)
  obtain y ys where a: "answer_signal F c = y # ys" using Cons.prems(2) by (cases "answer_signal F c") auto
  note st = tone_sample_step [OF Cons.prems(1) a, of i]
  define c1 where "c1 = tone_sample F i c"
  have l: "audio_loop F e i (x # xs) c = audio_loop F e (Suc i) xs c1"
    using Cons.prems by (simp add: c1_def)
  have cons: "mem_read t i (Suc n) = t i # mem_read t (Suc i) n" for t :: "nat \<Rightarrow> int" and n
    by (simp add: mem_read_def upt_conv_Cons map_Suc_upt [symmetric] comp_def del: upt_Suc)
  show ?case
  proof (cases "ys = []")
    case True
    with st have h: "cl_phase c1 = SM_CALL_HANDSHAKE" "cl_txbuf c1 = (cl_txbuf c)(i := y)" by (simp_all add: c1_def)
    have "cl_txbuf (audio_loop F e (Suc i) xs c1) j = cl_txbuf c1 j" if "j < Suc i" for j
      by (simp add: audio_loop_handshake [OF h(1)] engine_chunk_below [OF that])
    with h a True l show ?thesis
      by (simp add: mem_read_def)
  next
    case False
    with st have h: "cl_phase c1 = SM_CALL_ANSWER_TONE" "answer_signal F c1 = ys" "cl_txbuf c1 = (cl_txbuf c)(i := y)"
      "cl_modem c1 = cl_modem c"
      by (simp_all add: c1_def)
    have ih: "mem_read (cl_txbuf (audio_loop F e (Suc i) xs c1)) (Suc i) (min (length xs) (length ys)) = take (length xs) ys"
      "\<forall>j < Suc i. cl_txbuf (audio_loop F e (Suc i) xs c1) j = cl_txbuf c1 j"
      "length xs < length ys \<Longrightarrow> cl_phase (audio_loop F e (Suc i) xs c1) = SM_CALL_ANSWER_TONE
         \<and> answer_signal F (audio_loop F e (Suc i) xs c1) = drop (length xs) ys
         \<and> cl_modem (audio_loop F e (Suc i) xs c1) = cl_modem c1"
      using Cons.IH [of c1 "Suc i"] h(1,2) False by auto
    from ih(2) h(3) have "cl_txbuf (audio_loop F e (Suc i) xs c1) i = y" by simp
    with ih h a show ?thesis unfolding l by (simp add: cons)
  qed
qed

text \<open>A call that is played chunk after chunk, and the samples it sends.\<close>

fun play :: "('f, 'd) call_fp \<Rightarrow> 'q sql_api \<Rightarrow> (chunk_env \<times> int list) list \<Rightarrow> ('f, 'd, 'q) sm_call \<Rightarrow> int list" where
  "play F q [] c = []"
| "play F q ((e, xs) # chunks) c =
     (let c1 = process_chunk F q e xs c in mem_read (cl_txbuf c1) 0 (length xs) @ play F q chunks c1)"

lemma process_chunk_answer:
  fixes F :: "('f, 'd) call_fp" and q :: "'q sql_api" and c :: "('f, 'd, 'q) sm_call" and e :: chunk_env and xs :: "int list"
  assumes ok: "call_ok c" and ph: "cl_phase c = SM_CALL_ANSWER_TONE" and ms: "tone_ms_ok (cl_cfg c)"
  defines "c1 \<equiv> process_chunk F q e xs c"
  shows "mem_read (cl_txbuf c1) 0 (min (length xs) (length (answer_signal F c))) = take (length xs) (answer_signal F c)
    \<and> (length xs < length (answer_signal F c) \<longrightarrow> cl_phase c1 = SM_CALL_ANSWER_TONE
         \<and> answer_signal F c1 = drop (length xs) (answer_signal F c) \<and> cl_modem c1 = cl_modem c)"
proof -
  have ne: "answer_signal F c \<noteq> []" and nb: "\<not> cl_bm c" and bbs: "cl_bbs c = None"
    using ok ph ms by (auto simp: call_ok_def engines_ok_def answer_signal_def)
  define c0 where "c0 = capture_chunk xs c"
  have c0: "cl_phase c0 = SM_CALL_ANSWER_TONE" "answer_signal F c0 = answer_signal F c" "cl_modem c0 = cl_modem c"
    "\<not> cl_bm c0" "call_ok c0"
    using ph nb ok by (simp_all add: c0_def) (simp_all add: capture_chunk_def answer_signal_def tone_at_def)
  define c2 where "c2 = audio_loop F e 0 xs c0"
  note al = audio_loop_answer [OF c0(1), of F e 0 xs, folded c2_def, unfolded c0(2), OF ne]
  have ok2: "call_ok c2" using c0(5) by (simp add: c2_def audio_loop_ok)
  define c3 where "c3 = detect_data (if cl_phase c2 = SM_CALL_V8 \<and> cl_v8_done c2 then v8_finish F e c2 else c2)"
  have "call_ok c3" using ok2 by (simp add: c3_def detect_data_ok v8_finish_ok)
  moreover have "c1 = count_audio q (length xs) c3"
    using c0(4) unfolding c1_def process_chunk_def bm_chunk_def c3_def c2_def Let_def c0_def [symmetric] by simp
  ultimately have "c1 = c3\<lparr>cl_samples_in := cl_samples_in c3 + int (length xs), cl_samples_out := cl_samples_out c3 + int (length xs)\<rparr>"
    using call_ok_no_bbs [of c3] by (simp add: count_audio_def Let_def)
  then have c1: "cl_txbuf c1 = cl_txbuf c3" "cl_phase c1 = cl_phase c3" "answer_signal F c1 = answer_signal F c3" "cl_modem c1 = cl_modem c3"
    by (simp_all add: answer_signal_def tone_at_def)
  have t3: "cl_txbuf c3 = cl_txbuf c2"
    by (simp add: c3_def detect_data_def v8_finish_def start_v22_def try_v34_def Let_def split_beta)
  have "c3 = c2" if "cl_phase c2 = SM_CALL_ANSWER_TONE" using that by (simp add: c3_def detect_data_def)
  with al t3 c1 c0(3) show ?thesis by auto
qed

lemma play_answer:
  assumes "call_ok c" and "cl_phase c = SM_CALL_ANSWER_TONE" and "tone_ms_ok (cl_cfg c)"
  shows "take (length (answer_signal F c)) (play F q chunks c) = take (length (play F q chunks c)) (answer_signal F c)"
  using assms
proof (induction chunks arbitrary: c)
  case (Cons ch chunks)
  obtain e xs where ch: "ch = (e, xs)" by fastforce
  define c1 where "c1 = process_chunk F q e xs c"
  note st = process_chunk_answer [OF Cons.prems, of F q e xs, folded c1_def]
  define out where "out = mem_read (cl_txbuf c1) 0 (length xs)"
  have p: "play F q (ch # chunks) c = out @ play F q chunks c1" by (simp add: ch c1_def out_def Let_def)
  have lo: "length out = length xs" by (simp add: out_def)
  show ?case
  proof (cases "length xs < length (answer_signal F c)")
    case True
    with st have o: "out = take (length xs) (answer_signal F c)" and ph: "cl_phase c1 = SM_CALL_ANSWER_TONE"
      and r: "answer_signal F c1 = drop (length xs) (answer_signal F c)"
      by (auto simp: out_def min_def)
    have ih: "take (length (answer_signal F c1)) (play F q chunks c1) = take (length (play F q chunks c1)) (answer_signal F c1)"
      using Cons.IH [OF _ ph] process_chunk_ok [OF Cons.prems(1)] Cons.prems(3)
        process_chunk_rest [OF call_ok_no_bbs [OF Cons.prems(1)] Cons.prems(1), of F q e xs] by (simp add: c1_def rest_def)
    have "answer_signal F c = out @ answer_signal F c1" using o r by simp
    with ih show ?thesis unfolding p by simp
  next
    case False
    with st have "take (length (answer_signal F c)) out = answer_signal F c"
      by (simp add: out_def take_mem_read min_def split: if_splits)
    moreover have "length (answer_signal F c) \<le> length out" using False lo by simp
    ultimately show ?thesis unfolding p by (simp add: take_append)
  qed
qed simp

text \<open>A tone of five minutes is not played at all: \<open>300000 * 8000\<close> is more than 2^31 and wraps to a negative count.\<close>

lemma overlong_tone_silent:
  assumes "\<not> cc_use_binmodem cfg" and "\<not> cc_use_v8 cfg" and "cc_answer_tone_ms cfg = 300000"
    and "0 \<le> cc_pre_tone_silence_ms cfg" and "cc_pre_tone_silence_ms cfg \<le> 268435"
  shows "answer_signal F (sm_call_init F i cfg call_id) = replicate (8 * nat (cc_pre_tone_silence_ms cfg)) 0"
proof -
  have "c_int (300000 * SM_SAMPLE_RATE) = - 1894967296"
    by (simp add: c_int_def SM_SAMPLE_RATE_def)
  then have "samples_of_ms 300000 \<le> 0" by (simp add: samples_of_ms_def c_div_def)
  then show ?thesis
    using assms samples_of_ms_eight [OF assms(4,5)]
    by (simp add: answer_signal_def sm_call_init_def Let_def nat_mult_distrib)
qed

text \<open>C10: a call answered without V.8 and without BinModem begins with exactly the configured silence and then
  exactly the configured tone, at 8 samples a millisecond, in whatever pieces the audio arrives; the first
  sample after them is the modem's. This is for lengths of at most 268435 ms; above, the product that computes the
  number of samples overflows (\<open>overlong_tone_silent\<close>).\<close>

theorem answer_sequence_exact:
  fixes c :: "('f, 'd, 'q) sm_call"
  assumes "\<not> cc_use_binmodem cfg" and "\<not> cc_use_v8 cfg"
    and "0 \<le> cc_pre_tone_silence_ms cfg" and "0 \<le> cc_answer_tone_ms cfg"
    and "0 < cc_answer_tone_ms cfg + cc_pre_tone_silence_ms cfg"
    and short: "cc_pre_tone_silence_ms cfg \<le> 268435" "cc_answer_tone_ms cfg \<le> 268435"
    and c_def: "c = sm_call_init F i cfg call_id"
  shows "length (answer_signal F c) = 8 * nat (cc_pre_tone_silence_ms cfg) + 8 * nat (cc_answer_tone_ms cfg)
    \<and> take (8 * nat (cc_pre_tone_silence_ms cfg)) (answer_signal F c) = replicate (8 * nat (cc_pre_tone_silence_ms cfg)) 0
    \<and> take (length (answer_signal F c)) (play F q chunks c) = take (length (play F q chunks c)) (answer_signal F c)
    \<and> (\<forall>e xs. length (answer_signal F c) < length xs \<longrightarrow>
         (\<exists>c1. cl_phase c1 = SM_CALL_HANDSHAKE \<and> cl_modem c1 = v22bis_init (cf_fp F) False (cc_rate cfg)
            \<and> audio_loop F e 0 xs c
                = engine_chunk F e (length (answer_signal F c)) (drop (length (answer_signal F c)) xs) c1))"
proof -
  note d = samples_of_ms_eight [OF assms(3) short(1)] samples_of_ms_eight [OF assms(4) short(2)]
  have ph: "cl_phase c = SM_CALL_ANSWER_TONE" and sl: "cl_silence_left c = 8 * cc_pre_tone_silence_ms cfg"
    and tl: "cl_tone_left c = 8 * cc_answer_tone_ms cfg"
    using assms(1-5) d by (auto simp: c_def sm_call_init_def Let_def)
  have mo: "cl_modem c = v22bis_init (cf_fp F) False (cc_rate cfg)"
    using assms(1-5) by (auto simp: c_def sm_call_init_def Let_def tone_setup_def call_capture_def call_zero_def split: option.split)
  have ok: "call_ok c" by (simp add: c_def init_ok)
  have ms: "tone_ms_ok (cl_cfg c)"
    using short by (auto simp: tone_ms_ok_def c_def sm_call_init_def Let_def tone_setup_def call_capture_def call_zero_def split: option.split)
  have len: "length (answer_signal F c) = 8 * nat (cc_pre_tone_silence_ms cfg) + 8 * nat (cc_answer_tone_ms cfg)"
    using assms(3,4) by (simp add: answer_signal_def sl tl nat_mult_distrib)
  have "\<exists>c1. cl_phase c1 = SM_CALL_HANDSHAKE \<and> cl_modem c1 = cl_modem c
      \<and> audio_loop F e j xs c = engine_chunk F e (j + length (answer_signal F c)) (drop (length (answer_signal F c)) xs) c1"
    if "length (answer_signal F c) < length xs" "answer_signal F c \<noteq> []" "cl_phase c = SM_CALL_ANSWER_TONE"
    for e xs j and c :: "('f, 'd, 'q) sm_call"
    using that
  proof (induction xs arbitrary: c j)
    case (Cons x xs)
    obtain y ys where a: "answer_signal F c = y # ys" using Cons.prems(2) by (cases "answer_signal F c") auto
    note st = tone_sample_step [OF Cons.prems(3) a, of j]
    have l: "audio_loop F e j (x # xs) c = audio_loop F e (Suc j) xs (tone_sample F j c)" using Cons.prems(3) by simp
    show ?case
    proof (cases "ys = []")
      case True
      with st Cons.prems(1) a l show ?thesis
        by (intro exI [of _ "tone_sample F j c"]) (auto simp: audio_loop_handshake)
    next
      case False
      with st Cons.IH [of "tone_sample F j c" "Suc j"] Cons.prems(1) a show ?thesis unfolding l by auto
    qed
  qed simp
  moreover have "answer_signal F c \<noteq> []" using len assms(3-5) by auto
  ultimately have "\<forall>e xs. length (answer_signal F c) < length xs \<longrightarrow>
         (\<exists>c1. cl_phase c1 = SM_CALL_HANDSHAKE \<and> cl_modem c1 = v22bis_init (cf_fp F) False (cc_rate cfg)
            \<and> audio_loop F e 0 xs c
                = engine_chunk F e (length (answer_signal F c)) (drop (length (answer_signal F c)) xs) c1)"
    using ph mo by (metis add_0)
  moreover have "take (8 * nat (cc_pre_tone_silence_ms cfg)) (answer_signal F c) = replicate (8 * nat (cc_pre_tone_silence_ms cfg)) 0"
    using assms(3) by (simp add: answer_signal_def sl nat_mult_distrib)
  ultimately show ?thesis using len play_answer [OF ok ph ms] by blast
qed

theorem answer_sequence_exact_witness:
  "length (answer_signal demo_call_fp (demo_call demo_cfg)) = 42400
   \<and> take 16000 (answer_signal demo_call_fp (demo_call demo_cfg)) = replicate 16000 0"
proof -
  have h: "\<not> cc_use_binmodem demo_cfg" "\<not> cc_use_v8 demo_cfg" "0 \<le> cc_pre_tone_silence_ms demo_cfg" "0 \<le> cc_answer_tone_ms demo_cfg"
    "0 < cc_answer_tone_ms demo_cfg + cc_pre_tone_silence_ms demo_cfg"
    "cc_pre_tone_silence_ms demo_cfg \<le> 268435" "cc_answer_tone_ms demo_cfg \<le> 268435"
    "cc_pre_tone_silence_ms demo_cfg = 2000" "cc_answer_tone_ms demo_cfg = 3300"
    by (simp_all add: demo_cfg_def)
  from answer_sequence_exact [OF h(1-7) demo_call_def] show ?thesis by (simp only: h) simp
qed

end
