(* ===== verification/Call_End.thy ===== *)
theory Call_End
  imports Call_Run
begin

text \<open>
  The rest of what a call promises: which engine follows V.8, one audio reply for each audio message,
  the order of the bytes between the line and pppd, and how a call ends.
\<close>

subsection \<open>The engine after V.8\<close>

definition on_v34 :: "('f, 'd, 'q) sm_call \<Rightarrow> bool" where
  "on_v34 c \<longleftrightarrow> cl_mode c = SM_CALL_MODE_V34 \<and> cl_v34 c \<and> cl_phase c = SM_CALL_HANDSHAKE"

definition on_v22 :: "('f, 'd, 'q) sm_call \<Rightarrow> bool" where
  "on_v22 c \<longleftrightarrow> cl_mode c = SM_CALL_MODE_V22 \<and> cl_phase c = SM_CALL_HANDSHAKE \<and> cl_rx_guard c = 4000
     \<and> r_training (cl_modem c) = RxSymbolAcquisition"

text \<open>V.8 over without a result while V.34 is configured.\<close>

definition forced_v34 :: "('f, 'd, 'q) sm_call \<Rightarrow> bool" where
  "forced_v34 c \<longleftrightarrow> call_ok c \<and> cl_phase c = SM_CALL_V8 \<and> cl_v8_done c \<and> cl_v8_ok c = 0 \<and> cc_use_v34 (cl_cfg c)"

lemma restart_acquires: "r_training (v22bis_rx_restart F s) = RxSymbolAcquisition"
  by (simp add: v22bis_rx_restart_def equalizer_reset_def v22bis_rx_set_signal_cutoff_def sm_power_meter_init_def Let_def)

lemma start_v22_on: "on_v22 (start_v22 F c)"
  by (simp add: start_v22_def on_v22_def RX_GUARD_value restart_acquires)

lemma v8_keeps_forced:
  assumes "forced_v34 c" and "fst r \<noteq> 2"
  shows "forced_v34 (call_v8_result m r c)"
proof -
  have "\<not> cl_bm c" using assms by (auto simp: forced_v34_def call_ok_def engines_ok_def)
  with assms v8_result_ok [of c m r] show ?thesis
    by (cases r) (auto simp: forced_v34_def call_v8_result_def)
qed

lemma forced_chunk:
  assumes f: "forced_v34 c" and e: "\<not> ce_v34_init e" "\<forall>r \<in> set (ce_v8_results e). fst r \<noteq> 2"
  shows "forced_v34 (process_chunk F q e xs c)"
proof -
  have ok: "call_ok c" and nb: "\<not> cl_bm c" and v8: "cl_v8 c"
    using f by (auto simp: forced_v34_def call_ok_def engines_ok_def)
  define c0 where "c0 = capture_chunk xs c"
  have c0: "forced_v34 c0" "\<not> cl_bm c0" "cl_v8 c0"
    using f nb v8 by (simp_all add: c0_def forced_v34_def) (simp_all add: capture_chunk_def)
  define c2 where "c2 = audio_loop F e 0 xs c0"
  have "forced_v34 c2"
  proof (cases xs)
    case (Cons x ys)
    define c1 where "c1 = put_tx 0 (take (Suc (length ys)) (ce_v8_tx e)
      @ replicate (Suc (length ys) - min (length (ce_v8_tx e)) (Suc (length ys))) 0) c0"
    have c1: "forced_v34 c1"
    proof -
      have "call_ok c1" unfolding c1_def by (rule call_ok_frame [OF put_tx_frame]) (use c0 in \<open>simp add: forced_v34_def\<close>)
      then show ?thesis using c0 by (simp add: forced_v34_def) (simp add: c1_def put_tx_def)
    qed
    have "forced_v34 (foldl (\<lambda>c r. call_v8_result m r c) c1 rs)" if "\<forall>r \<in> set rs. fst r \<noteq> 2" for m rs
      using that c1 by (induction rs arbitrary: c1) (simp_all add: v8_keeps_forced)
    moreover have "c2 = foldl (\<lambda>c r. call_v8_result (ce_mod_v34 e) r c) c1 (ce_v8_results e)"
      using c0 Cons by (simp add: c2_def c1_def v8_chunk_def Let_def forced_v34_def)
    ultimately show ?thesis using e(2) by simp
  qed (simp add: c2_def c0)
  then have c3: "forced_v34 (v8_finish F e c2)" "cl_phase c2 = SM_CALL_V8" "cl_v8_done c2"
    using e(1) v8_finish_ok [of c2 F e] by (auto simp: forced_v34_def) (auto simp: v8_finish_def try_v34_def)
  have d: "detect_data (v8_finish F e c2) = v8_finish F e c2" using c3 by (simp add: detect_data_def forced_v34_def)
  have "process_chunk F q e xs c = count_audio q (length xs) (v8_finish F e c2)"
    using c0(2) c3 d unfolding process_chunk_def bm_chunk_def c2_def Let_def c0_def [symmetric] by simp
  moreover have "forced_v34 (count_audio q n x)" if "forced_v34 x" for n x
    using that count_audio_ok [of x q n] call_ok_no_bbs [of x] by (simp add: forced_v34_def) (simp add: count_audio_def Let_def)
  ultimately show ?thesis using c3 by simp
qed

text \<open>C21: when V.8 is over, V.34 starts if it was agreed on, or if V.8 failed and V.34 is configured, and V.22bis
  starts, deaf for 4000 samples, if that was agreed on or V.34 cannot be set up after being agreed on or is not
  configured. But a V.34 that cannot be set up after V.8 failed has no fall-back: as long as it fails, the call
  stays in V.8, with every chunk.\<close>

theorem engine_after_v8:
  assumes "cl_v8_ok c = 0 \<or> cl_v8_ok c = 1 \<or> cl_v8_ok c = 2"
  shows "(if ce_v34_init e \<and> (cl_v8_ok c = 2 \<or> cl_v8_ok c = 0 \<and> cc_use_v34 (cl_cfg c)) then on_v34 (v8_finish F e c)
          else cl_v8_ok c = 0 \<and> cc_use_v34 (cl_cfg c) \<or> on_v22 (v8_finish F e c))
    \<and> (forced_v34 c' \<longrightarrow> (\<forall>(e, xs) \<in> set chunks. \<not> ce_v34_init e \<and> (\<forall>r \<in> set (ce_v8_results e). fst r \<noteq> 2))
        \<longrightarrow> cl_phase (foldl (\<lambda>c (e, xs). process_chunk F q e xs c) c' chunks) = SM_CALL_V8)"
proof -
  have "if ce_v34_init e \<and> (cl_v8_ok c = 2 \<or> cl_v8_ok c = 0 \<and> cc_use_v34 (cl_cfg c)) then on_v34 (v8_finish F e c)
          else cl_v8_ok c = 0 \<and> cc_use_v34 (cl_cfg c) \<or> on_v22 (v8_finish F e c)"
    using assms start_v22_on by (auto simp: v8_finish_def try_v34_def on_v34_def Let_def)
  moreover have "forced_v34 (foldl (\<lambda>c (e, xs). process_chunk F q e xs c) c' chunks)"
    if "forced_v34 c'" "\<forall>(e, xs) \<in> set chunks. \<not> ce_v34_init e \<and> (\<forall>r \<in> set (ce_v8_results e). fst r \<noteq> 2)"
    using that by (induction chunks arbitrary: c') (auto simp: forced_chunk)
  ultimately show ?thesis by (auto simp: forced_v34_def)
qed

subsection \<open>Audio replies\<close>

lemma pump_ppp_counts:
  assumes "call_ok c"
  shows "cl_sent (pump_ppp q e c) = cl_sent c \<and> cl_samples_in (pump_ppp q e c) = cl_samples_in c
    \<and> cl_samples_out (pump_ppp q e c) = cl_samples_out c"
proof -
  let ?K = "\<lambda>a b. cl_sent a = cl_sent b \<and> cl_samples_in a = cl_samples_in b \<and> cl_samples_out a = cl_samples_out b"
  have s: "?K (snd (start_pppd e c)) c \<and> cl_bbs (snd (start_pppd e c)) = cl_bbs c" for e
    by (simp add: start_pppd_def split_beta Let_def)
  have r: "?K (pump_read x c) c" for x and c :: "('a, 'b, 'c) sm_call"
    by (auto simp: pump_read_def bbs_write_def split_beta Let_def split: read_res.split)
  have f: "?K (ppp_flush es c) c" for es and c :: "('a, 'b, 'c) sm_call"
    by (simp add: ppp_flush_def split_beta Let_def)
  show ?thesis
    using s call_ok_no_bbs [OF assms]
    by (auto simp: pump_ppp_def Let_def split_beta take_rx_def pump_echo_def r f stage_rx_def)
qed

text \<open>C22: an audio message of at most 4096 bytes is processed and answered, in one round, by one audio message of
  as many whole samples, those the call has put into its sample buffer. When the send succeeds the whole message
  has gone out after what was sent before, the counts of samples in and out have grown by that number, and the call
  goes on, unless \<open>waitpid\<close> has just returned the pid of the pppd it runs; when the send fails, a proper part
  of the message has gone out and the call ends.\<close>

theorem audio_answered:
  assumes "call_ok c" and "msg_wf m" and "msg_kind m = SM_AS_KIND_AUDIO" and "msg_plen m \<le> 4096" and n_def: "n = msg_plen m div 2"
    and c1_def: "c1 = process_audio F q (re_chunk e) (pcm_of (msg_bytes m)) n c"
    and xs_def: "xs = map word_of_int (mem_read (cl_txbuf c1) 0 n)"
    and w: "sm_ast_write_audio xs (re_send e) = (r, bytes, es)"
  shows "length xs = n \<and>
    (if r = 0 then
       bytes = ast_frame (SM_AS_KIND_AUDIO, samples_bytes xs) \<and>
       (case call_round F q e (1, Some m) t c of
          Continue t' c' \<Rightarrow> t' = 0 \<and> cl_sent c' = cl_sent c @ bytes
            \<and> cl_samples_in c' = cl_samples_in c + int n \<and> cl_samples_out c' = cl_samples_out c + int n
            \<and> \<not> (cl_ppp_started c' \<and> cl_pppd_pid c' > 0 \<and> re_waitpid e = cl_pppd_pid c')
        | Leave c' \<Rightarrow> cl_sent c' = cl_sent c @ bytes
            \<and> cl_samples_in c' = cl_samples_in c + int n \<and> cl_samples_out c' = cl_samples_out c + int n
            \<and> cl_ppp_started c' \<and> re_waitpid e > 0
            \<and> re_waitpid e = cl_pppd_pid (pump_ppp q (re_pump e) (c1\<lparr>cl_sent := cl_sent c @ bytes\<rparr>)))
     else r = -1 \<and> (\<exists>more. more \<noteq> [] \<and> ast_frame (SM_AS_KIND_AUDIO, samples_bytes xs) = bytes @ more)
       \<and> call_round F q e (1, Some m) t c = Leave (c1\<lparr>cl_sent := cl_sent c @ bytes\<rparr>))"
proof -
  have odd: "(p - Suc 0) div 2 = p div 2" if "odd p" for p :: nat using that by (elim oddE) simp
  have n: "audio_len (msg_plen m) = n"
    using assms(4) by (auto simp: n_def audio_len_def TXBUF_SIZE_def SM_AS_MAX_PAYLOAD_def Let_def odd)
  have l: "length (take n (pcm_of (msg_bytes m))) = n" using audio_fits [OF assms(2)] n by simp
  have c1: "c1 = process_chunk F q (re_chunk e) (take n (pcm_of (msg_bytes m))) c"
    using audio_msg_chunk [OF assms(2), of F q "re_chunk e" c] by (simp add: c1_def n)
  have r1: "rest c1 = ((cl_samples_in c + int n, cl_samples_out c + int n, cl_sent c, cl_fault c, cl_to_ppp c, cl_ppy_out c), snd (rest c))"
    using process_chunk_rest [OF call_ok_no_bbs [OF assms(1)] assms(1), of F q "re_chunk e" "take n (pcm_of (msg_bytes m))"] l
    by (simp add: c1)
  have ok1: "call_ok c1" using process_chunk_ok [OF assms(1)] by (simp add: c1)
  have s: "cl_sent c1 = cl_sent c" "cl_samples_in c1 = cl_samples_in c + int n" "cl_samples_out c1 = cl_samples_out c + int n"
    using r1 by (simp_all add: rest_def)
  define c2 where "c2 = c1\<lparr>cl_sent := cl_sent c @ bytes\<rparr>"
  have am: "audio_msg F q e m c = (r \<ge> 0, c2)"
    using w by (simp add: audio_msg_def n c1_def [symmetric] xs_def [symmetric] s(1) c2_def Let_def)
  have res: "(r = 0 \<and> bytes = ast_frame (SM_AS_KIND_AUDIO, samples_bytes xs))
     \<or> (r = -1 \<and> (\<exists>more. more \<noteq> [] \<and> ast_frame (SM_AS_KIND_AUDIO, samples_bytes xs) = bytes @ more))"
    using sm_ast_write_result [of SM_AS_KIND_AUDIO "samples_bytes xs" "re_send e" r bytes es] w
    by (auto simp: sm_ast_write_audio_def)
  have ok2: "call_ok c2" using ok1 by (simp add: c2_def)
  note pp = pump_ppp_counts [OF ok2, of q "re_pump e"]
  have "call_round F q e (1, Some m) t c = (if r \<ge> 0 then after_msg q e c2 else Leave c2)"
    using am assms(3) by (simp add: call_round_def)
  then show ?thesis
    using res pp s unfolding c2_def [symmetric] by (auto simp: xs_def after_msg_def c2_def Let_def)
qed

text \<open>A round whose reply is sent in two pieces.\<close>

definition demo_reply_round :: round_env where
  "demo_reply_round = demo_round\<lparr>re_send := [SendOk 3, SendOk 2]\<rparr>"

theorem audio_answered_witness:
  "\<exists>c'. call_round demo_call_fp demo_sql demo_reply_round (1, Some \<lparr>msg_kind = SM_AS_KIND_AUDIO, msg_bytes = [1, 2], msg_plen = 2\<rparr>) 0
        (demo_call demo_cfg) = Continue 0 c' \<and> length (cl_sent c') = 5 \<and> take 3 (cl_sent c') = [0x10, 0, 2]"
proof -
  let ?m = "\<lparr>msg_kind = SM_AS_KIND_AUDIO, msg_bytes = [1, 2], msg_plen = 2\<rparr>"
  have h: "msg_wf ?m" "msg_kind ?m = SM_AS_KIND_AUDIO" "msg_plen ?m \<le> 4096" "1 = msg_plen ?m div 2"
    by (simp_all add: msg_wf_def SM_AS_MAX_PAYLOAD_def)
  define c1 where "c1 = process_audio demo_call_fp demo_sql (re_chunk demo_reply_round) (pcm_of (msg_bytes ?m)) 1 (demo_call demo_cfg)"
  define xs :: "u16 list" where "xs = map word_of_int (mem_read (cl_txbuf c1) 0 1)"
  obtain x where x: "xs = [x]" by (simp add: xs_def mem_read_def)
  have w: "sm_ast_write_audio xs (re_send demo_reply_round) = (0, ast_frame (SM_AS_KIND_AUDIO, samples_bytes xs), [])"
    by (simp add: x sm_ast_write_audio_def sm_ast_write_def demo_reply_round_def ast_header_def samples_bytes_def ast_frame_def)
  have wp: "re_waitpid demo_reply_round = 0" by (simp add: demo_reply_round_def demo_round_def)
  have f: "length (ast_frame (SM_AS_KIND_AUDIO, samples_bytes xs)) = 5"
    "take 3 (ast_frame (SM_AS_KIND_AUDIO, samples_bytes xs)) = [0x10, 0, 2]"
    by (simp_all add: x ast_frame_def ast_header_def samples_bytes_def as_consts flip: numeral_2_eq_2)
  from audio_answered [OF demo_call_ok [of demo_cfg] h c1_def xs_def w, of 0] f wp show ?thesis
    by (auto split: step.splits)
qed

text \<open>A call whose V.8 has just failed, with V.34 configured.\<close>

definition demo_forced :: "(real, real, (string \<times> string) option) sm_call" where
  "demo_forced = (demo_call (demo_cfg\<lparr>cc_use_v8 := True, cc_use_v34 := True\<rparr>))\<lparr>cl_phase := SM_CALL_V8, cl_v8 := True, cl_v8_done := True\<rparr>"

lemma demo_forced_state: "forced_v34 demo_forced"
proof -
  have "cl_mode (demo_call cfg) = SM_CALL_MODE_V22" "\<not> cl_bm (demo_call cfg)" "cl_rx_guard (demo_call cfg) = 0" "\<not> cl_v34 (demo_call cfg)"
    if "\<not> cc_use_binmodem cfg" for cfg
    using that by (simp_all add: demo_call_def demo_init_def sm_call_init_def tone_setup_def call_capture_def call_zero_def Let_def)
  then show ?thesis
    using demo_call_ok [of "demo_cfg\<lparr>cc_use_v8 := True, cc_use_v34 := True\<rparr>"] RX_GUARD_value
    by (simp add: demo_forced_def forced_v34_def call_ok_def engines_ok_def bytes_ok_def queues_ok_def demo_cfg_def)
qed

theorem engine_after_v8_witness:
  "on_v22 (v8_finish demo_call_fp demo_chunk (demo_call demo_cfg))
   \<and> cl_phase (process_chunk demo_call_fp demo_sql demo_chunk [0, 0] (process_chunk demo_call_fp demo_sql demo_chunk [0] demo_forced)) = SM_CALL_V8"
proof -
  have h: "cl_v8_ok (demo_call demo_cfg) = 0 \<or> cl_v8_ok (demo_call demo_cfg) = 1 \<or> cl_v8_ok (demo_call demo_cfg) = 2" by simp
  have "\<not> ce_v34_init demo_chunk" "ce_v8_results demo_chunk = []" "\<not> cc_use_v34 demo_cfg"
    by (simp_all add: demo_chunk_def demo_cfg_def)
  with engine_after_v8 [OF h, of demo_chunk demo_call_fp demo_forced "[(demo_chunk, [0]), (demo_chunk, [0, 0])]" demo_sql]
    demo_forced_state show ?thesis by simp
qed

end
