(* ===== verification/Call_Bytes.thy ===== *)
theory Call_Bytes
  imports Call_Run "HOL-Library.Multiset"
begin

text \<open>
  The byte path of a call, between the line and pppd, and how a call ends: what it releases, that a
  silent connection ends it, and that a dead pppd does not.
\<close>

subsection \<open>What the rounds keep\<close>

text \<open>The releases once BinModem is given back too, and the resources the loop never takes or returns.\<close>

definition kept :: "('f, 'd, 'q) sm_call \<Rightarrow> (release list \<times> bool \<times> bool \<times> bool) \<times> ast_socket" where
  "kept c = ((cl_released c @ (if cl_bm c then [RelBm] else []), cl_v8 c, cl_cap_in c \<noteq> None, cl_cap_out c \<noteq> None), cl_as c)"

lemma kept_upd [simp]:
  "kept (c\<lparr>cl_v8_done := d\<rparr>) = kept c" "kept (c\<lparr>cl_v8_ok := k\<rparr>) = kept c" "kept (c\<lparr>cl_bm_nocarrier := n\<rparr>) = kept c"
  "kept (c\<lparr>cl_negotiated_rate := n\<rparr>) = kept c" "kept (c\<lparr>cl_phase := p\<rparr>) = kept c" "kept (c\<lparr>cl_deframer := x\<rparr>) = kept c"
  "kept (c\<lparr>cl_mode := m\<rparr>) = kept c" "kept (c\<lparr>cl_modem := v\<rparr>) = kept c" "kept (c\<lparr>cl_rx_guard := n\<rparr>) = kept c"
  "kept (c\<lparr>cl_v34 := b\<rparr>) = kept c" "kept (c\<lparr>cl_v34_baud_rate := n\<rparr>) = kept c" "kept (c\<lparr>cl_silence_left := n\<rparr>) = kept c"
  "kept (c\<lparr>cl_tone_left := n\<rparr>) = kept c" "kept (c\<lparr>cl_tone_phase := y\<rparr>) = kept c" "kept (c\<lparr>cl_txbuf := t\<rparr>) = kept c"
  "kept (c\<lparr>cl_bm_phase_seen := s\<rparr>) = kept c" "kept (c\<lparr>cl_bm_ec_seen := n\<rparr>) = kept c" "kept (c\<lparr>cl_cap_count := n\<rparr>) = kept c"
  "kept (c\<lparr>cl_txbits := q\<rparr>) = kept c" "kept (c\<lparr>cl_bytes_rx := n\<rparr>) = kept c" "kept (c\<lparr>cl_bytes_tx := n\<rparr>) = kept c"
  "kept (c\<lparr>cl_ppy_out := bs\<rparr>) = kept c" "kept (c\<lparr>cl_to_ppp := bs\<rparr>) = kept c" "kept (c\<lparr>cl_sent := bs\<rparr>) = kept c"
  "kept (c\<lparr>cl_ppp_fd := n\<rparr>) = kept c" "kept (c\<lparr>cl_pppd_pid := n\<rparr>) = kept c" "kept (c\<lparr>cl_ppp_started := b\<rparr>) = kept c"
  "kept (c\<lparr>cl_samples_in := n\<rparr>) = kept c" "kept (c\<lparr>cl_samples_out := n\<rparr>) = kept c" "kept (c\<lparr>cl_fault := b\<rparr>) = kept c"
  "kept (c\<lparr>cl_taken := rs\<rparr>) = kept c"
  by (simp_all add: kept_def)

lemma kept_frame: "engine_frame c0 c \<Longrightarrow> kept c = kept c0"
proof -
  assume f: "engine_frame c0 c"
  let ?r = "c\<lparr>cl_txbits := cl_txbits c0, cl_deframer := cl_deframer c0, cl_phase := cl_phase c0,
       cl_negotiated_rate := cl_negotiated_rate c0, cl_modem := cl_modem c0, cl_txbuf := cl_txbuf c0\<rparr>"
  have e: "?r = c0" using f by (simp add: engine_frame_def)
  show ?thesis using arg_cong [OF e, of kept] by simp
qed

lemma capture_kept [simp]: "kept (capture_chunk xs c) = kept c"
  by (simp add: capture_chunk_def kept_def)

lemma put_tx_kept [simp]: "kept (put_tx i xs c) = kept c"
  by (simp add: put_tx_def)

lemma bm_chunk_kept: "kept (snd (bm_chunk F e n c)) = kept c"
proof -
  have r: "kept (c\<lparr>cl_bm := False, cl_released := cl_released c @ [RelBm]\<rparr>) = kept c" if "cl_bm c" for c :: "('a, 'b, 'c) sm_call"
    using that by (simp add: kept_def)
  have "kept (bm_poll F ob n c) = kept c" if b: "cl_bm c" for ob
    using r [of "start_v22 F (bm_note ob c)"] b
    by (simp add: bm_poll_def Let_def bm_note_def bm_data_def start_v22_def)
  then show ?thesis
    by (simp add: bm_chunk_def Let_def kept_frame [OF run_evs_frame])
qed

lemma audio_loop_kept: "kept (audio_loop F e i xs c) = kept c"
proof (induction F e i xs c rule: audio_loop.induct)
  case (2 F e i x xs c)
  have "kept (foldl (\<lambda>c r. call_v8_result m r c) c rs) = kept c" for m rs and c :: "('a, 'b, 'c) sm_call"
  proof (induction rs arbitrary: c)
    case (Cons r rs)
    have "kept (call_v8_result m r c) = kept c" by (cases r) (simp add: call_v8_result_def)
    with Cons [of "call_v8_result m r c"] show ?case by simp
  qed simp
  then have v8: "kept (v8_chunk e i (Suc (length xs)) c) = kept c" by (simp add: v8_chunk_def Let_def)
  have t: "kept (tone_sample F i c) = kept c" by (simp add: tone_sample_def Let_def)
  have g: "kept (snd (guard_chunk F e i m c)) = kept c" for m
    by (simp add: guard_chunk_def Let_def kept_frame [OF v22_rx_frame] kept_frame [OF v22_tx_frame])
  have "kept (engine_chunk F e i (x # xs) c) = kept c"
    by (simp add: engine_chunk_def split_beta kept_frame [OF modem_chunk_frame] g)
  with v8 t 2 show ?case by simp
qed simp

lemma v8_finish_kept: "kept (v8_finish F e c) = kept c"
proof -
  have "kept (snd (try_v34 e c)) = kept c" "kept (start_v22 F c) = kept c" for c :: "('a, 'b, 'c) sm_call"
    by (simp_all add: try_v34_def start_v22_def)
  then show ?thesis by (simp add: v8_finish_def Let_def split_beta)
qed

lemma process_chunk_kept:
  assumes "call_ok c"
  shows "kept (process_chunk F q e xs c) = kept c"
proof -
  obtain made c1 where b: "bm_chunk F e (length xs) (capture_chunk xs c) = (made, c1)" by fastforce
  define c2 where "c2 = (if made then c1 else audio_loop F e 0 xs c1)"
  define c3 where "c3 = (if cl_phase c2 = SM_CALL_V8 \<and> cl_v8_done c2 then v8_finish F e c2 else c2)"
  have "kept c3 = kept c2" unfolding c3_def by (simp add: v8_finish_kept)
  also have "kept c2 = kept c1" unfolding c2_def by (simp add: audio_loop_kept)
  also have "kept c1 = kept c"
    using bm_chunk_kept [of F e "length xs" "capture_chunk xs c"] b by simp
  finally have "kept c3 = kept c" .
  then have r: "kept (detect_data c3) = kept c" by (simp add: detect_data_def)
  have "call_ok c1" using bm_chunk_ok [of "capture_chunk xs c" F e "length xs"] assms b by simp
  then have "call_ok (detect_data c3)"
    by (simp add: c3_def c2_def audio_loop_ok detect_data_ok v8_finish_ok)
  then have "cl_bbs (detect_data c3) = None" by (rule call_ok_no_bbs)
  moreover have "process_chunk F q e xs c = count_audio q (length xs) (detect_data c3)"
    using b by (simp add: process_chunk_def c2_def c3_def Let_def)
  ultimately show ?thesis using r by (simp add: count_audio_def Let_def)
qed

lemma start_pppd_kept: "kept (snd (start_pppd e c)) = kept c" "cl_bbs (snd (start_pppd e c)) = cl_bbs c"
  by (simp_all add: start_pppd_def split_beta Let_def)

lemma pump_ppp_kept:
  assumes "call_ok c"
  shows "kept (pump_ppp q e c) = kept c"
proof -
  have r: "kept (pump_read x c) = kept c" for x and c :: "('a, 'b, 'c) sm_call"
    by (auto simp: pump_read_def bbs_write_def split_beta Let_def split: read_res.split)
  have f: "kept (ppp_flush es c) = kept c" for es and c :: "('a, 'b, 'c) sm_call"
    by (simp add: ppp_flush_def split_beta Let_def)
  have e: "kept (pump_echo tmp c) = kept c" "kept (stage_rx tmp c) = kept c" "kept (snd (take_rx c)) = kept c"
    for tmp and c :: "('a, 'b, 'c) sm_call"
    by (simp_all add: pump_echo_def stage_rx_def take_rx_def split_beta Let_def)
  have b: "cl_bbs (snd (take_rx c)) = cl_bbs c" for c :: "('a, 'b, 'c) sm_call"
    by (simp add: take_rx_def split_beta Let_def)
  show ?thesis
    by (simp add: pump_ppp_def Let_def split_beta r f e b start_pppd_kept call_ok_no_bbs [OF assms])
qed

lemma call_round_kept:
  assumes "call_ok c"
  shows "case call_round F q e res t c of Leave c' \<Rightarrow> kept c' = kept c | Continue t' c' \<Rightarrow> kept c' = kept c"
proof -
  have a: "case after_msg q e c of Leave c' \<Rightarrow> kept c' = kept c | Continue t' c' \<Rightarrow> kept c' = kept c"
    if "call_ok c" for c :: "('a, 'b, 'c) sm_call"
    using pump_ppp_kept [OF that] by (simp add: after_msg_def Let_def)
  have m: "kept (snd (audio_msg F q e m c)) = kept c \<and> call_ok (snd (audio_msg F q e m c))" for m
    using process_chunk_kept [OF assms] process_chunk_ok [OF assms]
    by (simp add: audio_msg_def Let_def split_beta process_audio_def assms)
  show ?thesis
  proof (cases "snd res")
    case None
    with pump_ppp_kept [OF assms] show ?thesis by (simp add: call_round_def split_beta)
  next
    case (Some x)
    with m [of x] a [OF assms] a [of "snd (audio_msg F q e x c)"] show ?thesis
      by (simp add: call_round_def split_beta split: step.split_asm step.split)
  qed
qed


lemma fst_kept_as [simp]: "fst (kept (c\<lparr>cl_as := a\<rparr>)) = fst (kept c)"
  by (simp add: kept_def)

lemma read_msg_as: "read_msg es c = (res, c1, es1) \<Longrightarrow> \<exists>a. c1 = c\<lparr>cl_as := a\<rparr>"
  by (auto simp: read_msg_def split_beta Let_def)

lemma call_loop_kept:
  "call_ok c \<Longrightarrow> fst (kept (snd (call_loop F q evs es t c))) = fst (kept c)"
proof (induction F q evs es t c rule: call_loop.induct)
  case (2 F q e evs es t c)
  show ?case
  proof (cases "cl_phase c = SM_CALL_HANGUP")
    case False
    obtain res c1 es1 where r: "read_msg es c = (res, c1, es1)" by (metis prod_cases3)
    have c1: "call_ok c1" "fst (kept c1) = fst (kept c)"
      using read_msg_ok [OF 2(2) r] read_msg_as [OF r] by auto
    with call_round_kept [OF c1(1), of F q e res t] call_round_ok [OF c1(1), of F q e res t] False r
      2(1) [OF False r [symmetric] refl]
    show ?thesis by (simp split: step.split_asm step.split)
  qed simp
qed simp

lemma wait_uuid_kept:
  "call_ok c \<Longrightarrow> wait_uuid F q evs es c = (go, evs', es', c')
    \<Longrightarrow> fst (kept c') = fst (kept c) \<and> (go = Some False \<longrightarrow> (\<exists>a. c' = c\<lparr>cl_as := a\<rparr>))"
proof (induction F q evs es c rule: wait_uuid.induct)
  case (2 F q e evs es c)
  obtain r mo c1 es1 where r: "read_msg es c = ((r, mo), c1, es1)" by (metis prod.collapse)
  have c1: "call_ok c1" using read_msg_ok [OF 2(2) r] .
  obtain a where a: "c1 = c\<lparr>cl_as := a\<rparr>" using read_msg_as [OF r] by blast
  then have k: "fst (kept c1) = fst (kept c)" by simp
  show ?case
  proof (cases mo)
    case None
    with 2(3) r k a show ?thesis by auto
  next
    case (Some m)
    note ih = 2(1) [OF r [symmetric] refl refl Some]
    have p: "fst (kept (process_audio F q (re_chunk e) xs n c1)) = fst (kept c1)" for xs n
      by (simp add: process_audio_def process_chunk_kept [OF c1])
    show ?thesis
    proof (cases "msg_kind m = SM_AS_KIND_UUID \<and> msg_plen m \<ge> 16 \<or> msg_kind m = SM_AS_KIND_AUDIO")
      case True
      with 2(3) r Some p k show ?thesis by (auto split: if_splits)
    next
      case False
      with 2(3) r Some have "wait_uuid F q evs es1 c1 = (go, evs', es', c')" by (auto split: if_splits)
      with ih False c1 have "fst (kept c') = fst (kept c1) \<and> (go = Some False \<longrightarrow> (\<exists>b. c' = c1\<lparr>cl_as := b\<rparr>))" by auto
      with k a show ?thesis by auto
    qed
  qed
qed auto


subsection \<open>The byte path\<close>

lemma push_all_room:
  "bitq_inv b \<Longrightarrow> sm_bitq_count b + 10 * length bs \<le> 65536 \<Longrightarrow> push_all bs b = (length bs, push_bytes b bs)"
proof (induction bs arbitrary: b)
  case (Cons x xs)
  have p: "fst (sm_bitq_push_byte b x) = 0" using push_byte_as_pushes [of b x] Cons.prems by simp
  define b1 where "b1 = snd (sm_bitq_push_byte b x)"
  have b1: "bitq_inv b1" by (simp add: b1_def push_byte_inv Cons.prems)
  have "bitq_items b1 = bitq_items b @ map (\<lambda>b. word_of_int (b AND 1)) (concat (map frame_bits [x]))"
    using push_bytes_items [of b "[x]"] Cons.prems by (simp add: push_bytes_def b1_def)
  then have "sm_bitq_count b1 = sm_bitq_count b + 10"
    using length_bitq_items [of b1] length_bitq_items [of b] by simp
  with Cons.IH [OF b1] Cons.prems p show ?case
    by (simp add: split_beta Let_def b1_def push_bytes_def)
qed (simp add: push_bytes_def)

lemma ppp_flush_bytes:
  assumes "cl_ppp_fd c \<ge> 0"
  shows "cl_to_ppp (ppp_flush es c) @ cl_ppy_out (ppp_flush es c) = cl_to_ppp c @ cl_ppy_out c"
  using flush_loop_shrinks [of es "cl_to_ppp c" "cl_ppy_out c"] assms
  by (simp add: ppp_flush_def split_beta Let_def)

lemma ppp_flush_frame:
  "cl_ppp_fd (ppp_flush es c) = cl_ppp_fd c" "cl_txbits (ppp_flush es c) = cl_txbits c" "cl_deframer (ppp_flush es c) = cl_deframer c"
  "cl_bytes_tx (ppp_flush es c) = cl_bytes_tx c"
  by (simp_all add: ppp_flush_def split_beta Let_def)

lemma pump_read_frame:
  "cl_to_ppp (pump_read r c) = cl_to_ppp c" "cl_ppy_out (pump_read r c) = cl_ppy_out c" "cl_deframer (pump_read r c) = cl_deframer c"
  by (auto simp: pump_read_def bbs_write_def split_beta Let_def split: read_res.split)

lemma take_rx_bytes:
  "take_rx c = (take 256 (df_out (cl_deframer c)),
     c\<lparr>cl_deframer := (cl_deframer c)\<lparr>df_out := drop 256 (df_out (cl_deframer c))\<rparr>\<rparr>)"
  by (simp add: take_rx_def sm_deframer_take_def Let_def min_def)

text \<open>One round in data mode with pppd there.\<close>

lemma pump_ppp_data:
  assumes "call_ok c" and "cl_phase c = SM_CALL_DATA" and "cl_ppp_started c"
  shows "pump_ppp q e c = pump_read (pe_read e) (ppp_flush (pe_writes e) (stage_rx (take 256 (df_out (cl_deframer c)))
           (c\<lparr>cl_deframer := (cl_deframer c)\<lparr>df_out := drop 256 (df_out (cl_deframer c))\<rparr>\<rparr>)))"
proof -
  have "\<not> cc_echo_data (cl_cfg c)" "cl_bbs c = None"
    using assms by (auto simp: call_ok_def bytes_ok_def)
  with assms(2,3) show ?thesis by (simp add: pump_ppp_def take_rx_bytes Let_def)
qed

text \<open>C7: a round in data mode takes up to 256 received bytes, and they reach pppd after those before them: what
  the relay has taken and what waits for it, together, grow by exactly these bytes, in order, less those for which
  the 4096 bytes of the staging buffer have no room. And what pppd sends is queued for the line as 10-bit
  characters, in order and whole, as long as the bit queue has room for it.\<close>

theorem line_bytes_to_pppd:
  assumes "call_ok c" and "cl_phase c = SM_CALL_DATA" and "cl_ppp_started c" and "0 \<le> cl_ppp_fd c"
    and "pe_read e = ReadData bs" and "bs \<noteq> []" and "sm_bitq_count (cl_txbits c) + 10 * min 256 (length bs) \<le> 65536"
  shows "cl_to_ppp (pump_ppp q e c) @ cl_ppy_out (pump_ppp q e c)
           = cl_to_ppp c @ cl_ppy_out c @ take (4096 - length (cl_ppy_out c)) (take 256 (df_out (cl_deframer c)))
    \<and> df_out (cl_deframer (pump_ppp q e c)) = drop 256 (df_out (cl_deframer c))
    \<and> bitq_items (cl_txbits (pump_ppp q e c))
        = bitq_items (cl_txbits c) @ map (\<lambda>b. word_of_int (b AND 1)) (concat (map frame_bits (take 256 bs)))
    \<and> cl_bytes_tx (pump_ppp q e c) = cl_bytes_tx c + int (min 256 (length bs))"
proof -
  define c1 where "c1 = stage_rx (take 256 (df_out (cl_deframer c)))
           (c\<lparr>cl_deframer := (cl_deframer c)\<lparr>df_out := drop 256 (df_out (cl_deframer c))\<rparr>\<rparr>)"
  define c2 where "c2 = ppp_flush (pe_writes e) c1"
  have p: "pump_ppp q e c = pump_read (pe_read e) c2"
    using pump_ppp_data [OF assms(1-3)] by (simp add: c1_def c2_def)
  have c1: "cl_ppp_fd c1 = cl_ppp_fd c" "cl_txbits c1 = cl_txbits c" "cl_to_ppp c1 = cl_to_ppp c" "cl_bytes_tx c1 = cl_bytes_tx c"
    "cl_ppy_out c1 = cl_ppy_out c @ take (4096 - length (cl_ppy_out c)) (take 256 (df_out (cl_deframer c)))"
    "df_out (cl_deframer c1) = drop 256 (df_out (cl_deframer c))"
    by (simp_all add: c1_def stage_rx_def PPY_OUT_SIZE_def)
  have q: "bitq_inv (cl_txbits c)" using assms(1) by (simp add: call_ok_def bytes_ok_def queues_ok_def)
  have r: "pump_read (ReadData bs) c2 = bbs_write (take 256 bs) c2"
    using assms(4,6) c1 by (simp add: pump_read_def c2_def ppp_flush_frame)
  have l: "length (take 256 bs) = min 256 (length bs)" by simp
  have t: "push_all (take 256 bs) (cl_txbits c2) = (length (take 256 bs), push_bytes (cl_txbits c) (take 256 bs))"
    using push_all_room [OF q, of "take 256 bs"] assms(7) c1 by (simp add: c2_def ppp_flush_frame min.commute)
  have "bitq_items (push_bytes (cl_txbits c) (take 256 bs))
      = bitq_items (cl_txbits c) @ map (\<lambda>b. word_of_int (b AND 1)) (concat (map frame_bits (take 256 bs)))"
    using push_bytes_items [OF q, of "take 256 bs"] assms(7) by (simp add: min.commute)
  moreover have "cl_txbits (pump_ppp q e c) = push_bytes (cl_txbits c) (take 256 bs)"
    "cl_bytes_tx (pump_ppp q e c) = cl_bytes_tx c + int (min 256 (length bs))"
    using t c1 unfolding p assms(5) r by (simp_all add: bbs_write_def c2_def ppp_flush_frame)
  ultimately show ?thesis
    using ppp_flush_bytes [of c1 "pe_writes e"] assms(4) c1
    unfolding p by (simp add: pump_read_frame c2_def ppp_flush_frame)
qed

theorem line_bytes_to_pppd_witness:
  "df_out (cl_deframer (pump_ppp demo_sql (demo_pump (ReadData [0x7E, 0x21])) (demo_data 5))) = []
   \<and> length (bitq_items (cl_txbits (pump_ppp demo_sql (demo_pump (ReadData [0x7E, 0x21])) (demo_data 5)))) = 20"
proof -
  have h: "cl_phase (demo_data 5) = SM_CALL_DATA" "cl_ppp_started (demo_data 5)" "0 \<le> cl_ppp_fd (demo_data 5)"
    "pe_read (demo_pump (ReadData [0x7E, 0x21])) = ReadData [0x7E, 0x21]" "[0x7E, 0x21 :: u8] \<noteq> []"
    "cl_txbits (demo_data 5) = sm_bitq_init" "cl_deframer (demo_data 5) = sm_deframer_init"
    by (simp_all add: demo_data_def demo_pump_def)
  then have "sm_bitq_count (cl_txbits (demo_data 5)) + 10 * min 256 (length [0x7E, 0x21 :: u8]) \<le> 65536"
    by (simp add: sm_bitq_count_def sm_bitq_init_def)
  from line_bytes_to_pppd [OF demo_data_ok h(1-5) this, of demo_sql] h show ?thesis
    by (simp add: sm_deframer_init_def bitq_items_def sm_bitq_count_def sm_bitq_init_def)
qed


subsection \<open>A pppd that is gone\<close>

text \<open>pppd was started and its descriptor is closed.\<close>

definition relay_dead :: "('f, 'd, 'q) sm_call \<Rightarrow> bool" where
  "relay_dead c \<longleftrightarrow> call_ok c \<and> cl_ppp_started c \<and> cl_ppp_fd c < 0"

lemma relay_dead_pump:
  assumes "relay_dead c"
  shows "relay_dead (pump_ppp q e c) \<and> cl_to_ppp (pump_ppp q e c) = cl_to_ppp c
    \<and> cl_txbits (pump_ppp q e c) = cl_txbits c \<and> cl_pppd_pid (pump_ppp q e c) = cl_pppd_pid c"
proof (cases "cl_phase c = SM_CALL_DATA")
  case True
  have ok: "call_ok c" "cl_ppp_started c" "cl_ppp_fd c < 0" using assms by (auto simp: relay_dead_def)
  have "call_ok (pump_ppp q e c)" by (rule pump_ppp_ok [OF ok(1)])
  with ok pump_ppp_data [OF ok(1) True ok(2), of q e] show ?thesis
    by (simp add: relay_dead_def pump_read_def ppp_flush_def stage_rx_def)
next
  case False
  with assms show ?thesis
    by (auto simp: relay_dead_def pump_ppp_def Let_def call_ok_def bytes_ok_def)
qed

lemma relay_dead_round:
  assumes "relay_dead c"
  shows "case call_round F q e res t c of
      Leave c' \<Rightarrow> cl_to_ppp c' = cl_to_ppp c | Continue t' c' \<Rightarrow> relay_dead c' \<and> cl_to_ppp c' = cl_to_ppp c"
proof -
  have ok: "call_ok c" using assms by (simp add: relay_dead_def)
  have a: "case after_msg q e c of Leave c' \<Rightarrow> cl_to_ppp c' = cl_to_ppp c | Continue t' c' \<Rightarrow> relay_dead c' \<and> cl_to_ppp c' = cl_to_ppp c"
    if "relay_dead c" for c :: "('a, 'b, 'c) sm_call"
    using relay_dead_pump [OF that] by (simp add: after_msg_def Let_def)
  have m: "relay_dead (snd (audio_msg F q e m c)) \<and> cl_to_ppp (snd (audio_msg F q e m c)) = cl_to_ppp c" for m
  proof -
    have f: "relay_dead (c\<lparr>cl_fault := True\<rparr>)" using assms by (simp add: relay_dead_def)
    have "relay_dead (process_chunk F q e xs c) \<and> cl_to_ppp (process_chunk F q e xs c) = cl_to_ppp c" for e xs
      using process_chunk_rest [OF call_ok_no_bbs [OF ok] ok, of F q e xs] process_chunk_ok [OF ok] assms
      by (simp add: relay_dead_def rest_def)
    then have "relay_dead (process_audio F q e xs n c) \<and> cl_to_ppp (process_audio F q e xs n c) = cl_to_ppp c" for e xs n
      using f by (simp add: process_audio_def)
    moreover have "relay_dead (d\<lparr>cl_sent := s\<rparr>) = relay_dead d" for d :: "('a, 'b, 'c) sm_call" and s by (simp add: relay_dead_def)
    ultimately show ?thesis by (simp add: audio_msg_def Let_def split_beta)
  qed
  show ?thesis
  proof (cases "snd res")
    case None
    with assms relay_dead_pump [OF assms] show ?thesis by (simp add: call_round_def split_beta)
  next
    case (Some x)
    with m [of x] a [OF assms] a [of "snd (audio_msg F q e x c)"] show ?thesis
      by (simp add: call_round_def split_beta split: step.split_asm step.split)
  qed
qed

lemma relay_dead_loop:
  "relay_dead c \<Longrightarrow> cl_to_ppp (snd (call_loop F q evs es t c)) = cl_to_ppp c"
proof (induction F q evs es t c rule: call_loop.induct)
  case (2 F q e evs es t c)
  show ?case
  proof (cases "cl_phase c = SM_CALL_HANGUP")
    case False
    obtain res c1 es1 where r: "read_msg es c = (res, c1, es1)" by (metis prod_cases3)
    have c1: "relay_dead c1" "cl_to_ppp c1 = cl_to_ppp c"
      using read_msg_as [OF r] 2(2) by (auto simp: relay_dead_def)
    with relay_dead_round [OF c1(1), of F q e res t] False r 2(1) [OF False r [symmetric] refl]
    show ?thesis by (simp split: step.split_asm step.split)
  qed simp
qed simp

text \<open>C37: once pppd's side has closed, the call never starts another one and never relays anything more, over all
  its remaining rounds; and when \<open>waitpid\<close> does not report pppd's pid, as it never does while SIGCHLD is ignored,
  a message that is not audio and not a hang-up leaves the call going: it lasts as long as the line does.\<close>

theorem dead_relay_starves:
  assumes "relay_dead c"
  shows "cl_to_ppp (snd (call_loop F q evs es t c)) = cl_to_ppp c
    \<and> (re_waitpid e \<noteq> cl_pppd_pid c \<longrightarrow>
        (\<exists>c'. after_msg q e c = Continue 0 c' \<and> relay_dead c' \<and> cl_txbits c' = cl_txbits c \<and> cl_pppd_pid c' = cl_pppd_pid c))"
  using relay_dead_loop [OF assms] relay_dead_pump [OF assms, of q "re_pump e"] by (simp add: after_msg_def Let_def)

theorem dead_relay_starves_witness:
  "\<exists>c'. after_msg demo_sql demo_round (demo_data (-1)) = Continue 0 c' \<and> relay_dead c'"
proof -
  have "relay_dead (demo_data (-1))" by (simp add: relay_dead_def) (simp add: demo_data_def)
  moreover have "re_waitpid demo_round \<noteq> cl_pppd_pid (demo_data (-1))" by (simp add: demo_round_def demo_data_def)
  ultimately show ?thesis using dead_relay_starves [of "demo_data (-1)" demo_call_fp demo_sql "[]" "[]" 0 demo_round] by blast
qed

subsection \<open>The end of a call\<close>

definition held :: "('f, 'd, 'q) sm_call \<Rightarrow> release list" where
  "held c = (if cl_cap_in c \<noteq> None then [RelCapIn] else []) @ (if cl_cap_out c \<noteq> None then [RelCapOut] else [])
     @ (if cl_v8 c then [RelV8] else []) @ (if cl_bm c then [RelBm] else []) @ (if cl_v34 c then [RelV34] else [])
     @ (if cl_bbs c \<noteq> None then [RelBbs] else [])"

definition pppd_rels :: "bool \<Rightarrow> ('f, 'd, 'q) sm_call \<Rightarrow> release list" where
  "pppd_rels alive c = (if cl_ppp_fd c \<ge> 0 then [RelFd (cl_ppp_fd c)] else [])
     @ (if cl_pppd_pid c > 0 then RelTerm (cl_pppd_pid c) # (if alive then [RelKill (cl_pppd_pid c)] else []) else [])"

lemma stop_pppd_state:
  "cl_ppp_fd (stop_pppd alive c) < 0" "cl_pppd_pid (stop_pppd alive c) \<le> 0"
  "cl_released (stop_pppd alive c) = cl_released c @ pppd_rels alive c"
  "cl_v8 (stop_pppd alive c) = cl_v8 c" "cl_bm (stop_pppd alive c) = cl_bm c" "cl_v34 (stop_pppd alive c) = cl_v34 c"
  "cl_bbs (stop_pppd alive c) = cl_bbs c" "cl_cap_in (stop_pppd alive c) = cl_cap_in c" "cl_cap_out (stop_pppd alive c) = cl_cap_out c"
  by (simp_all add: stop_pppd_def pppd_rels_def Let_def)

lemma teardown_released:
  "cl_released (call_teardown alive fd c) = cl_released c @ held c @ pppd_rels alive c @ [RelFd fd]"
  unfolding call_teardown_def Let_def held_def
  by (simp only: sm_call.simps sm_call.select_convs stop_pppd_state append_assoc) (simp add: pppd_rels_def)

lemma teardown_state:
  "\<not> cl_v8 (call_teardown alive fd c)" "\<not> cl_bm (call_teardown alive fd c)" "\<not> cl_v34 (call_teardown alive fd c)"
  "cl_bbs (call_teardown alive fd c) = None" "cl_cap_in (call_teardown alive fd c) = None"
  "cl_cap_out (call_teardown alive fd c) = None" "cl_ppp_fd (call_teardown alive fd c) < 0"
  "cl_pppd_pid (call_teardown alive fd c) \<le> 0"
  unfolding call_teardown_def Let_def by (simp_all add: stop_pppd_state)

lemma count_pppd_rels: "x \<in> {RelV8, RelBm, RelV34, RelCapIn, RelCapOut} \<Longrightarrow> count_list (pppd_rels alive c) x = 0"
  by (auto simp: pppd_rels_def)

lemma init_released: "cl_released (sm_call_init F i cfg call_id) = []"
  by (simp add: sm_call_init_def Let_def tone_setup_def call_capture_def call_zero_def split: option.split)

text \<open>The ledger: what was acquired is what was released and what is on hand, and \<open>L\<close> besides.\<close>

definition on_hand :: "('f, 'd, 'q) sm_call \<Rightarrow> release list" where
  "on_hand c = held c @ (if cl_ppp_fd c \<ge> 0 then [RelFd (cl_ppp_fd c)] else [])
     @ (if cl_pppd_pid c > 0 then [RelTerm (cl_pppd_pid c)] else [])"

definition balanced :: "release multiset \<Rightarrow> ('f, 'd, 'q) sm_call \<Rightarrow> bool" where
  "balanced L c \<longleftrightarrow> mset (cl_taken c) = mset (cl_released c) + mset (on_hand c) + L"

lemmas ledger_defs = balanced_def on_hand_def held_def

lemma on_hand_upd [simp]:
  "on_hand (c\<lparr>cl_v8_done := d\<rparr>) = on_hand c" "on_hand (c\<lparr>cl_v8_ok := k\<rparr>) = on_hand c"
  "on_hand (c\<lparr>cl_bm_nocarrier := n\<rparr>) = on_hand c" "on_hand (c\<lparr>cl_negotiated_rate := n\<rparr>) = on_hand c"
  "on_hand (c\<lparr>cl_phase := p\<rparr>) = on_hand c" "on_hand (c\<lparr>cl_deframer := x\<rparr>) = on_hand c"
  "on_hand (c\<lparr>cl_mode := m\<rparr>) = on_hand c" "on_hand (c\<lparr>cl_modem := v\<rparr>) = on_hand c"
  "on_hand (c\<lparr>cl_rx_guard := n\<rparr>) = on_hand c" "on_hand (c\<lparr>cl_v34_baud_rate := n\<rparr>) = on_hand c"
  "on_hand (c\<lparr>cl_silence_left := n\<rparr>) = on_hand c" "on_hand (c\<lparr>cl_tone_left := n\<rparr>) = on_hand c"
  "on_hand (c\<lparr>cl_tone_phase := y\<rparr>) = on_hand c" "on_hand (c\<lparr>cl_txbuf := t\<rparr>) = on_hand c"
  "on_hand (c\<lparr>cl_bm_phase_seen := s\<rparr>) = on_hand c" "on_hand (c\<lparr>cl_bm_ec_seen := n\<rparr>) = on_hand c"
  "on_hand (c\<lparr>cl_cap_count := n\<rparr>) = on_hand c" "on_hand (c\<lparr>cl_txbits := q\<rparr>) = on_hand c"
  "on_hand (c\<lparr>cl_bytes_rx := n\<rparr>) = on_hand c" "on_hand (c\<lparr>cl_bytes_tx := n\<rparr>) = on_hand c"
  "on_hand (c\<lparr>cl_ppy_out := bs\<rparr>) = on_hand c" "on_hand (c\<lparr>cl_to_ppp := bs\<rparr>) = on_hand c"
  "on_hand (c\<lparr>cl_sent := bs\<rparr>) = on_hand c" "on_hand (c\<lparr>cl_ppp_started := b\<rparr>) = on_hand c"
  "on_hand (c\<lparr>cl_samples_in := n\<rparr>) = on_hand c" "on_hand (c\<lparr>cl_samples_out := n\<rparr>) = on_hand c"
  "on_hand (c\<lparr>cl_fault := b\<rparr>) = on_hand c" "on_hand (c\<lparr>cl_as := a\<rparr>) = on_hand c"
  "on_hand (c\<lparr>cl_taken := rs\<rparr>) = on_hand c"
  by (simp_all add: on_hand_def held_def)

lemma balanced_upd [simp]:
  "balanced L (c\<lparr>cl_v8_done := d\<rparr>) = balanced L c" "balanced L (c\<lparr>cl_v8_ok := k\<rparr>) = balanced L c"
  "balanced L (c\<lparr>cl_bm_nocarrier := n\<rparr>) = balanced L c" "balanced L (c\<lparr>cl_negotiated_rate := n\<rparr>) = balanced L c"
  "balanced L (c\<lparr>cl_phase := p\<rparr>) = balanced L c" "balanced L (c\<lparr>cl_deframer := x\<rparr>) = balanced L c"
  "balanced L (c\<lparr>cl_mode := m\<rparr>) = balanced L c" "balanced L (c\<lparr>cl_modem := v\<rparr>) = balanced L c"
  "balanced L (c\<lparr>cl_rx_guard := n\<rparr>) = balanced L c" "balanced L (c\<lparr>cl_v34_baud_rate := n\<rparr>) = balanced L c"
  "balanced L (c\<lparr>cl_silence_left := n\<rparr>) = balanced L c" "balanced L (c\<lparr>cl_tone_left := n\<rparr>) = balanced L c"
  "balanced L (c\<lparr>cl_tone_phase := y\<rparr>) = balanced L c" "balanced L (c\<lparr>cl_txbuf := t\<rparr>) = balanced L c"
  "balanced L (c\<lparr>cl_bm_phase_seen := s\<rparr>) = balanced L c" "balanced L (c\<lparr>cl_bm_ec_seen := n\<rparr>) = balanced L c"
  "balanced L (c\<lparr>cl_cap_count := n\<rparr>) = balanced L c" "balanced L (c\<lparr>cl_txbits := q\<rparr>) = balanced L c"
  "balanced L (c\<lparr>cl_bytes_rx := n\<rparr>) = balanced L c" "balanced L (c\<lparr>cl_bytes_tx := n\<rparr>) = balanced L c"
  "balanced L (c\<lparr>cl_ppy_out := bs\<rparr>) = balanced L c" "balanced L (c\<lparr>cl_to_ppp := bs\<rparr>) = balanced L c"
  "balanced L (c\<lparr>cl_sent := bs\<rparr>) = balanced L c" "balanced L (c\<lparr>cl_ppp_started := b\<rparr>) = balanced L c"
  "balanced L (c\<lparr>cl_samples_in := n\<rparr>) = balanced L c" "balanced L (c\<lparr>cl_samples_out := n\<rparr>) = balanced L c"
  "balanced L (c\<lparr>cl_fault := b\<rparr>) = balanced L c" "balanced L (c\<lparr>cl_as := a\<rparr>) = balanced L c"
  by (simp_all add: balanced_def)

lemma balanced_frame: "engine_frame c0 c \<Longrightarrow> balanced L c = balanced L c0"
proof -
  assume f: "engine_frame c0 c"
  let ?r = "c\<lparr>cl_txbits := cl_txbits c0, cl_deframer := cl_deframer c0, cl_phase := cl_phase c0,
       cl_negotiated_rate := cl_negotiated_rate c0, cl_modem := cl_modem c0, cl_txbuf := cl_txbuf c0\<rparr>"
  have e: "?r = c0" using f by (simp add: engine_frame_def)
  show ?thesis using arg_cong [OF e, of "balanced L"] by simp
qed

lemma capture_balanced [simp]: "balanced L (capture_chunk xs c) = balanced L c"
  by (simp add: capture_chunk_def ledger_defs)

lemma put_tx_balanced [simp]: "balanced L (put_tx i xs c) = balanced L c"
  by (simp add: put_tx_def)

lemma bm_chunk_balanced: "balanced L (snd (bm_chunk F e n c)) = balanced L c"
proof -
  have r: "balanced L (c\<lparr>cl_bm := False, cl_released := cl_released c @ [RelBm]\<rparr>) = balanced L c" if "cl_bm c"
    for c :: "('a, 'b, 'c) sm_call"
    using that by (simp add: ledger_defs)
  have "balanced L (bm_poll F ob n c) = balanced L c" if b: "cl_bm c" for ob
    using r [of "start_v22 F (bm_note ob c)"] b
    by (simp add: bm_poll_def Let_def bm_note_def bm_data_def start_v22_def)
  then show ?thesis
    by (simp add: bm_chunk_def Let_def balanced_frame [OF run_evs_frame])
qed

lemma audio_loop_balanced: "balanced L (audio_loop F e i xs c) = balanced L c"
proof (induction F e i xs c rule: audio_loop.induct)
  case (2 F e i x xs c)
  have "balanced L (foldl (\<lambda>c r. call_v8_result m r c) c rs) = balanced L c" for m rs and c :: "('a, 'b, 'c) sm_call"
  proof (induction rs arbitrary: c)
    case (Cons r rs)
    have "balanced L (call_v8_result m r c) = balanced L c" by (cases r) (simp add: call_v8_result_def)
    with Cons [of "call_v8_result m r c"] show ?case by simp
  qed simp
  then have v8: "balanced L (v8_chunk e i (Suc (length xs)) c) = balanced L c" by (simp add: v8_chunk_def Let_def)
  have t: "balanced L (tone_sample F i c) = balanced L c" by (simp add: tone_sample_def Let_def)
  have g: "balanced L (snd (guard_chunk F e i m c)) = balanced L c" for m
    by (simp add: guard_chunk_def Let_def balanced_frame [OF v22_rx_frame] balanced_frame [OF v22_tx_frame])
  have "balanced L (engine_chunk F e i (x # xs) c) = balanced L c"
    by (simp add: engine_chunk_def split_beta balanced_frame [OF modem_chunk_frame] g)
  with v8 t 2 show ?case by simp
qed simp

lemma v8_finish_balanced:
  assumes "\<not> cl_v34 c"
  shows "balanced L (v8_finish F e c) = balanced L c"
proof -
  have t: "balanced L (snd (try_v34 e c)) = balanced L c" if "\<not> cl_v34 c" for c :: "('a, 'b, 'c) sm_call"
    using that by (simp add: try_v34_def ledger_defs)
  have s: "balanced L (start_v22 F c) = balanced L c" for c :: "('a, 'b, 'c) sm_call" by (simp add: start_v22_def)
  have f: "\<not> cl_v34 (snd (try_v34 e c))" if "\<not> fst (try_v34 e c)" using that by (simp add: try_v34_def split: if_splits)
  show ?thesis using t [OF assms] s assms f by (simp add: v8_finish_def Let_def split_beta t)
qed

lemma process_chunk_balanced:
  assumes "call_ok c"
  shows "balanced L (process_chunk F q e xs c) = balanced L c"
proof -
  obtain made c1 where b: "bm_chunk F e (length xs) (capture_chunk xs c) = (made, c1)" by fastforce
  define c2 where "c2 = (if made then c1 else audio_loop F e 0 xs c1)"
  define c3 where "c3 = (if cl_phase c2 = SM_CALL_V8 \<and> cl_v8_done c2 then v8_finish F e c2 else c2)"
  have ok1: "call_ok c1" using bm_chunk_ok [of "capture_chunk xs c" F e "length xs"] assms b by simp
  then have ok2: "call_ok c2" by (simp add: c2_def audio_loop_ok)
  then have "balanced L c3 = balanced L c2"
    by (simp add: c3_def v8_finish_balanced call_ok_def engines_ok_def)
  also have "balanced L c2 = balanced L c1" unfolding c2_def by (simp add: audio_loop_balanced)
  also have "balanced L c1 = balanced L c"
    using bm_chunk_balanced [of L F e "length xs" "capture_chunk xs c"] b by simp
  finally have r: "balanced L (detect_data c3) = balanced L c" by (simp add: detect_data_def)
  have "call_ok (detect_data c3)" using ok2 by (simp add: c3_def detect_data_ok v8_finish_ok)
  then have "cl_bbs (detect_data c3) = None" by (rule call_ok_no_bbs)
  moreover have "process_chunk F q e xs c = count_audio q (length xs) (detect_data c3)"
    using b by (simp add: process_chunk_def c2_def c3_def Let_def)
  ultimately show ?thesis using r by (simp add: count_audio_def Let_def)
qed

text \<open>What a call may lose track of: pppd's descriptor when its side closes, and pppd when \<open>waitpid\<close> has reaped it.\<close>

definition pppd_closed :: "round_env \<Rightarrow> bool" where
  "pppd_closed e \<longleftrightarrow> pe_read (re_pump e) = ReadEof \<or> pe_read (re_pump e) = ReadData []"

definition excused :: "round_env list \<Rightarrow> release \<Rightarrow> bool" where
  "excused evs x \<longleftrightarrow> (\<exists>f. x = RelFd f) \<and> (\<exists>e \<in> set evs. pppd_closed e) \<or> (\<exists>e \<in> set evs. x = RelTerm (re_waitpid e))"

text \<open>\<open>socketpair\<close> gives descriptors, and \<open>fork\<close> returns in the parent.\<close>

definition spawn_sane :: "round_env \<Rightarrow> bool" where
  "spawn_sane e \<longleftrightarrow> se_fork (pe_spawn (re_pump e)) \<noteq> 0
     \<and> (\<forall>a b. se_socketpair (pe_spawn (re_pump e)) = Some (a, b) \<longrightarrow> 0 \<le> b)"

definition ledger :: "round_env list \<Rightarrow> release multiset \<Rightarrow> ('f, 'd, 'q) sm_call \<Rightarrow> bool" where
  "ledger evs L0 c \<longleftrightarrow> (\<exists>lost. balanced (L0 + lost) c \<and> (\<forall>x \<in># lost. excused evs x))"

lemma ledger_same: "(\<And>L. balanced L c' = balanced L c) \<Longrightarrow> ledger evs L0 c' = ledger evs L0 c"
  by (simp add: ledger_def)

lemma ledger_loses: "ledger evs L0 c \<Longrightarrow> excused evs x \<Longrightarrow> (\<And>L. balanced L c \<Longrightarrow> balanced (add_mset x L) c') \<Longrightarrow> ledger evs L0 c'"
  unfolding ledger_def by (metis add_mset_add_single set_mset_add_mset_insert insert_iff union_mset_add_mset_right)

lemma start_pppd_balanced:
  assumes "spawn_sane e" and "\<not> cl_ppp_started c" and "call_ok c"
  shows "balanced L (snd (start_pppd (pe_spawn (re_pump e)) c)) = balanced L c"
proof -
  have n: "cl_ppp_fd c < 0" "cl_pppd_pid c \<le> 0" using assms by (auto simp: call_ok_def bytes_ok_def)
  obtain rc c' where s: "start_pppd (pe_spawn (re_pump e)) c = (rc, c')" by fastforce
  have h: "on_hand c = held c" using n by (simp add: on_hand_def)
  from start_pppd_result [OF s] show ?thesis
  proof
    assume "rc = -1 \<and> c' = c\<lparr>cl_pppd_pid := -1\<rparr>"
    moreover have "on_hand (c\<lparr>cl_pppd_pid := -1\<rparr>) = held c" using n by (simp add: on_hand_def held_def)
    ultimately show ?thesis using s h by (simp add: balanced_def)
  next
    let ?p = "se_fork (pe_spawn (re_pump e))"
    assume "rc = 0 \<and> 0 \<le> ?p \<and> (\<exists>a b. se_socketpair (pe_spawn (re_pump e)) = Some (a, b)
        \<and> c' = c\<lparr>cl_pppd_pid := ?p, cl_ppp_fd := b, cl_ppp_started := True, cl_taken := cl_taken c @ [RelFd b, RelTerm ?p]\<rparr>)"
    then obtain a b where c': "0 \<le> ?p" "se_socketpair (pe_spawn (re_pump e)) = Some (a, b)"
      "c' = c\<lparr>cl_pppd_pid := ?p, cl_ppp_fd := b, cl_ppp_started := True, cl_taken := cl_taken c @ [RelFd b, RelTerm ?p]\<rparr>" by blast
    have "0 < ?p" "0 \<le> b" using c'(1,2) assms(1) by (auto simp: spawn_sane_def)
    then have "on_hand c' = held c @ [RelFd b, RelTerm ?p]" by (simp add: c'(3) on_hand_def held_def)
    then show ?thesis using s h by (simp add: balanced_def) (simp add: c'(3))
  qed
qed

lemma pump_read_ledger:
  assumes "ledger evs L0 c" and "e \<in> set evs"
  shows "ledger evs L0 (pump_read (pe_read (re_pump e)) c)"
proof (cases "cl_ppp_fd c \<ge> 0 \<and> pppd_closed e")
  case True
  have "balanced L c \<Longrightarrow> balanced (add_mset (RelFd (cl_ppp_fd c)) L) (c\<lparr>cl_ppp_fd := -1\<rparr>)" for L
    using True by (simp add: ledger_defs)
  moreover have "excused evs (RelFd (cl_ppp_fd c))" using True assms(2) by (auto simp: excused_def)
  ultimately have "ledger evs L0 (c\<lparr>cl_ppp_fd := -1\<rparr>)" using ledger_loses [OF assms(1)] by blast
  with True show ?thesis by (auto simp: pump_read_def pppd_closed_def)
next
  case False
  have "balanced L (bbs_write bs c) = balanced L c" for L bs by (simp add: bbs_write_def split_beta Let_def)
  then have "balanced L (pump_read (pe_read (re_pump e)) c) = balanced L c" for L
    using False by (auto simp: pump_read_def pppd_closed_def split: read_res.split)
  from ledger_same [OF this] assms(1) show ?thesis by blast
qed

lemma pump_ppp_ledger:
  assumes ok: "call_ok c" and l: "ledger evs L0 c" and e: "e \<in> set evs" "spawn_sane e"
  shows "ledger evs L0 (pump_ppp q (re_pump e) c)"
proof -
  let ?start = "cl_phase c = SM_CALL_DATA \<and> \<not> cc_echo_data (cl_cfg c) \<and> cc_enable_ppp (cl_cfg c) \<and> \<not> cl_ppp_started c"
  obtain rc c1 where s: "(if ?start then start_pppd (pe_spawn (re_pump e)) c else (0, c)) = (rc, c1)" by fastforce
  have b1: "balanced L c1 = balanced L c" for L
    using s start_pppd_balanced [OF e(2) _ ok, of L] by (auto split: if_splits)
  have ok1: "call_ok c1"
    using ok s start_pppd_ok [OF ok, of "pe_spawn (re_pump e)" rc c1] by (auto split: if_splits)
  have l1: "ledger evs L0 c1" using ledger_same [OF b1] l by blast
  have f: "balanced L (ppp_flush es d) = balanced L d" "balanced L (stage_rx tmp d) = balanced L d"
    "balanced L (snd (take_rx d)) = balanced L d" "balanced L (pump_echo tmp d) = balanced L d"
    for L es tmp and d :: "('a, 'b, 'c) sm_call"
    by (simp_all add: ppp_flush_def stage_rx_def take_rx_def pump_echo_def split_beta Let_def)
  obtain tmp c2 where t: "take_rx c1 = (tmp, c2)" by fastforce
  have b2: "balanced L c2 = balanced L c1" for L using f(3) [of L c1] t by simp
  have "ledger evs L0 (pump_read (pe_read (re_pump e)) (ppp_flush es (stage_rx tmp c2)))" for es
    by (rule pump_read_ledger [OF _ e(1)]) (use ledger_same [of _ c1, OF trans [OF trans [OF f(1) f(2)] b2]] l1 in blast)
  moreover have "ledger evs L0 (pump_echo tmp c2)" using ledger_same [of _ c1, OF trans [OF f(4) b2]] l1 by blast
  moreover have "ledger evs L0 (c1\<lparr>cl_phase := p\<rparr>)" for p using ledger_same [of _ c1, OF balanced_upd(5)] l1 by blast
  moreover have "cl_bbs c2 = None" using call_ok_no_bbs [OF take_rx_ok [OF ok1]] t by simp
  ultimately show ?thesis
    using s t l l1 pump_read_ledger [OF l1 e(1)] by (simp add: pump_ppp_def Let_def split_beta)
qed

lemma after_msg_ledger:
  assumes "call_ok c" and "ledger evs L0 c" and "e \<in> set evs" "spawn_sane e"
  shows "case after_msg q e c of Leave c' \<Rightarrow> ledger evs L0 c' | Continue t' c' \<Rightarrow> ledger evs L0 c'"
proof -
  define c1 where "c1 = pump_ppp q (re_pump e) c"
  have l1: "ledger evs L0 c1" unfolding c1_def by (rule pump_ppp_ledger [OF assms])
  have "ledger evs L0 (c1\<lparr>cl_pppd_pid := -1\<rparr>)" if "cl_pppd_pid c1 > 0" "re_waitpid e = cl_pppd_pid c1"
  proof (rule ledger_loses [OF l1])
    show "excused evs (RelTerm (cl_pppd_pid c1))" unfolding excused_def using that(2) assms(3) by metis
    show "balanced L c1 \<Longrightarrow> balanced (add_mset (RelTerm (cl_pppd_pid c1)) L) (c1\<lparr>cl_pppd_pid := -1\<rparr>)" for L
      using that(1) by (simp add: ledger_defs)
  qed
  with l1 show ?thesis by (simp add: after_msg_def Let_def c1_def [symmetric])
qed

lemma call_round_ledger:
  assumes "call_ok c" and "ledger evs L0 c" and "e \<in> set evs" "spawn_sane e"
  shows "case call_round F q e res t c of Leave c' \<Rightarrow> ledger evs L0 c' | Continue t' c' \<Rightarrow> ledger evs L0 c'"
proof -
  have m: "ledger evs L0 (snd (audio_msg F q e m c)) \<and> call_ok (snd (audio_msg F q e m c))" for m
  proof -
    have "balanced L (snd (audio_msg F q e m c)) = balanced L c" for L
      using process_chunk_balanced [OF assms(1)] by (simp add: audio_msg_def Let_def split_beta process_audio_def)
    from ledger_same [OF this] assms(2) process_audio_ok [OF assms(1)] show ?thesis
      by (simp add: audio_msg_def Let_def split_beta)
  qed
  show ?thesis
  proof (cases "snd res")
    case None
    with assms(2) pump_ppp_ledger [OF assms] show ?thesis by (simp add: call_round_def split_beta)
  next
    case (Some x)
    with m [of x] assms(2) after_msg_ledger [OF assms] after_msg_ledger [of "snd (audio_msg F q e x c)", OF _ _ assms(3,4)]
    show ?thesis by (simp add: call_round_def split_beta split: step.split_asm step.split)
  qed
qed

lemma call_loop_ledger:
  "call_ok c \<Longrightarrow> ledger all L0 c \<Longrightarrow> set evs \<subseteq> set all \<Longrightarrow> list_all spawn_sane evs
     \<Longrightarrow> ledger all L0 (snd (call_loop F q evs es t c))"
proof (induction F q evs es t c rule: call_loop.induct)
  case (2 F q e evs es t c)
  show ?case
  proof (cases "cl_phase c = SM_CALL_HANGUP")
    case False
    obtain res c1 es1 where r: "read_msg es c = (res, c1, es1)" by (metis prod_cases3)
    have c1: "call_ok c1" "ledger all L0 c1"
      using read_msg_ok [OF 2(2) r] read_msg_as [OF r] 2(3) by (auto simp: ledger_def)
    have e: "e \<in> set all" "spawn_sane e" "set evs \<subseteq> set all" "list_all spawn_sane evs" using 2(4,5) by auto
    with call_round_ledger [OF c1 e(1,2), of F q res t] call_round_ok [OF c1(1), of F q e res t] False r
      2(1) [OF False r [symmetric] refl]
    show ?thesis by (simp split: step.split_asm step.split)
  qed (simp add: 2)
qed simp

text \<open>Nothing more comes in, and what has come in is not a whole message.\<close>

definition waiting :: "ast_socket \<Rightarrow> bool" where
  "waiting s \<longleftrightarrow> (if as_rx_pending s then as_rxlen s < as_rx_expected s else as_rxhdr s < 3)"

lemma silent_recv: "data_of es = [] \<Longrightarrow> recv_into es n = (r, es') \<Longrightarrow> (r = RecvTimeout \<or> r = RecvError) \<and> data_of es' = []"
  by (induction es n rule: recv_into.induct) auto

lemma silent_read:
  assumes "data_of es = []" and "waiting (cl_as c)"
  shows "\<exists>r es'. read_msg es c = ((r, None), c, es') \<and> r \<le> 0 \<and> data_of es' = []"
proof -
  have "\<exists>r es'. sm_ast_read (cl_as c) SM_AS_MAX_PAYLOAD es = (r, None, cl_as c, es') \<and> r \<le> 0 \<and> data_of es' = []"
  proof (cases "as_rx_pending (cl_as c)")
    case True
    define want where "want = (if as_rxlen (cl_as c) < SM_AS_MAX_PAYLOAD
        then (if as_rx_expected (cl_as c) - as_rxlen (cl_as c) < SM_AS_MAX_PAYLOAD - as_rxlen (cl_as c)
              then as_rx_expected (cl_as c) - as_rxlen (cl_as c) else SM_AS_MAX_PAYLOAD - as_rxlen (cl_as c))
        else (if as_rx_expected (cl_as c) - as_rxlen (cl_as c) < 256 then as_rx_expected (cl_as c) - as_rxlen (cl_as c) else 256))"
    obtain r es' where rc: "recv_into es want = (r, es')" by fastforce
    have w: "as_rxlen (cl_as c) < as_rx_expected (cl_as c)" using True assms(2) by (simp add: waiting_def)
    have "\<exists>k. read_payload (cl_as c) es = (k, cl_as c, es') \<and> k \<le> 0"
      using rc silent_recv [OF assms(1) rc] w
      by (subst read_payload.simps) (auto simp: want_def Let_def split: if_splits)
    then show ?thesis
      using True silent_recv [OF assms(1) rc] by (auto simp: sm_ast_read_def ast_read_header_def ast_read_payload_def)
  next
    case False
    obtain r es' where rc: "recv_into es (3 - as_rxhdr (cl_as c)) = (r, es')" by fastforce
    have "as_rxhdr (cl_as c) < 3" using False assms(2) by (simp add: waiting_def)
    then have "\<exists>k. read_header (cl_as c) es = (k, cl_as c, es') \<and> k \<le> 0"
      using rc silent_recv [OF assms(1) rc] by (subst read_header.simps) auto
    then show ?thesis
      using False silent_recv [OF assms(1) rc] by (auto simp: sm_ast_read_def ast_read_header_def)
  qed
  then show ?thesis by (auto simp: read_msg_def)
qed

lemma silent_loop:
  assumes "call_ok c" and "waiting (cl_as c)" and "data_of es = []" and "t < 5" and "5 \<le> t + length evs"
  shows "fst (call_loop F q evs es t c)"
  using assms
proof (induction evs arbitrary: es t c)
  case (Cons e evs)
  show ?case
  proof (cases "cl_phase c = SM_CALL_HANGUP")
    case False
    obtain r es' where r: "read_msg es c = ((r, None), c, es')" "r \<le> 0" "data_of es' = []"
      using silent_read [OF Cons.prems(3,2)] by blast
    let ?p = "pump_ppp q (re_pump e) c"
    have "cl_as ?p = cl_as c" using pump_ppp_kept [OF Cons.prems(1), of q "re_pump e"] by (simp add: kept_def)
    with Cons.IH [OF pump_ppp_ok [OF Cons.prems(1)] _ r(3), of q "re_pump e" "Suc t"] Cons.prems False r
    show ?thesis by (auto simp: call_round_def)
  qed simp
qed simp

lemma init_on_hand:
  "mset (cl_taken (sm_call_init F i cfg call_id :: ('a, 'b, 'c) sm_call)) = mset (on_hand (sm_call_init F i cfg call_id :: ('a, 'b, 'c) sm_call))"
proof -
  define c0 :: "('a, 'b, 'c) sm_call" where "c0 = tone_setup F (call_capture (ie_capture i) (call_zero F cfg call_id))"
  have s: "\<not> cl_v8 c0" "\<not> cl_bm c0" "\<not> cl_v34 c0" "cl_bbs c0 = None" "cl_ppp_fd c0 = -1" "cl_pppd_pid c0 = -1"
    by (simp_all add: c0_def tone_setup_def call_capture_def call_zero_def Let_def split: option.split)
  define caps where "caps = (if cl_cap_in c0 \<noteq> None then [RelCapIn] else []) @ (if cl_cap_out c0 \<noteq> None then [RelCapOut] else [])"
  have t: "cl_taken c0 = caps"
    by (simp add: c0_def caps_def tone_setup_def call_capture_def call_zero_def Let_def split: option.split prod.split)
  have h: "on_hand c0 = caps" "on_hand (c0\<lparr>cl_v8 := True\<rparr>) = caps @ [RelV8]" "on_hand (c0\<lparr>cl_bm := True\<rparr>) = caps @ [RelBm]"
    using s by (simp_all add: on_hand_def held_def caps_def)
  show ?thesis
    unfolding sm_call_init_def Let_def c0_def [symmetric] by (simp add: t h)
qed

lemma wait_uuid_balanced:
  "call_ok c \<Longrightarrow> wait_uuid F q evs es c = (go, evs', es', c')
    \<Longrightarrow> balanced L c' = balanced L c \<and> (\<exists>done. evs = done @ evs')"
proof (induction F q evs es c rule: wait_uuid.induct)
  case (2 F q e evs es c)
  obtain r mo c1 es1 where r: "read_msg es c = ((r, mo), c1, es1)" by (metis prod.collapse)
  have c1: "call_ok c1" using read_msg_ok [OF 2(2) r] .
  have k: "balanced L c1 = balanced L c" using read_msg_as [OF r] by auto
  have d: "\<exists>done. e # evs = done @ evs" by (rule exI [of _ "[e]"]) simp
  show ?case
  proof (cases mo)
    case None
    with 2(3) r k d show ?thesis by auto
  next
    case (Some m)
    note ih = 2(1) [OF r [symmetric] refl refl Some]
    have p: "balanced L (process_audio F q (re_chunk e) xs n c1) = balanced L c1" for xs n
      by (simp add: process_audio_def process_chunk_balanced [OF c1])
    show ?thesis
    proof (cases "msg_kind m = SM_AS_KIND_UUID \<and> msg_plen m \<ge> 16 \<or> msg_kind m = SM_AS_KIND_AUDIO")
      case True
      with 2(3) r Some p k d show ?thesis by (auto split: if_splits)
    next
      case False
      with 2(3) r Some have "wait_uuid F q evs es1 c1 = (go, evs', es', c')" by (auto split: if_splits)
      with ih False c1 have "balanced L c' = balanced L c1" "\<exists>done. evs = done @ evs'" by auto
      with k show ?thesis by (metis append_Cons)
    qed
  qed
qed auto

definition not_kill :: "release \<Rightarrow> bool" where
  "not_kill x \<longleftrightarrow> (\<forall>p. x \<noteq> RelKill p)"

text \<open>The clean-up at the end closes the books: what was on hand is released, with the connection.\<close>

lemma teardown_closes:
  assumes "balanced L c" and "list_all not_kill (cl_released c)"
  shows "mset (cl_taken (call_teardown alive fd c)) + {#RelFd fd#}
     = mset (filter not_kill (cl_released (call_teardown alive fd c))) + L"
proof -
  have k: "filter not_kill (cl_released c) = cl_released c" using assms(2) by (simp add: list_all_iff filter_id_conv)
  have h: "filter not_kill (held c) = held c" by (simp add: held_def not_kill_def)
  have p: "held c @ filter not_kill (pppd_rels alive c) = on_hand c" by (simp add: pppd_rels_def on_hand_def not_kill_def)
  have t: "cl_taken (call_teardown alive fd c) = cl_taken c" by (simp add: call_teardown_def stop_pppd_def Let_def)
  have n: "not_kill (RelFd fd)" by (simp add: not_kill_def)
  have f: "mset (filter not_kill (cl_released (call_teardown alive fd c)))
      = mset (cl_released c) + mset (held c @ filter not_kill (pppd_rels alive c)) + {#RelFd fd#}"
    by (simp add: teardown_released k h n)
  show ?thesis using assms(1) unfolding f p t balanced_def by simp
qed

text \<open>What the clean-up releases of what the call was created with, and how pppd is signalled.\<close>

lemma teardown_counts:
  assumes "fst (kept c2) = fst (kept c0)" and rel0: "cl_released c0 = []" and c_def: "c = call_teardown alive fd c2"
  shows "count_list (cl_released c) RelV8 = (if cl_v8 c0 then 1 else 0)"
    "count_list (cl_released c) RelBm = (if cl_bm c0 then 1 else 0)" "count_list (cl_released c) RelV34 \<le> 1"
    "count_list (cl_released c) RelCapIn = (if cl_cap_in c0 = None then 0 else 1)"
    "count_list (cl_released c) RelCapOut = (if cl_cap_out c0 = None then 0 else 1)"
    "list_all not_kill (cl_released c2)"
    "RelKill p \<in> set (cl_released c) \<longleftrightarrow> alive \<and> RelTerm p \<in> set (cl_released c)"
    "last (cl_released c) = RelFd fd"
proof -
  from assms(1) have k: "cl_released c2 @ (if cl_bm c2 then [RelBm] else []) = (if cl_bm c0 then [RelBm] else [])"
    "cl_v8 c2 = cl_v8 c0" "(cl_cap_in c2 = None) = (cl_cap_in c0 = None)" "(cl_cap_out c2 = None) = (cl_cap_out c0 = None)"
    using rel0 by (auto simp: kept_def)
  then have rs: "cl_released c2 = (if cl_bm c0 \<and> \<not> cl_bm c2 then [RelBm] else [])" "cl_bm c2 \<Longrightarrow> cl_bm c0"
    by (auto split: if_splits)
  have f: "cl_released c = cl_released c2 @ held c2 @ pppd_rels alive c2 @ [RelFd fd]"
    unfolding c_def by (rule teardown_released)
  have cnt: "count_list (cl_released c) x = count_list (cl_released c2) x + count_list (held c2) x"
    if "x \<in> {RelV8, RelBm, RelV34, RelCapIn, RelCapOut}" for x
    using that count_pppd_rels [OF that, of alive c2] unfolding f by auto
  show "count_list (cl_released c) RelV8 = (if cl_v8 c0 then 1 else 0)"
    "count_list (cl_released c) RelBm = (if cl_bm c0 then 1 else 0)" "count_list (cl_released c) RelV34 \<le> 1"
    "count_list (cl_released c) RelCapIn = (if cl_cap_in c0 = None then 0 else 1)"
    "count_list (cl_released c) RelCapOut = (if cl_cap_out c0 = None then 0 else 1)"
    using rs k(2-4) by (auto simp: cnt held_def)
  show "list_all not_kill (cl_released c2)" by (simp add: rs(1) not_kill_def)
  show "RelKill p \<in> set (cl_released c) \<longleftrightarrow> alive \<and> RelTerm p \<in> set (cl_released c)"
    unfolding f by (auto simp: rs(1) held_def pppd_rels_def)
  show "last (cl_released c) = RelFd fd" by (simp add: f)
qed

text \<open>C9: a call that has run gives back everything it acquired, exactly once. What it acquires is what it is
  created with (the V.8 engine, BinModem, the captures), its connection, a V.34 engine, and pppd's descriptor and
  process; when it returns 0, the releases, apart from the second signal to a pppd that is still alive, are exactly
  these, except for pppd's descriptor if pppd's side was seen closing (it is then forgotten without being closed)
  and for pppd's process if \<open>waitpid\<close> has reaped it. Nothing is left on hand, and the connection is
  closed last. A call whose connection breaks before the UUID returns -1 and gives back nothing.\<close>

theorem call_releases_everything:
  fixes c0 :: "('f, 'd, 'q) sm_call"
  assumes "c0 = sm_call_init F i cfg call_id" and "sm_call_run F q alive evs es fd c0 = (Some r, c)"
    and "list_all spawn_sane evs"
  shows "if r = 0
    then (\<exists>lost. mset (cl_taken c) = mset (filter not_kill (cl_released c)) + lost \<and> (\<forall>x \<in># lost. excused evs x))
      \<and> mset (cl_taken c0) = mset (on_hand c0)
      \<and> (\<forall>p. RelKill p \<in> set (cl_released c) \<longleftrightarrow> alive \<and> RelTerm p \<in> set (cl_released c))
      \<and> on_hand c = [] \<and> last (cl_released c) = RelFd fd
      \<and> count_list (cl_released c) RelV8 = (if cl_v8 c0 then 1 else 0)
      \<and> count_list (cl_released c) RelBm = (if cl_bm c0 then 1 else 0)
      \<and> count_list (cl_released c) RelV34 \<le> 1
      \<and> count_list (cl_released c) RelCapIn = (if cl_cap_in c0 = None then 0 else 1)
      \<and> count_list (cl_released c) RelCapOut = (if cl_cap_out c0 = None then 0 else 1)
    else r = -1 \<and> cl_released c = [] \<and> cl_taken c = cl_taken c0 @ [RelFd fd] \<and> on_hand c = on_hand c0"
proof -
  let ?c0 = "c0\<lparr>cl_as := sm_ast_init fd, cl_taken := cl_taken c0 @ [RelFd fd]\<rparr>"
  obtain go evs1 es1 c1 where w: "wait_uuid F q evs es ?c0 = (go, evs1, es1, c1)" by (metis prod_cases4)
  have ok0: "call_ok ?c0" by (simp add: assms(1) init_ok)
  have rel0: "cl_released c0 = []" unfolding assms(1) by (rule init_released)
  have tk0: "mset (cl_taken c0) = mset (on_hand c0)" unfolding assms(1) by (rule init_on_hand)
  note w1 = wait_uuid_kept [OF ok0 w]
  have ok1: "call_ok c1" by (rule wait_uuid_ok [OF ok0 w])
  consider (gave) "go = Some False" "r = -1" "c = c1"
    | (ran) c2 where "go = Some True" "r = 0" "call_loop F q evs1 es1 0 c1 = (True, c2)" "c = call_teardown alive fd c2"
    using assms(2) w by (auto simp: sm_call_run_def Let_def split: option.splits bool.splits prod.splits if_splits)
  then show ?thesis
  proof cases
    case gave
    with w1 rel0 show ?thesis by auto
  next
    case (ran c2)
    have ok2: "call_ok c2" using call_loop_ok [OF ok1, of F q evs1 es1 0] ran(3) by simp
    have k: "fst (kept c2) = fst (kept c0)" using call_loop_kept [OF ok1, of F q evs1 es1 0] ran(3) w1 by simp
    note cnt = teardown_counts [OF k rel0 ran(4)]
    have "balanced {#RelFd fd#} ?c0" using tk0 rel0 by (simp add: balanced_def)
    then have "balanced ({#RelFd fd#} + {#}) c1" using wait_uuid_balanced [OF ok0 w, of "{#RelFd fd#}"] by simp
    then have l1: "ledger evs {#RelFd fd#} c1" unfolding ledger_def by (intro exI [of _ "{#}"]) simp
    obtain before where "evs = before @ evs1" using wait_uuid_balanced [OF ok0 w, of "{#}"] by blast
    then have "set evs1 \<subseteq> set evs" "list_all spawn_sane evs1" using assms(3) by auto
    from call_loop_ledger [OF ok1 l1 this, of F q es1 0] ran(3) obtain lost where
      lost: "balanced ({#RelFd fd#} + lost) c2" "\<forall>x \<in># lost. excused evs x" by (auto simp: ledger_def)
    from teardown_closes [OF lost(1) cnt(6), of alive fd]
    have bal: "mset (cl_taken c) = mset (filter not_kill (cl_released c)) + lost" unfolding ran(4) by simp
    have hand: "on_hand c = []" using teardown_state [of alive fd c2] unfolding ran(4) by (simp add: on_hand_def held_def)
    from bal lost(2) tk0 hand cnt ran(2) show ?thesis by (simp only: if_True refl) blast
  qed
qed

text \<open>An empty audio message, and then silence.\<close>

definition demo_head :: ast_socket where
  "demo_head = (sm_ast_init 3)\<lparr>as_rxhead := mem_write (\<lambda>_. 0) 0 [0x10, 0, 0], as_rx_kind := 0x10\<rparr>"

lemma demo_audio_read:
  "read_msg [RecvData 0x10 [0, 0]] (c\<lparr>cl_as := sm_ast_init 3\<rparr>)
     = ((1, Some \<lparr>msg_kind = SM_AS_KIND_AUDIO, msg_bytes = [], msg_plen = 0\<rparr>), c\<lparr>cl_as := demo_head\<rparr>, [])"
proof -
  have h: "read_header (sm_ast_init 3) [RecvData 0x10 [0, 0]] =
     (1, (sm_ast_init 3)\<lparr>as_rxhead := mem_write (\<lambda>_. 0) 0 [0x10, 0, 0], as_rxhdr := 3\<rparr>, [])"
    by (subst read_header.simps) (simp add: sm_ast_init_def, subst read_header.simps, simp)
  have m: "mem_write (\<lambda>_. 0) 0 [0x10, 0, 0] 0 = (0x10 :: u8)" "mem_write (\<lambda>_. 0) 0 [0x10, 0, 0 :: u8] 2 = 0"
    "mem_write (\<lambda>_. 0) 0 [0x10, 0, 0 :: u8] (Suc 0) = 0"
    by (simp_all add: mem_write_def)
  have p: "\<not> as_rx_pending (sm_ast_init 3)" by (simp add: sm_ast_init_def)
  have r: "read_payload s es = (1, s, es)" if "as_rx_expected s = 0" for s es
    using that by (subst read_payload.simps) simp
  show ?thesis
    by (simp add: read_msg_def sm_ast_read_def ast_read_header_def h m p ast_read_payload_def r)
       (simp add: sm_ast_init_def demo_head_def as_consts mem_read_def)
qed

theorem call_releases_everything_witness:
  "\<exists>c. sm_call_run demo_call_fp demo_sql True (replicate 6 demo_round) [RecvData 0x10 [0, 0]] 3 (demo_call demo_cfg) = (Some 0, c)
     \<and> on_hand c = [] \<and> last (cl_released c) = RelFd 3"
proof -
  let ?c = "(demo_call demo_cfg)\<lparr>cl_taken := [RelFd 3], cl_as := demo_head\<rparr>"
  define c1 where "c1 = process_audio demo_call_fp demo_sql (re_chunk demo_round) (pcm_of []) 0 ?c"
  have "(demo_call demo_cfg)\<lparr>cl_as := sm_ast_init 3, cl_taken := [RelFd 3]\<rparr>
      = (demo_call demo_cfg)\<lparr>cl_taken := [RelFd 3], cl_as := sm_ast_init 3\<rparr>" by simp
  then have rd: "read_msg [RecvData 0x10 [0, 0]] ((demo_call demo_cfg)\<lparr>cl_as := sm_ast_init 3, cl_taken := [RelFd 3]\<rparr>)
      = ((1, Some \<lparr>msg_kind = SM_AS_KIND_AUDIO, msg_bytes = [], msg_plen = 0\<rparr>), ?c, [])"
    by (simp only: demo_audio_read)
  have w: "wait_uuid demo_call_fp demo_sql (replicate 6 demo_round) [RecvData 0x10 [0, 0]] ((demo_call demo_cfg)\<lparr>cl_as := sm_ast_init 3, cl_taken := [RelFd 3]\<rparr>)
      = (Some True, replicate 5 demo_round, [], c1)"
    by (simp add: eval_nat_numeral rd c1_def as_consts)
  have ok: "call_ok ?c" by simp
  have ok1: "call_ok c1" unfolding c1_def by (rule process_audio_ok [OF ok])
  have "snd (kept c1) = demo_head"
    using process_chunk_kept [OF ok] by (simp add: c1_def process_audio_def) (simp add: kept_def)
  then have "waiting (cl_as c1)" by (simp add: kept_def waiting_def demo_head_def sm_ast_init_def)
  then have l: "fst (call_loop demo_call_fp demo_sql (replicate 5 demo_round) [] 0 c1)"
    using silent_loop [OF ok1, of "[]" 0 "replicate 5 demo_round"] by simp
  obtain c2 where "call_loop demo_call_fp demo_sql (replicate 5 demo_round) [] 0 c1 = (True, c2)" using l by (metis prod.collapse)
  then have run: "sm_call_run demo_call_fp demo_sql True (replicate 6 demo_round) [RecvData 0x10 [0, 0]] 3 (demo_call demo_cfg)
      = (Some 0, call_teardown True 3 c2)"
    using w by (simp add: sm_call_run_def)
  have "list_all spawn_sane (replicate 6 demo_round)" by (simp add: spawn_sane_def demo_round_def demo_pump_def list_all_iff)
  from call_releases_everything [OF demo_call_def [of demo_cfg] run this] run show ?thesis by simp
qed

text \<open>C20: a call ends by itself when its connection falls silent, whatever state it is in and whatever pppd and the
  engines do: after at most five rounds without a complete message the main loop is left.\<close>

theorem silent_call_ends:
  assumes "call_ok c" and "waiting (cl_as c)" and "data_of es = []" and "t < 5" and "5 \<le> t + length evs"
  shows "fst (call_loop F q evs es t c)"
  using assms by (rule silent_loop)

theorem silent_call_ends_witness:
  "fst (call_loop demo_call_fp demo_sql (replicate 5 demo_round) [] 0 (demo_call demo_cfg))"
  by (rule silent_call_ends) (simp_all add: waiting_def sm_ast_init_def)


end
