(* ===== verification/V8.thy ===== *)
theory V8
  imports Call
begin

text \<open>
  The wrapper around spanDSP's V.8 engine, \<open>src/src/modem/v8/sm_v8.c\<close>: the parameters it is created
  with, and the bridge that hands its result to the call. The engine itself and the constants of its
  header are not part of this code: the engine and the constants are arguments. \<open>V8_TRACE\<close> is left out.
\<close>

text \<open>spanDSP's \<open>V8_CALL_V_SERIES\<close>, \<open>V8_PROTOCOL_LAPM_V42\<close> and \<open>V8_MOD_V34\<close>.\<close>

record v8_consts =
  vk_v_series :: int
  vk_lapm_v42 :: int
  vk_mod_v34 :: int

datatype connect_tone = MODEM_CONNECT_TONES_NONE | MODEM_CONNECT_TONES_ANSAM

record v8_parms =
  vp_modem_connect_tone :: connect_tone
  vp_gateway_mode :: bool
  vp_send_ci :: bool
  vp_v92 :: int
  vp_call_function :: int
  vp_modulations :: int
  vp_protocols :: int
  vp_pcm_modem_availability :: int
  vp_pstn_access :: int
  vp_nsf :: int
  vp_t66 :: int

text \<open>What the engine reports: status, modulations, call function, protocols.\<close>

record v8_result =
  vr_status :: int
  vr_modulations :: int
  vr_call_function :: int
  vr_protocols :: int

type_synonym 'u v8_handler = "int \<Rightarrow> int \<Rightarrow> int \<Rightarrow> int \<Rightarrow> 'u \<Rightarrow> 'u"

text \<open>The engine: \<open>v8_init\<close>, which may refuse, \<open>v8_tx\<close> (room for so many samples) and \<open>v8_rx\<close> (samples in),
  with what they return, the engine afterwards and the reports they make through the bridge.\<close>

record 'e v8_engine =
  ve_init :: "bool \<Rightarrow> v8_parms \<Rightarrow> 'e option"
  ve_tx :: "'e \<Rightarrow> int \<Rightarrow> int list \<times> 'e \<times> v8_result list"
  ve_rx :: "'e \<Rightarrow> int list \<Rightarrow> int \<times> 'e \<times> v8_result list"

record ('e, 'u) sm_v8 =
  v8_engine_state :: 'e
  v8_handler_fn :: "'u v8_handler option"

definition v8_result_bridge :: "('e, 'u) sm_v8 \<Rightarrow> v8_result \<Rightarrow> 'u \<Rightarrow> 'u" where
  "v8_result_bridge v r u =
     (case v8_handler_fn v of
        None \<Rightarrow> u
      | Some h \<Rightarrow> h (vr_status r) (vr_modulations r) (vr_call_function r) (vr_protocols r) u)"

definition v8_parms_for :: "v8_consts \<Rightarrow> bool \<Rightarrow> int \<Rightarrow> v8_parms" where
  "v8_parms_for K calling_party allowed_modulations =
     \<lparr>vp_modem_connect_tone = (if calling_party then MODEM_CONNECT_TONES_NONE else MODEM_CONNECT_TONES_ANSAM),
      vp_gateway_mode = False, vp_send_ci = True, vp_v92 = -1, vp_call_function = vk_v_series K,
      vp_modulations = allowed_modulations, vp_protocols = vk_lapm_v42 K, vp_pcm_modem_availability = 0,
      vp_pstn_access = 0, vp_nsf = -1, vp_t66 = -1\<rparr>"

definition sm_v8_create :: "v8_consts \<Rightarrow> 'e v8_engine \<Rightarrow> bool \<Rightarrow> bool \<Rightarrow> int \<Rightarrow> 'u v8_handler option \<Rightarrow> ('e, 'u) sm_v8 option" where
  "sm_v8_create K E calloc_ok calling_party allowed handler =
     (if \<not> calloc_ok then None
      else (case ve_init E calling_party (v8_parms_for K calling_party allowed) of
              None \<Rightarrow> None
            | Some e \<Rightarrow> Some \<lparr>v8_engine_state = e, v8_handler_fn = handler\<rparr>))"

text \<open>The engine calls the bridge while it works, on the caller's data \<open>u\<close>. \<open>sm_v8_destroy\<close> gives back the
  engine and then the wrapper, or nothing for \<open>NULL\<close>.\<close>

definition sm_v8_tx :: "'e v8_engine \<Rightarrow> ('e, 'u) sm_v8 \<Rightarrow> int \<Rightarrow> 'u \<Rightarrow> int list \<times> ('e, 'u) sm_v8 \<times> 'u" where
  "sm_v8_tx E v max_len u =
     (case ve_tx E (v8_engine_state v) max_len of
        (amp, e, rs) \<Rightarrow> (amp, v\<lparr>v8_engine_state := e\<rparr>, fold (v8_result_bridge v) rs u))"

definition sm_v8_rx :: "'e v8_engine \<Rightarrow> ('e, 'u) sm_v8 \<Rightarrow> int list \<Rightarrow> 'u \<Rightarrow> int \<times> ('e, 'u) sm_v8 \<times> 'u" where
  "sm_v8_rx E v amp u =
     (case ve_rx E (v8_engine_state v) amp of
        (n, e, rs) \<Rightarrow> (n, v\<lparr>v8_engine_state := e\<rparr>, fold (v8_result_bridge v) rs u))"

datatype 'e v8_free = FreeEngine 'e | FreeWrapper

definition sm_v8_destroy :: "('e, 'u) sm_v8 option \<Rightarrow> 'e v8_free list" where
  "sm_v8_destroy v = (case v of None \<Rightarrow> [] | Some w \<Rightarrow> [FreeEngine (v8_engine_state w), FreeWrapper])"

subsection \<open>The call's use of it\<close>

text \<open>As \<open>sm_call_init\<close> creates it: V.22bis allowed, V.34 when it is configured.\<close>

definition call_v8_allowed :: "v8_consts \<Rightarrow> call_config \<Rightarrow> int" where
  "call_v8_allowed K cfg = V8_MOD_V22 OR (if cc_use_v34 cfg then vk_mod_v34 K else 0)"

definition call_v8_create :: "v8_consts \<Rightarrow> 'e v8_engine \<Rightarrow> bool \<Rightarrow> call_config \<Rightarrow> ('e, ('f, 'd, 'q) sm_call) sm_v8 option" where
  "call_v8_create K E calloc_ok cfg =
     sm_v8_create K E calloc_ok False (call_v8_allowed K cfg)
       (Some (\<lambda>status mods cf proto c. call_v8_result (vk_mod_v34 K) (status, mods) c))"

text \<open>The menu sent offers V.34 exactly when it is configured.\<close>

lemma menu_offers_v34:
  assumes "vk_mod_v34 K \<noteq> 0" and "V8_MOD_V22 AND vk_mod_v34 K = 0"
  shows "(call_v8_allowed K cfg AND vk_mod_v34 K \<noteq> 0) = cc_use_v34 cfg"
proof -
  have "(V8_MOD_V22 OR vk_mod_v34 K) AND vk_mod_v34 K = vk_mod_v34 K"
    by (rule bit_eqI) (auto simp: bit_simps)
  with assms show ?thesis by (simp add: call_v8_allowed_def)
qed

text \<open>The call decides for V.34 on a report made while receiving only if it is configured.\<close>

lemma result_v34_configured:
  "cl_v8_ok (call_v8_result m (st, mods) c) = 2 \<Longrightarrow> cl_v8_ok c \<noteq> 2 \<Longrightarrow> cc_use_v34 (cl_cfg c)"
  by (auto simp: call_v8_result_def split: if_splits)

lemma result_keeps_cfg: "cl_cfg (call_v8_result m r c) = cl_cfg c"
  by (cases r) (simp add: call_v8_result_def)

lemma reports_v34_configured:
  "v8_handler_fn v = Some (\<lambda>status mods cf proto c. call_v8_result m (status, mods) c)
     \<Longrightarrow> cl_v8_ok (fold (v8_result_bridge v) rs c) = 2 \<Longrightarrow> cl_v8_ok c \<noteq> 2 \<Longrightarrow> cc_use_v34 (cl_cfg c)"
proof (induction rs arbitrary: c)
  case (Cons r rs)
  let ?c = "v8_result_bridge v r c"
  have c: "?c = call_v8_result m (vr_status r, vr_modulations r) c"
    by (simp add: v8_result_bridge_def Cons.prems(1))
  show ?case
  proof (cases "cl_v8_ok ?c = 2")
    case True
    with c Cons.prems(3) show ?thesis by (auto dest: result_v34_configured)
  next
    case False
    from Cons.prems(2) have "cl_v8_ok (fold (v8_result_bridge v) rs ?c) = 2" by simp
    from Cons.IH [OF Cons.prems(1) this False] show ?thesis by (simp add: c result_keeps_cfg)
  qed
qed simp

lemma v34_only_if_configured:
  assumes "call_v8_create K E True (cl_cfg c) = Some v" and "cl_v8_ok c \<noteq> 2"
    and "cl_v8_ok (snd (snd (sm_v8_rx E v amp c))) = 2"
  shows "cc_use_v34 (cl_cfg c)"
proof (rule reports_v34_configured)
  show "v8_handler_fn v = Some (\<lambda>status mods cf proto c. call_v8_result (vk_mod_v34 K) (status, mods) c)"
    using assms(1) by (auto simp: call_v8_create_def sm_v8_create_def split: option.splits)
  show "cl_v8_ok (fold (v8_result_bridge v) (snd (snd (ve_rx E (v8_engine_state v) amp))) c) = 2"
    using assms(3) by (simp add: sm_v8_rx_def split_beta)
qed (rule assms)

end
