(* ===== verification/Voice.thy ===== *)
theory Voice
  imports Call Sip_Server
begin

text \<open>
  The voice path, across the two programs: the RTP packets of the caller, the playout queue and the
  clock of the SIP server (\<open>Rtp_Bridge\<close>), the AudioSocket connection to the daemon (\<open>Ast_Socket\<close>), and
  the samples the call hands to its modem (\<open>Call\<close>); and back.
\<close>

subsection \<open>The bridge\<close>

text \<open>What happens to the bridge during a call: a packet arrives from the caller, or the 20 ms clock ticks.\<close>

datatype voice_ev = Packet u16 u32 u32 "u8 list" | Tick

fun voice_step :: "voice_ev \<Rightarrow> sm_sip \<Rightarrow> sm_sip" where
  "voice_step (Packet seq ts ssrc payload) s =
     (case process_rtp (rtp_packet seq ts ssrc payload) s of None \<Rightarrow> s | Some (_, s') \<Rightarrow> s')"
| "voice_step Tick s = audio_tick s"

fun voice_ok :: "voice_ev \<Rightarrow> bool" where
  "voice_ok (Packet seq ts ssrc payload) = (payload \<noteq> [] \<and> length payload \<le> 1024)"
| "voice_ok Tick = True"

text \<open>What the caller's voice should become: a queue of at most 31 frames that drops the oldest one, played
  a frame each tick, with silence as long as the latest frame when nothing is waiting.\<close>

fun playout :: "voice_ev list \<Rightarrow> int list list \<Rightarrow> nat \<Rightarrow> int list list" where
  "playout [] q n = []"
| "playout (Packet seq ts ssrc payload # evs) q n =
     playout evs ((if length q = 31 then tl q else q) @ [map sm_ulaw_decode payload]) (length payload)"
| "playout (Tick # evs) [] n = replicate n 0 # playout evs [] n"
| "playout (Tick # evs) (f # q) n = f # playout evs q n"

fun daemon_bytes :: "sip_out list \<Rightarrow> u8 list" where
  "daemon_bytes [] = []"
| "daemon_bytes (DaemonTx bs # os) = bs @ daemon_bytes os"
| "daemon_bytes (_ # os) = daemon_bytes os"

lemma daemon_bytes_append [simp]: "daemon_bytes (a @ b) = daemon_bytes a @ daemon_bytes b"
  by (induction a rule: daemon_bytes.induct) simp_all

definition audio_frame :: "int list \<Rightarrow> u8 \<times> u8 list" where
  "audio_frame f = (SM_AS_KIND_AUDIO, samples_bytes (map word_of_int f))"

definition good_frame :: "int list \<Rightarrow> bool" where
  "good_frame f \<longleftrightarrow> length f \<le> 1024 \<and> (\<forall>x \<in> set f. - 32768 \<le> x \<and> x < 32768)"

text \<open>The bridge's state stands for the queue \<open>q\<close> and the length \<open>n\<close> of its silence.\<close>

definition bridges :: "sm_sip \<Rightarrow> int list list \<Rightarrow> nat \<Rightarrow> bool" where
  "bridges s q n \<longleftrightarrow> rxq_inv s \<and> rxq_frames s = map (map word_of_int) q \<and> sp_tick_ns s = n \<and> n \<le> 1024
     \<and> (\<forall>f \<in> set q. good_frame f)"

subsection \<open>What a step does\<close>

lemma set_tlD: "x \<in> set (tl xs) \<Longrightarrow> x \<in> set xs"
  by (cases xs) simp_all

lemma decode_range: "- 32768 \<le> sm_ulaw_decode u \<and> sm_ulaw_decode u < 32768"
proof -
  obtain neg e m where u: "u = ulaw_byte neg e m" "e < 8" "0 \<le> m" "m < 16" by (rule ulaw_byte_cases)
  have "(8 * m + 132) * 2 ^ e \<le> 252 * 128"
    by (rule mult_mono) (use u ulaw_pow_bounds [of e] in simp_all)
  moreover have "0 \<le> (8 * m + 132) * 2 ^ e" using u by simp
  ultimately show ?thesis using u(2,3,4) unfolding u(1) ulaw_decode_byte [OF u(2,3,4)] ulaw_sample_def
    by (cases neg) (simp_all only: if_True if_False, linarith+)
qed

lemma good_frame_decode: "length payload \<le> 1024 \<Longrightarrow> good_frame (map sm_ulaw_decode payload)"
  by (auto simp: good_frame_def decode_range)

lemma replies_keep:
  "daemon_bytes (en_out (snd (daemon_replies s))) = daemon_bytes (en_out s)
     \<and> sp_tick_ns (snd (daemon_replies s)) = sp_tick_ns s"
proof (induction s rule: daemon_replies.induct)
  case (1 s)
  have bye: "daemon_bytes (en_out (bye_and_end s')) = daemon_bytes (en_out s') \<and> sp_tick_ns (bye_and_end s') = sp_tick_ns s'" for s'
    by (simp add: bye_and_end_def send_bye_def end_call_def make_tag_def call_rand_def call_time_def emit_def Let_def)
  have fwd: "daemon_bytes (en_out (forward_audio m s')) = daemon_bytes (en_out s') \<and> sp_tick_ns (forward_audio m s') = sp_tick_ns s'" for m s'
    by (simp add: forward_audio_def emit_def Let_def)
  obtain r msg a es where rd: "sm_ast_read (sp_daemon_as s) SM_AS_MAX_PAYLOAD (en_recv s) = (r, msg, a, es)"
    by (metis prod_cases4)
  show ?case
    unfolding daemon_replies.simps [of s] rd
    using "1.IH" [OF rd [symmetric] refl refl refl refl] by (simp add: Let_def bye fwd split: option.split)
qed

text \<open>A call that is still active after a frame was fed sent that whole frame and nothing else to the daemon.\<close>

lemma feed_daemon_active:
  assumes "sp_call_active (snd (feed_daemon pcm s))"
  shows "sp_call_active s \<and> daemon_bytes (en_out (snd (feed_daemon pcm s))) = daemon_bytes (en_out s) @ ast_frame (SM_AS_KIND_AUDIO, samples_bytes pcm)
     \<and> sp_tick_ns (snd (feed_daemon pcm s)) = sp_tick_ns s
     \<and> rxq_frames (snd (feed_daemon pcm s)) = rxq_frames s \<and> rxq_inv (snd (feed_daemon pcm s)) = rxq_inv s"
proof -
  have same: "same_call s (snd (feed_daemon pcm s))" "fst (feed_daemon pcm s) = 0"
    using feed_daemon_fed [of s pcm] assms by (auto simp: fed_def call_ended_def)
  obtain r sent es where w: "sm_ast_write_audio pcm (en_send s) = (r, sent, es)" by (metis prod_cases3)
  have r: "\<not> r < 0" using same(2) w by (auto simp: feed_daemon_def Let_def)
  from w have "sm_ast_write SM_AS_KIND_AUDIO (samples_bytes pcm) (en_send s) = (r, sent, es)"
    by (simp add: sm_ast_write_audio_def)
  from sm_ast_write_result [OF this] r have "sent = ast_frame (SM_AS_KIND_AUDIO, samples_bytes pcm)" by auto
  with r w replies_keep [of "emit (DaemonTx sent) (s\<lparr>en_send := es\<rparr>)"] same(1) assms show ?thesis
    by (simp add: feed_daemon_def emit_def same_call_def)
qed

lemma tick_feeds:
  assumes "rxq_inv s"
  obtains s' where
    "audio_tick s = snd (feed_daemon (case rxq_frames s of f # _ \<Rightarrow> f | [] \<Rightarrow> replicate (sp_tick_ns s) 0) s')"
    "rxq_frames s' = tl (rxq_frames s)" "rxq_inv s'" "sp_call_active s' = sp_call_active s" "en_out s' = en_out s"
    "sp_tick_ns s' = sp_tick_ns s"
proof (cases "rxq_len s = 0")
  case True
  then have "rxq_frames s = []" by (simp add: rxq_frames_def)
  with True rxq_empty_iff [OF assms] assms show ?thesis
    by (intro that [of "s\<lparr>sp_rx_underruns := sp_rx_underruns s + 1\<rparr>"])
      (simp_all add: audio_tick_def rxq_frames_def rxq_len_def rxq_inv_def)
next
  case False
  then have l: "0 < rxq_len s" by simp
  then have ne: "rxq_frames s \<noteq> []" using length_rxq_frames [of s] by (metis less_nat_zero_code list.size(3))
  then have c: "(case rxq_frames s of f # _ \<Rightarrow> f | [] \<Rightarrow> replicate (sp_tick_ns s) 0) = hd (rxq_frames s)"
    by (simp split: list.split)
  from ne False rxq_frames_tl [OF assms l] rxq_empty_iff [OF assms] assms show ?thesis
    by (intro that [of "s\<lparr>sp_rxq_tail := (sp_rxq_tail s + 1) mod 32\<rparr>"])
      (simp_all add: c, simp_all add: audio_tick_def SM_SIP_RXQ_def frame_data_def Let_def rxq_inv_def)
qed

lemma tick_active:
  assumes "bridges s q n" and "sp_call_active (audio_tick s)"
  shows "sp_call_active s
     \<and> daemon_bytes (en_out (audio_tick s))
         = daemon_bytes (en_out s) @ ast_frame (audio_frame (case q of [] \<Rightarrow> replicate n 0 | f # _ \<Rightarrow> f))
     \<and> bridges (audio_tick s) (tl q) n"
proof -
  have inv: "rxq_inv s" "rxq_frames s = map (map word_of_int) q" "sp_tick_ns s = n" "n \<le> 1024" "\<forall>f \<in> set q. good_frame f"
    using assms(1) by (simp_all add: bridges_def)
  define pcm :: "u16 list" where "pcm = map word_of_int (case q of [] \<Rightarrow> replicate n 0 | f # _ \<Rightarrow> f)"
  obtain s' where t: "audio_tick s = snd (feed_daemon pcm s')"
    "rxq_frames s' = tl (rxq_frames s)" "rxq_inv s'" "sp_call_active s' = sp_call_active s" "en_out s' = en_out s"
    "sp_tick_ns s' = sp_tick_ns s"
    by (rule tick_feeds [OF inv(1)]) (use inv in \<open>auto simp: pcm_def split: list.splits\<close>)
  from feed_daemon_active [of pcm s'] assms(2) t inv show ?thesis
    by (auto simp: bridges_def audio_frame_def pcm_def map_tl dest: set_tlD)
qed

lemma packet_step:
  assumes "bridges s q n" and "voice_ok (Packet seq ts ssrc payload)"
  shows "sp_call_active (voice_step (Packet seq ts ssrc payload) s) = sp_call_active s
     \<and> daemon_bytes (en_out (voice_step (Packet seq ts ssrc payload) s)) = daemon_bytes (en_out s)
     \<and> bridges (voice_step (Packet seq ts ssrc payload) s)
         ((if length q = 31 then tl q else q) @ [map sm_ulaw_decode payload]) (length payload)"
proof -
  let ?s0 = "if sp_cap_rx s then emit (CaptureRx payload) s else s"
  let ?pcm = "map (\<lambda>u. word_of_int (sm_ulaw_decode u)) payload :: u16 list"
  let ?s' = "enqueue_rx ?pcm (int (length payload)) ?s0"
  have s': "voice_step (Packet seq ts ssrc payload) s = ?s'"
    using assms(2) by (simp add: rtp_packet_received)
  have "rxq_inv ?s0" "rxq_frames ?s0 = rxq_frames s"
    using assms(1) by (simp_all add: bridges_def emit_def rxq_inv_def rxq_frames_def rxq_len_def)
  from enqueue_rx_frames [OF this(1), of "length payload" ?pcm] assms(2) this(2)
  have q: "rxq_frames ?s' = frames_enqueue (rxq_frames s) ?pcm" "rxq_inv ?s'"
    by (simp_all add: min_def)
  have e: "sp_call_active ?s' = sp_call_active s \<and> daemon_bytes (en_out ?s') = daemon_bytes (en_out s)
      \<and> sp_tick_ns ?s' = length payload"
    using assms(2) by (simp add: enqueue_rx_def SM_SIP_RTP_MAXPAY_def Let_def emit_def)
  have "\<forall>f \<in> set ((if length q = 31 then tl q else q) @ [map sm_ulaw_decode payload]). good_frame f"
    using assms by (auto simp: bridges_def good_frame_decode dest: set_tlD split: if_splits)
  moreover have "length (rxq_frames s) = length q" using assms(1) by (simp add: bridges_def del: length_rxq_frames)
  ultimately show ?thesis
    using q e assms unfolding s' by (simp add: bridges_def frames_enqueue_def map_tl del: length_rxq_frames)
qed

text \<open>No step starts a call, so one that is active in the end was active all along.\<close>

lemma enqueue_active [simp]: "sp_call_active (enqueue_rx pcm n s) = sp_call_active s"
  by (simp add: enqueue_rx_def Let_def)

lemma rtp_payload_active: "rtp_payload pkt h p pt s = Some (r, s') \<Longrightarrow> sp_call_active s' = sp_call_active s"
  by (auto simp: rtp_payload_def rtp_samples_def get_byte_def emit_def Let_def split: if_splits)

lemma process_rtp_active: "process_rtp pkt s = Some (r, s') \<Longrightarrow> sp_call_active s' = sp_call_active s"
  by (auto simp: process_rtp_def get_byte_def Let_def split: if_splits dest: rtp_payload_active)

lemma tick_was_active: "sp_call_active (audio_tick s) \<Longrightarrow> sp_call_active s"
  by (auto simp: audio_tick_def Let_def split: if_splits dest!: feed_daemon_active)

lemma active_start: "sp_call_active (fold voice_step evs s) \<Longrightarrow> sp_call_active s"
proof (induction evs arbitrary: s)
  case (Cons e evs)
  then have "sp_call_active (voice_step e s)" by simp
  then show ?case
    by (cases e) (auto simp: process_rtp_active split: option.splits dest: tick_was_active)
qed simp

lemma bridge_plays: "bridges s q n \<Longrightarrow> list_all voice_ok evs \<Longrightarrow> sp_call_active (fold voice_step evs s) \<Longrightarrow>
  daemon_bytes (en_out (fold voice_step evs s))
    = daemon_bytes (en_out s) @ concat (map (ast_frame \<circ> audio_frame) (playout evs q n))
  \<and> list_all good_frame (playout evs q n) \<and> sp_call_active s"
proof (induction evs q n arbitrary: s rule: playout.induct)
  case (2 seq ts ssrc payload evs q n)
  from packet_step [OF "2.prems"(1), of seq ts ssrc payload] "2.prems"(2)
  have p: "sp_call_active (voice_step (Packet seq ts ssrc payload) s) = sp_call_active s"
    "daemon_bytes (en_out (voice_step (Packet seq ts ssrc payload) s)) = daemon_bytes (en_out s)"
    "bridges (voice_step (Packet seq ts ssrc payload) s)
         ((if length q = 31 then tl q else q) @ [map sm_ulaw_decode payload]) (length payload)" by simp_all
  from "2.IH" [OF p(3)] "2.prems"(2,3) p(1,2) show ?case by simp
next
  case (3 evs n)
  have a: "sp_call_active (fold voice_step evs (audio_tick s))" using "3.prems"(3) by simp
  have ok: "list_all voice_ok evs" using "3.prems"(2) by simp
  have at: "sp_call_active (audio_tick s)"
    by (rule active_start [OF a])
  from tick_active [OF "3.prems"(1) at] have t: "sp_call_active s"
    "daemon_bytes (en_out (audio_tick s)) = daemon_bytes (en_out s) @ ast_frame (audio_frame (replicate n 0))"
    "bridges (audio_tick s) [] n" by simp_all
  have "good_frame (replicate n 0)" using "3.prems"(1) by (simp add: bridges_def good_frame_def)
  with "3.IH" [OF t(3) ok a] t(1,2) show ?case by simp
next
  case (4 evs f q n)
  have a: "sp_call_active (fold voice_step evs (audio_tick s))" using "4.prems"(3) by simp
  have ok: "list_all voice_ok evs" using "4.prems"(2) by simp
  have at: "sp_call_active (audio_tick s)"
    by (rule active_start [OF a])
  from tick_active [OF "4.prems"(1) at] have t: "sp_call_active s"
    "daemon_bytes (en_out (audio_tick s)) = daemon_bytes (en_out s) @ ast_frame (audio_frame f)"
    "bridges (audio_tick s) q n" by simp_all
  have "good_frame f" using "4.prems"(1) by (simp add: bridges_def)
  with "4.IH" [OF t(3) ok a] t(1,2) show ?case by simp
qed simp

subsection \<open>The call\<close>

lemma sint_sample: "- 32768 \<le> x \<Longrightarrow> x < 32768 \<Longrightarrow> sint (word_of_int x :: u16) = x"
  by (simp add: sint_sbintrunc' signed_take_bit_int_eq_self)

text \<open>What the call makes of a frame as \<open>audio_msg\<close> reads it.\<close>

definition heard :: "ast_msg \<Rightarrow> u8 \<times> int list" where
  "heard m = (msg_kind m, take (audio_len (msg_plen m)) (pcm_of (msg_bytes m)))"

lemma heard_frame:
  assumes "good_frame f"
  shows "heard (msg_of 4096 (audio_frame f)) = (SM_AS_KIND_AUDIO, f)"
proof -
  have l: "length f \<le> 1024" "audio_len (2 * length f) = length f"
    using assms by (simp_all add: good_frame_def audio_len_def TXBUF_SIZE_def SM_AS_MAX_PAYLOAD_def)
  have "map (\<lambda>x. sint (word_of_int x :: u16)) f = map (\<lambda>x. x) f"
    by (rule map_cong) (use assms in \<open>auto simp: good_frame_def sint_sample\<close>)
  with l show ?thesis
    by (simp add: heard_def msg_of_def audio_frame_def pcm_of_def bytes_samples_inverse o_def)
qed

text \<open>C5: the caller's voice reaches the modem: for any frames waiting and any packets and ticks that leave the call active, however
  the stream to the daemon is cut into pieces, the call gets the decoded samples of the packets that the
  playout queue keeps, in order, a frame each tick and silence when there is none, and what it has not been
  given yet is still in its reader or on the socket.\<close>

theorem voice_path:
  assumes "bridges s q n" and "daemon_bytes (en_out s) = []" and "list_all voice_ok evs"
    and "sp_call_active (fold voice_step evs s)"
    and "data_of es = daemon_bytes (en_out (fold voice_step evs s))"
    and "read_times (\<lambda>a es. sm_ast_read a 4096 es) k (sm_ast_init fd) es = (ms, a, es')"
  shows "\<exists>now later. playout evs q n = now @ later \<and> map heard ms = map (Pair SM_AS_KIND_AUDIO) now
     \<and> (\<exists>held. holds a held \<and> held @ data_of es' = concat (map (ast_frame \<circ> audio_frame) later))"
proof -
  let ?fs = "map audio_frame (playout evs q n)"
  from bridge_plays [OF assms(1,3,4)] assms(2,5) have fs: "data_of es = concat (map ast_frame ?fs)"
    "list_all good_frame (playout evs q n)" by simp_all
  have small: "\<forall>f \<in> set ?fs. length (snd f) \<le> 65535"
    using fs(2) by (auto simp: list_all_iff good_frame_def audio_frame_def)
  from ast.read_times_frames [OF holds_init assms(6)] obtain gs held where
    g: "data_of es = concat (map ast_frame gs) @ held @ data_of es'" "holds a held"
      "ms = map (msg_of 4096) gs" "\<forall>g \<in> set gs. length (snd g) \<le> 65535" by auto
  from frames_are_prefix [of gs "held @ data_of es'" ?fs] g fs(1) small obtain hs where
    h: "?fs = gs @ hs" "held @ data_of es' = concat (map ast_frame hs)" by auto
  define now where "now = take (length gs) (playout evs q n)"
  define later where "later = drop (length gs) (playout evs q n)"
  have nl: "playout evs q n = now @ later" "gs = map audio_frame now" "hs = map audio_frame later"
    using arg_cong [OF h(1), of "take (length gs)"] arg_cong [OF h(1), of "drop (length gs)"]
    by (simp_all add: now_def later_def take_map drop_map)
  have "list_all good_frame now" using fs(2) nl(1) by simp
  then have "map heard ms = map (Pair SM_AS_KIND_AUDIO) now"
    unfolding g(3) nl(2) by (induction now) (simp_all add: heard_frame)
  with nl h(2) g(2) show ?thesis by auto
qed

definition voice_start :: sm_sip where
  "voice_start = idle_sip\<lparr>sp_call_active := True, sp_rtp_peer_known := True, sp_daemon_fd := 7,
     en_send := [SendOk 3, SendAgain, SendOk 2, SendOk 2, SendOk 3, SendOk 4]\<rparr>"

text \<open>A daemon that says nothing and takes what it is sent.\<close>

lemma quiet_replies:
  assumes "sp_daemon_as s = sm_ast_init fd" and "en_recv s = []"
  shows "daemon_replies s = (0, s)"
  using assms by (subst daemon_replies.simps)
    (simp add: sm_ast_read_def ast_read_header_def read_header.simps sm_ast_init_def)

lemma quiet_feed:
  assumes "sp_daemon_as s = sm_ast_init fd" and "en_recv s = []" and "sm_ast_write_audio pcm (en_send s) = (0, bs, es)"
  shows "feed_daemon pcm s = (0, emit (DaemonTx bs) (s\<lparr>en_send := es\<rparr>))"
  using assms by (simp add: feed_daemon_def quiet_replies emit_def)

lemma first_packet:
  "voice_step (Packet 1 0 9 [0xFF, 0]) voice_start = voice_start\<lparr>sp_tick_ns := 2, sp_rxq_head := 1,
     sp_rxq := (\<lambda>_. \<lparr>fr_pcm = (\<lambda>_. 0), fr_nsamples = 0\<rparr>)(0 := \<lparr>fr_pcm = mem_write (\<lambda>_. 0) 0 [0, 0x8284], fr_nsamples = 2\<rparr>)\<rparr>"
proof -
  have "(word_of_int (sm_ulaw_decode 0xFF) :: u16) = 0" "(word_of_int (sm_ulaw_decode 0) :: u16) = 0x8284"
    by code_simp+
  then show ?thesis
    by (simp add: process_rtp_def get_byte_def rtp_packet_def rtp_payload_def rtp_samples_def SM_SIP_RTP_MAXPAY_def
        Let_def drop_bit_eq_div enqueue_rx_def SM_SIP_RXQ_def voice_start_def idle_sip_def)
qed

lemma header_4: "ast_header SM_AS_KIND_AUDIO (Suc (Suc (Suc (Suc 0)))) = [0x10, 0, 4]"
proof -
  have "ast_header SM_AS_KIND_AUDIO 4 = [0x10, 0, 4]" by code_simp
  then show ?thesis by (simp add: eval_nat_numeral)
qed

lemma first_frames:
  "sm_ast_write_audio [0, 0x8284] [SendOk 3, SendAgain, SendOk 2, SendOk 2, SendOk 3, SendOk 4]
     = (0, [0x10, 0, 4, 0, 0, 0x84, 0x82], [SendOk 3, SendOk 4])"
  "sm_ast_write_audio [0, 0] [SendOk 3, SendOk 4] = (0, [0x10, 0, 4, 0, 0, 0, 0], [])"
  by (simp_all add: sm_ast_write_audio_def sm_ast_write_def samples_bytes_def header_4)

lemma first_ticks:
  "fold voice_step [Packet 1 0 9 [0xFF, 0], Tick, Tick] voice_start
     = (voice_step (Packet 1 0 9 [0xFF, 0]) voice_start)\<lparr>sp_rxq_tail := 1, sp_rx_underruns := 1, en_send := [],
         en_out := [DaemonTx [0x10, 0, 4, 0, 0, 0x84, 0x82], DaemonTx [0x10, 0, 4, 0, 0, 0, 0]]\<rparr>"
proof -
  have two: "replicate 2 (0 :: u16) = [0, 0]" by (simp add: numeral_2_eq_2)
  have m: "mem_read (mem_write (\<lambda>_. 0) 0 [0, 0x8284 :: u16]) 0 2 = [0, 0x8284]"
    using mem_read_write_append [of "\<lambda>_. 0" 0 "[0, 0x8284 :: u16]"] by (simp add: numeral_2_eq_2)
  show ?thesis
    unfolding fold.simps id_apply comp_def first_packet voice_step.simps(2)
    by (simp add: audio_tick_def quiet_feed first_frames voice_start_def idle_sip_def SM_SIP_RXQ_def Let_def emit_def m two)
qed

theorem voice_path_witness:
  "\<exists>ms a es'. read_times (\<lambda>a es. sm_ast_read a 4096 es) 4 (sm_ast_init 5)
        [RecvData 0x10 [0], PollTimeout, RecvData 4 [0, 0, 0x84, 0x82, 0x10, 0], RecvData 4 [0, 0, 0, 0]] = (ms, a, es')
     \<and> (\<exists>now later. [[0, - 32124], [0, 0]] = now @ later \<and> map heard ms = map (Pair SM_AS_KIND_AUDIO) now)"
proof -
  let ?evs = "[Packet 1 0 9 [0xFF, 0], Tick, Tick]"
  let ?es = "[RecvData 0x10 [0], PollTimeout, RecvData 4 [0, 0, 0x84, 0x82, 0x10, 0], RecvData 4 [0, 0, 0, 0]]"
  have b: "bridges voice_start [] 0"
    by (simp add: bridges_def voice_start_def idle_sip_def rxq_inv_def rxq_frames_def rxq_len_def)
  have o: "daemon_bytes (en_out voice_start) = []" by (simp add: voice_start_def idle_sip_def)
  have act: "sp_call_active (fold voice_step ?evs voice_start)"
    unfolding first_ticks first_packet by (simp add: voice_start_def)
  have d: "data_of ?es = daemon_bytes (en_out (fold voice_step ?evs voice_start))"
    unfolding first_ticks by simp
  have p: "playout ?evs [] 0 = [[0, - 32124], [0, 0]]" by code_simp
  obtain ms a es' where r: "read_times (\<lambda>a es. sm_ast_read a 4096 es) 4 (sm_ast_init 5) ?es = (ms, a, es')"
    by (metis prod_cases3)
  have "list_all voice_ok ?evs" by simp
  from voice_path [OF b o this act d r] r show ?thesis unfolding p by blast
qed

subsection \<open>The way back\<close>

text \<open>The call's reply of \<open>xs\<close>, read by the bridge, is one packet, and the caller's end decodes it.\<close>

lemma reply_packet:
  assumes "length xs \<le> 1024"
  shows "en_out (forward_audio (msg_of 4096 (SM_AS_KIND_AUDIO, samples_bytes xs)) (s\<lparr>sp_cap_tx := False\<rparr>))
    = en_out s @ [RtpTx (sp_rtp_peer s) (rtp_packet (sp_rtp_seq s) (sp_rtp_ts s) (sp_local_ssrc s)
        (map (\<lambda>x. sm_ulaw_encode (sint x)) xs))]"
  using assms by (simp add: forward_audio_def msg_of_def emit_def Let_def bytes_samples_inverse SM_SIP_RTP_MAXPAY_def)

end
