(* ===== verification/Sm_Log.thy ===== *)
theory Sm_Log
  imports C_String
begin

text \<open>
  Log lines, \<open>src/src/logging/sm_log.c\<close>: levels, the log of a call, and the line a message gives, if its
  level lets it through. The message is what \<open>printf\<close> makes of its format; the time is an argument.
\<close>

datatype sm_log_level = SM_LOG_NONE | SM_LOG_ERROR | SM_LOG_WARNING | SM_LOG_INFO | SM_LOG_DEBUG | SM_LOG_TRACE | SM_LOG_FLOW

fun level_int :: "sm_log_level \<Rightarrow> int" where
  "level_int SM_LOG_NONE = 0"
| "level_int SM_LOG_ERROR = 1"
| "level_int SM_LOG_WARNING = 2"
| "level_int SM_LOG_INFO = 3"
| "level_int SM_LOG_DEBUG = 4"
| "level_int SM_LOG_TRACE = 5"
| "level_int SM_LOG_FLOW = 6"

fun level_name :: "sm_log_level \<Rightarrow> string" where
  "level_name SM_LOG_ERROR = ''ERROR''"
| "level_name SM_LOG_WARNING = ''WARN''"
| "level_name SM_LOG_INFO = ''INFO''"
| "level_name SM_LOG_DEBUG = ''DEBUG''"
| "level_name SM_LOG_TRACE = ''TRACE''"
| "level_name SM_LOG_FLOW = ''FLOW''"
| "level_name SM_LOG_NONE = ''?????''"

record sm_log =
  lg_level :: sm_log_level
  lg_call_id :: int
  lg_protocol :: "string option"
  lg_file :: "string option"

definition sm_log_init :: "sm_log_level \<Rightarrow> string option \<Rightarrow> int \<Rightarrow> sm_log" where
  "sm_log_init level protocol call_id = \<lparr>lg_level = level, lg_call_id = call_id, lg_protocol = protocol, lg_file = None\<rparr>"

definition sm_log_set_level :: "sm_log_level \<Rightarrow> sm_log \<Rightarrow> sm_log" where
  "sm_log_set_level level l = l\<lparr>lg_level := level\<rparr>"

definition sm_log_get_level :: "sm_log \<Rightarrow> sm_log_level" where
  "sm_log_get_level l = lg_level l"

definition sm_log_set_call_id :: "int \<Rightarrow> sm_log \<Rightarrow> sm_log" where
  "sm_log_set_call_id call_id l = l\<lparr>lg_call_id := call_id\<rparr>"

text \<open>\<open>%0nd\<close> of a number that is not negative.\<close>

definition zero_pad :: "nat \<Rightarrow> nat \<Rightarrow> string" where
  "zero_pad w n = replicate (w - length (dec_nat n)) (CHR ''0'') @ dec_nat n"

record log_time =
  tm_year :: nat
  tm_mon :: nat
  tm_mday :: nat
  tm_hour :: nat
  tm_min :: nat
  tm_sec :: nat
  ts_nsec :: nat

definition log_stamp :: "log_time \<Rightarrow> string" where
  "log_stamp t =
     ''['' @ zero_pad 4 (tm_year t + 1900) @ ''-'' @ zero_pad 2 (tm_mon t + 1) @ ''-'' @ zero_pad 2 (tm_mday t) @ '' ''
     @ zero_pad 2 (tm_hour t) @ '':'' @ zero_pad 2 (tm_min t) @ '':'' @ zero_pad 2 (tm_sec t) @ ''.''
     @ zero_pad 3 (ts_nsec t div 1000000) @ ''] ''"

definition sm_log_message :: "sm_log \<Rightarrow> sm_log_level \<Rightarrow> log_time \<Rightarrow> string \<Rightarrow> string" where
  "sm_log_message l level t msg =
     (if level_int level > level_int (lg_level l) then []
      else log_stamp t @ ''call='' @ dec_int (lg_call_id l) @ '' ''
           @ (case lg_protocol l of Some p \<Rightarrow> p | None \<Rightarrow> ''SYS'') @ '': '' @ msg @ [NL])"

text \<open>The three numbers come as \<open>printf\<close> writes them.\<close>

definition sm_log_transition :: "sm_log \<Rightarrow> log_time \<Rightarrow> string \<Rightarrow> string \<Rightarrow> string \<Rightarrow> string \<Rightarrow> string \<Rightarrow> string option
    \<Rightarrow> string option \<Rightarrow> string option \<Rightarrow> string" where
  "sm_log_transition l t state detector duration frequency confidence decoded action next_state =
     (let opt = (\<lambda>v. case v of Some x \<Rightarrow> x | None \<Rightarrow> ''-'')
      in sm_log_message l SM_LOG_DEBUG t
           (state @ [NL] @ ''    state='' @ state @ '' detector='' @ detector @ '' duration_ms='' @ duration
            @ '' freq_hz='' @ frequency @ '' confidence='' @ confidence @ '' decoded='' @ opt decoded
            @ '' action='' @ opt action @ '' next_state='' @ opt next_state))"

text \<open>A more verbose level only adds lines, and a shown message ends its line exactly once when it holds no
  line ends of its own.\<close>

lemma log_verbosity:
  assumes "level_int (lg_level l) \<le> level_int level" and "sm_log_message l m t msg \<noteq> []"
  shows "sm_log_message (sm_log_set_level level l) m t msg = sm_log_message l m t msg"
  using assms by (auto simp: sm_log_message_def sm_log_set_level_def split: if_splits)

lemma log_one_line:
  assumes "NL \<notin> set msg" and "\<forall>p. lg_protocol l = Some p \<longrightarrow> NL \<notin> set p"
  shows "count_list (sm_log_message l m t msg) NL = (if level_int m > level_int (lg_level l) then 0 else 1)"
proof -
  note n = NL_dec_nat [unfolded NL_def]
  have z: "NL \<notin> set (zero_pad w n)" for w n by (auto simp: zero_pad_def NL_def n)
  have d: "NL \<notin> set (dec_int i)" for i by (simp add: dec_int_def NL_def n)
  have "NL \<notin> set (log_stamp t)" using z by (simp add: log_stamp_def) (simp add: NL_def)
  then have "count_list (log_stamp t) NL = 0" by (simp add: count_list_0_iff)
  with assms d show ?thesis
    by (auto simp: sm_log_message_def count_list_0_iff NL_def split: option.split)
qed

end
