(* ===== verification/Daemon.thy ===== *)
theory Daemon
  imports Call Sip_Server Sm_Log
begin

text \<open>
  The two programs. \<open>src/src/main/sm_daemon.c\<close> parses its options, listens for AudioSocket
  connections and runs each call in a child of its own (\<open>Call\<close>); started by pppd with \<open>--shim\<close> it is
  the relay (\<open>Pppd\<close>). \<open>src/src/main/sm_sip_main.c\<close> parses its options and runs the SIP server
  (\<open>Sip_Server\<close>). The results of system calls are inputs; the usage texts and the messages on stderr
  are left out.
\<close>

subsection \<open>The daemon's options\<close>

definition DEFAULT_PORT :: int where "DEFAULT_PORT = 9092"

record daemon_opts =
  do_port :: int
  do_bind_addr :: string
  do_unix_path :: "string option"
  do_cfg :: call_config

definition daemon_defaults :: daemon_opts where
  "daemon_defaults =
     \<lparr>do_port = DEFAULT_PORT, do_bind_addr = ''0.0.0.0'', do_unix_path = None,
      do_cfg = \<lparr>cc_rate = 2400, cc_answer_tone_ms = 3300, cc_pre_tone_silence_ms = 500, cc_pppd_path = ''/usr/sbin/pppd'',
        cc_shim_exe = [], cc_local_ip = ''192.168.2.1'', cc_peer_ip = ''192.168.2.240'', cc_dns1 = Some ''192.168.2.1'',
        cc_dns2 = Some ''8.8.8.8'', cc_log_dir = Some ''/tmp/softmodem'', cc_ip_up_script = None, cc_ip_down_script = None,
        cc_bbs_db = Some ''bbs.db'', cc_auth = False, cc_enable_ppp = True, cc_echo_data = False, cc_use_v8 = False,
        cc_use_v34 = False, cc_use_binmodem = False, cc_use_v90 = False, cc_v34_baud = 0, cc_v34_rate = 0,
        cc_log_level = level_int SM_LOG_INFO\<rparr>\<rparr>"

text \<open>What reading an option gives: the options so far, or the status to exit with.\<close>

datatype 'o parsed = ParseOk 'o | ParseExit int

definition parse_port :: "string \<Rightarrow> int option" where
  "parse_port arg = (let p = atoi arg in if p \<le> 0 \<or> p > 65535 then None else Some p)"

definition with_cfg :: "(call_config \<Rightarrow> call_config) \<Rightarrow> daemon_opts \<Rightarrow> daemon_opts" where
  "with_cfg f x = x\<lparr>do_cfg := f (do_cfg x)\<rparr>"

text \<open>The options with a value: None when \<open>a\<close> is none of them.\<close>

definition set_value :: "string \<Rightarrow> string \<Rightarrow> daemon_opts \<Rightarrow> daemon_opts parsed option" where
  "set_value a v x =
     (if a = ''--listen'' then Some (ParseOk (x\<lparr>do_bind_addr := v\<rparr>))
      else if a = ''--unix'' then Some (ParseOk (x\<lparr>do_unix_path := Some v\<rparr>))
      else if a = ''--port'' then Some (case parse_port v of None \<Rightarrow> ParseExit 2 | Some p \<Rightarrow> ParseOk (x\<lparr>do_port := p\<rparr>))
      else if a = ''--rate''
      then Some (if atoi v \<noteq> 1200 \<and> atoi v \<noteq> 2400 then ParseExit 2 else ParseOk (with_cfg (cc_rate_update (\<lambda>_. atoi v)) x))
      else if a = ''--tone-ms'' then Some (ParseOk (with_cfg (cc_answer_tone_ms_update (\<lambda>_. atoi v)) x))
      else if a = ''--pre-silence-ms'' then Some (ParseOk (with_cfg (cc_pre_tone_silence_ms_update (\<lambda>_. atoi v)) x))
      else if a = ''--pppd'' then Some (ParseOk (with_cfg (cc_pppd_path_update (\<lambda>_. v)) x))
      else if a = ''--local-ip'' then Some (ParseOk (with_cfg (cc_local_ip_update (\<lambda>_. v)) x))
      else if a = ''--peer-ip'' then Some (ParseOk (with_cfg (cc_peer_ip_update (\<lambda>_. v)) x))
      else if a = ''--dns1'' then Some (ParseOk (with_cfg (cc_dns1_update (\<lambda>_. Some v)) x))
      else if a = ''--dns2'' then Some (ParseOk (with_cfg (cc_dns2_update (\<lambda>_. Some v)) x))
      else if a = ''--log-dir'' then Some (ParseOk (with_cfg (cc_log_dir_update (\<lambda>_. Some v)) x))
      else if a = ''--ip-up-script'' then Some (ParseOk (with_cfg (cc_ip_up_script_update (\<lambda>_. Some v)) x))
      else if a = ''--ip-down-script'' then Some (ParseOk (with_cfg (cc_ip_down_script_update (\<lambda>_. Some v)) x))
      else if a = ''--bbs-db'' then Some (ParseOk (with_cfg (cc_bbs_db_update (\<lambda>_. Some v)) x))
      else None)"

definition set_flag :: "string \<Rightarrow> daemon_opts \<Rightarrow> daemon_opts parsed option" where
  "set_flag a x =
     (if a = ''--auth'' then Some (ParseOk (with_cfg (cc_auth_update (\<lambda>_. True)) x))
      else if a = ''--no-ppp'' then Some (ParseOk (with_cfg (cc_enable_ppp_update (\<lambda>_. False)) x))
      else if a = ''--echo'' then Some (ParseOk (with_cfg (cc_echo_data_update (\<lambda>_. True)) x))
      else if a = ''--v8'' then Some (ParseOk (with_cfg (cc_use_v8_update (\<lambda>_. True)) x))
      else if a = ''--v34'' then Some (ParseOk (with_cfg (cc_use_v34_update (\<lambda>_. True)) x))
      else if a = ''--binmodem'' then Some (ParseOk (with_cfg (cc_use_binmodem_update (\<lambda>_. True)) x))
      else if a = ''--v90''
      then Some (ParseOk (with_cfg (cc_use_binmodem_update (\<lambda>_. True)) (with_cfg (cc_use_v90_update (\<lambda>_. True)) x)))
      else if a = ''--debug'' then Some (ParseOk (with_cfg (cc_log_level_update (\<lambda>_. level_int SM_LOG_FLOW)) x))
      else if a = ''--help'' then Some (ParseExit 0)
      else None)"

text \<open>An option with a value that is the last argument is an unknown option.\<close>

fun parse_opts :: "string list \<Rightarrow> daemon_opts \<Rightarrow> daemon_opts parsed" where
  "parse_opts [] x = ParseOk x"
| "parse_opts (a # as) x =
     (case set_flag a x of
        Some (ParseOk y) \<Rightarrow> parse_opts as y
      | Some (ParseExit r) \<Rightarrow> ParseExit r
      | None \<Rightarrow>
          (case as of
             [] \<Rightarrow> ParseExit 2
           | v # rest \<Rightarrow>
               (case set_value a v x of
                  Some (ParseOk y) \<Rightarrow> parse_opts rest y
                | Some (ParseExit r) \<Rightarrow> ParseExit r
                | None \<Rightarrow> ParseExit 2)))"

subsection \<open>The daemon's loop\<close>

text \<open>One round: whether \<open>g_run\<close> is still set, what happens to \<open>accept\<close>, and what \<open>fork\<close> returns to
  the parent.\<close>

record accept_round =
  ar_run :: bool
  ar_accept :: "accept_ev list"
  ar_fork :: int

text \<open>What the daemon has done: the calls its children were started for, with their number and their
  descriptor, and the descriptors it has closed.\<close>

record daemon_log =
  dl_calls :: "(int \<times> int) list"
  dl_closed :: "int list"

text \<open>The parent's loop with \<open>call_seq\<close>; True when it has been left, False while \<open>accept\<close> waits or
  the rounds given are used up.\<close>

fun accept_loop :: "accept_round list \<Rightarrow> int \<Rightarrow> daemon_log \<Rightarrow> bool \<times> daemon_log" where
  "accept_loop [] seq d = (False, d)"
| "accept_loop (e # es) seq d =
     (if \<not> ar_run e then (True, d)
      else case sm_ast_accept (ar_accept e) of
        None \<Rightarrow> (False, d)
      | Some (fd, _) \<Rightarrow>
          if fd = -2 then accept_loop es seq d
          else if fd < 0 then (True, d)
          else if ar_fork e < 0 then accept_loop es seq (d\<lparr>dl_closed := dl_closed d @ [fd]\<rparr>)
          else accept_loop es (seq + 1) (d\<lparr>dl_calls := dl_calls d @ [(seq, fd)], dl_closed := dl_closed d @ [fd]\<rparr>))"

text \<open>The child: its exit status, None while its call goes on.\<close>

definition call_child :: "('f, 'd) call_fp \<Rightarrow> 'q sql_api \<Rightarrow> bool \<Rightarrow> init_env \<Rightarrow> bool \<Rightarrow> round_env list \<Rightarrow> io_ev list \<Rightarrow> call_config
    \<Rightarrow> int \<Rightarrow> int \<Rightarrow> int option" where
  "call_child F q calloc_ok i alive evs es cfg seq fd =
     (if \<not> calloc_ok then Some 1
      else (case sm_call_run F q alive evs es fd (sm_call_init F i cfg seq) of
              (None, _) \<Rightarrow> None
            | (Some rc, _) \<Rightarrow> Some (if rc = 0 then 0 else 1)))"

record daemon_env =
  de_exe :: "string option"
  de_open :: open_env

datatype daemon_end =
    Relay int
  | Exited int
  | Serving daemon_opts int daemon_log

text \<open>\<open>main\<close>: the relay on its descriptor, an exit status, or the loop with its options and its listening
  descriptor. \<open>readlink\<close> fills at most 511 of the 512 bytes.\<close>

definition daemon_main :: "string list \<Rightarrow> daemon_env \<Rightarrow> accept_round list \<Rightarrow> daemon_end" where
  "daemon_main args e es =
     (if length args \<ge> 2 \<and> args ! 0 = ''--shim'' then Relay (atoi (args ! 1))
      else case parse_opts args daemon_defaults of
        ParseExit r \<Rightarrow> Exited r
      | ParseOk x \<Rightarrow>
          (case de_exe e of
             None \<Rightarrow> Exited 1
           | Some exe \<Rightarrow>
               (let y = with_cfg (cc_shim_exe_update (\<lambda>_. snprintf 512 exe)) x;
                    fd = fst (if do_unix_path y \<noteq> None then sm_ast_listen_unix (de_open e)
                              else sm_ast_listen (Some (do_bind_addr y)) (de_open e))
                in if fd < 0 then Exited 1
                   else (let (left, d) = accept_loop es 0 \<lparr>dl_calls = [], dl_closed = []\<rparr>
                         in Serving y fd (if left then d\<lparr>dl_closed := dl_closed d @ [fd]\<rparr> else d)))))"


subsection \<open>The SIP program\<close>

text \<open>\<open>strrchr\<close>: what is before the last occurrence and what is after it.\<close>

definition split_last :: "char \<Rightarrow> string \<Rightarrow> (string \<times> string) option" where
  "split_last c s =
     (if c \<in> set s then Some (rev (tl (dropWhile (\<lambda>x. x \<noteq> c) (rev s))), rev (takeWhile (\<lambda>x. x \<noteq> c) (rev s))) else None)"

definition sip_defaults :: sip_config where
  "sip_defaults = \<lparr>cf_bind_port = 5060, cf_bind_addr = ''0.0.0.0'', cf_advertise_ip = ''127.0.0.1'',
     cf_daemon_host = ''127.0.0.1'', cf_daemon_port = 9092, cf_uuid = [], cf_capture_dir = None\<rparr>"

text \<open>\<open>HOST\<close> or \<open>HOST:PORT\<close> into an array of 64 bytes and a port, which stays as it was without a colon.\<close>

definition host_port :: "string \<Rightarrow> int \<Rightarrow> string \<times> int" where
  "host_port v port =
     (case split_last (CHR '':'') v of
        Some (h, p) \<Rightarrow> (take 63 h, atoi p)
      | None \<Rightarrow> (snprintf 64 v, port))"

definition sip_value :: "string \<Rightarrow> string \<Rightarrow> sip_config \<Rightarrow> sip_config option" where
  "sip_value a v c =
     (if a = ''--bind''
      then Some (case host_port v (cf_bind_port c) of (h, p) \<Rightarrow> c\<lparr>cf_bind_addr := h, cf_bind_port := p\<rparr>)
      else if a = ''--advertise'' then Some (c\<lparr>cf_advertise_ip := snprintf 64 v\<rparr>)
      else if a = ''--daemon''
      then Some (case host_port v (cf_daemon_port c) of (h, p) \<Rightarrow> c\<lparr>cf_daemon_host := h, cf_daemon_port := p\<rparr>)
      else if a = ''--capture'' then Some (c\<lparr>cf_capture_dir := Some v\<rparr>)
      else None)"

fun parse_sip_opts :: "string list \<Rightarrow> bool \<Rightarrow> sip_config \<Rightarrow> (bool \<times> sip_config) parsed" where
  "parse_sip_opts [] once c = ParseOk (once, c)"
| "parse_sip_opts (a # as) once c =
     (if a = ''--once'' then parse_sip_opts as True c
      else if a = ''--debug'' then parse_sip_opts as once c
      else if a = ''--help'' then ParseExit 0
      else (case as of
              [] \<Rightarrow> ParseExit 2
            | v # rest \<Rightarrow> (case sip_value a v c of None \<Rightarrow> ParseExit 2 | Some d \<Rightarrow> parse_sip_opts rest once d)))"

text \<open>\<open>main\<close>: the exit status, None while the server runs, and what the server has done at the end. What
  \<open>sm_sip_run\<close> returns does not matter.\<close>

definition sip_main :: "string list \<Rightarrow> sip_env \<Rightarrow> int \<Rightarrow> int \<Rightarrow> sip_iter list \<Rightarrow> int option \<times> sip_out list" where
  "sip_main args env sock bound its =
     (case parse_sip_opts args False sip_defaults of
        ParseExit r \<Rightarrow> (Some r, [])
      | ParseOk (once, c) \<Rightarrow>
          (case fst (sm_sip_create c env sock bound) of
             None \<Rightarrow> (Some 1, [])
           | Some s \<Rightarrow>
               (case sm_sip_run (if once then 1 else -1) its s of
                  (None, s1) \<Rightarrow> (None, en_out s1)
                | (Some _, s1) \<Rightarrow> (Some 0, sm_sip_destroy s1))))"

subsection \<open>Lemmas\<close>

text \<open>What every option keeps.\<close>

definition opts_ok :: "daemon_opts \<Rightarrow> bool" where
  "opts_ok x \<longleftrightarrow> 1 \<le> do_port x \<and> do_port x \<le> 65535 \<and> cc_rate (do_cfg x) \<in> {1200, 2400}
     \<and> (cc_use_v90 (do_cfg x) \<longrightarrow> cc_use_binmodem (do_cfg x))"

definition outcome_ok :: "daemon_opts parsed option \<Rightarrow> bool" where
  "outcome_ok r = (case r of None \<Rightarrow> True | Some (ParseOk y) \<Rightarrow> opts_ok y | Some (ParseExit k) \<Rightarrow> k = 0 \<or> k = 2)"

lemma outcome_ok_simps [simp]:
  "outcome_ok None" "outcome_ok (Some (ParseOk y)) = opts_ok y" "outcome_ok (Some (ParseExit k)) = (k = 0 \<or> k = 2)"
  by (simp_all add: outcome_ok_def)

lemma outcome_ok_if: "outcome_ok r \<Longrightarrow> outcome_ok s \<Longrightarrow> outcome_ok (if b then r else s)"
  by simp

lemma set_flag_ok: "opts_ok x \<Longrightarrow> outcome_ok (set_flag a x)"
  unfolding set_flag_def by (intro outcome_ok_if) (simp_all add: opts_ok_def with_cfg_def)

lemma set_value_ok: "opts_ok x \<Longrightarrow> outcome_ok (set_value a v x)"
  unfolding set_value_def
  by (intro outcome_ok_if) (auto simp: opts_ok_def with_cfg_def parse_port_def Let_def split: option.splits if_splits)

declare parse_opts.simps(2) [simp del]

lemma parse_opts_ok: "opts_ok x \<Longrightarrow> outcome_ok (Some (parse_opts as x))"
proof (induction as x rule: parse_opts.induct)
  case (2 a as x)
  note flag = set_flag_ok [OF 2(3), of a]
  show ?case
  proof (cases "set_flag a x")
    case (Some r)
    with flag 2(2) [OF Some] show ?thesis by (cases r) (simp_all add: parse_opts.simps(2))
  next
    case None
    show ?thesis
    proof (cases as)
      case (Cons v rest)
      note val = set_value_ok [OF 2(3), of a v]
      show ?thesis
      proof (cases "set_value a v x")
        case (Some r)
        with val None Cons 2(1) [OF None Cons] show ?thesis by (cases r) (simp_all add: parse_opts.simps(2))
      qed (simp add: parse_opts.simps(2) None Cons)
    qed (simp add: parse_opts.simps(2) None)
  qed
qed simp

lemma defaults_ok: "opts_ok daemon_defaults"
  by (simp add: daemon_defaults_def opts_ok_def DEFAULT_PORT_def)

text \<open>The connections the loop takes, and whether a child was started for each.\<close>

fun taken :: "accept_round list \<Rightarrow> (int \<times> bool) list" where
  "taken [] = []"
| "taken (e # es) =
     (if \<not> ar_run e then []
      else case sm_ast_accept (ar_accept e) of
        Some (fd, _) \<Rightarrow> if fd \<ge> 0 then (fd, ar_fork e \<ge> 0) # taken es else if fd = -2 then taken es else []
      | None \<Rightarrow> [])"

lemma accept_loop_taken:
  "accept_loop es seq d = (left, d') \<Longrightarrow>
     dl_closed d' = dl_closed d @ map fst (taken es)
     \<and> dl_calls d' = dl_calls d @ zip (map (\<lambda>k. seq + int k) [0..<length (filter snd (taken es))]) (map fst (filter snd (taken es)))"
proof (induction es arbitrary: seq d)
  case (Cons e es)
  have s: "zip (map (\<lambda>k. seq + int k) [0..<Suc n]) (x # xs) = (seq, x) # zip (map (\<lambda>k. seq + 1 + int k) [0..<n]) xs"
    for n and x :: int and xs
    by (simp add: upt_conv_Cons map_Suc_upt [symmetric] del: upt_Suc) (simp add: comp_def add.assoc)
  show ?case
    using Cons.prems Cons.IH [of "seq + 1" "d\<lparr>dl_calls := dl_calls d @ [(seq, fst (the (sm_ast_accept (ar_accept e))))],
        dl_closed := dl_closed d @ [fst (the (sm_ast_accept (ar_accept e)))]\<rparr>"]
      Cons.IH [of seq "d\<lparr>dl_closed := dl_closed d @ [fst (the (sm_ast_accept (ar_accept e)))]\<rparr>"] Cons.IH [of seq d]
    by (auto simp: s simp del: upt_Suc split: if_splits option.splits)
qed simp


text \<open>An address given as \<open>HOST:PORT\<close> or \<open>HOST\<close> is read back, cut to the 63 bytes there is room for; colons
  within the host are kept, the last one counts.\<close>

lemma host_port_given:
  assumes "p < 2 ^ 31"
  shows "host_port (h @ CHR '':'' # dec_nat p) q = (take 63 h, int p)"
proof -
  have d: "CHR '':'' \<notin> set (dec_nat p)" by (auto dest!: dec_nat_set simp: is_digit_def)
  have "rev (h @ CHR '':'' # dec_nat p) = rev (dec_nat p) @ CHR '':'' # rev h" by simp
  then have "split_last (CHR '':'') (h @ CHR '':'' # dec_nat p) = Some (h, dec_nat p)"
    using d by (simp add: split_last_def takeWhile_append dropWhile_append) 
  moreover have "atoi (dec_nat p) = int p" using atoi_dec_nat [of "[]" "[]" p] assms by simp
  ultimately show ?thesis by (simp add: host_port_def)
qed

lemma host_port_default: "CHR '':'' \<notin> set h \<Longrightarrow> host_port h q = (take 63 h, q)"
  by (simp add: host_port_def split_last_def snprintf_def)

text \<open>C38: whatever its arguments, the daemon exits or serves with a port, a rate and an engine it can use; and
  serving, it starts exactly one child for each connection it takes while \<open>fork\<close> works, numbered 0, 1, 2, ... in
  the order they come in, gives each the connection it was accepted on, and closes its own end of every
  connection taken, once, whether a child was started or not.\<close>

theorem daemon_serves:
  "case daemon_main args e es of
     Relay fd \<Rightarrow> args ! 0 = ''--shim'' \<and> fd = atoi (args ! 1)
   | Exited r \<Rightarrow> r = 0 \<or> r = 1 \<or> r = 2
   | Serving x fd d \<Rightarrow>
       1 \<le> do_port x \<and> do_port x \<le> 65535 \<and> cc_rate (do_cfg x) \<in> {1200, 2400}
       \<and> (if cc_use_v90 (do_cfg x) then cc_use_binmodem (do_cfg x) else True) \<and> 0 \<le> fd
       \<and> map snd (dl_calls d) = map fst (filter snd (taken es))
       \<and> map fst (dl_calls d) = map int [0..<length (dl_calls d)]
       \<and> (dl_closed d = map fst (taken es) \<or> dl_closed d = map fst (taken es) @ [fd])"
proof (cases "length args \<ge> 2 \<and> args ! 0 = ''--shim''")
  case False
  have p: "outcome_ok (Some (parse_opts args daemon_defaults))" by (rule parse_opts_ok [OF defaults_ok])
  show ?thesis
  proof (cases "parse_opts args daemon_defaults")
    case (ParseExit r)
    with p show ?thesis by (auto simp: daemon_main_def False)
  next
    case (ParseOk x)
    show ?thesis
    proof (cases "de_exe e")
      case None
      then show ?thesis by (simp add: daemon_main_def False ParseOk)
    next
      case (Some exe)
      define y where "y = with_cfg (cc_shim_exe_update (\<lambda>_. snprintf 512 exe)) x"
      define fd where "fd = fst (if do_unix_path y \<noteq> None then sm_ast_listen_unix (de_open e)
                              else sm_ast_listen (Some (do_bind_addr y)) (de_open e))"
      obtain left d where l: "accept_loop es 0 \<lparr>dl_calls = [], dl_closed = []\<rparr> = (left, d)" by fastforce
      have y: "opts_ok y" using p ParseOk by (simp add: y_def opts_ok_def with_cfg_def)
      have m: "daemon_main args e es = (if fd < 0 then Exited 1
          else Serving y fd (if left then d\<lparr>dl_closed := dl_closed d @ [fd]\<rparr> else d))"
        using l by (simp add: daemon_main_def False ParseOk Some y_def fd_def Let_def)
      have t: "dl_closed d = map fst (taken es)"
        "dl_calls d = zip (map int [0..<length (filter snd (taken es))]) (map fst (filter snd (taken es)))"
        using accept_loop_taken [OF l] by simp_all
      then show ?thesis using y unfolding m by (auto simp: opts_ok_def)
    qed
  qed
qed (simp add: daemon_main_def)

end
