(* ===== verification/Spec2Isabelle.thy ===== *)
theory Spec2Isabelle
  imports Serial Ring Ast_Socket G711 Sip_Server Pppd V22_Train Bbs V22_Level Call_Path Call_End Call_Bytes V8 Voice Daemon
begin

text \<open>
  SoftModem: a V.22bis dial-up server that answers telephone calls over IP. A verification development
  of the C program under \<open>src/src/\<close>; file names below are relative to it.

  The system. An analogue telephone adapter with a modem behind it calls the SIP program (\<open>main/sm_sip_main.c\<close>,
  \<open>sip/sm_sip.c\<close>). It answers, takes the caller's mu-law RTP packets into a playout queue, and every 20 ms
  sends one frame of linear samples over an AudioSocket connection (\<open>ast_socket/sm_ast_socket.c\<close>) to the daemon
  (\<open>main/sm_daemon.c\<close>), which runs each connection in a child process. The child is one call
  (\<open>call/sm_call.c\<close>): an answer sequence or V.8 (\<open>modem/v8/sm_v8.c\<close>), then the V.22bis modem
  (\<open>modem/v22bis/\<close>, with the tables of \<open>dsp/filters/\<close>) or an engine from outside this code. The bits of the modem are
  start-stop characters (\<open>serial/sm_async.c\<close>); the bytes go to pppd through a relay (\<open>ppp/sm_pppd.c\<close>) or
  to the bulletin board and its games (\<open>bbs/\<close>). For each audio message the call sends back one of its
  own, which the SIP program sends to the caller as RTP.
\<close>

section \<open>Theories and the code they model\<close>

text \<open>
  \<^item> \<open>Prelude\<close>: names of the C integer types, arrays with \<open>memcpy\<close>-like reads and writes, the locale \<open>circular\<close>
    of a circular buffer with its three instances in \<open>Serial\<close>, \<open>Ring\<close> and \<open>Rtp_Bridge\<close>. \<open>C_String\<close>: C strings and the
    functions of \<open>string.h\<close>, \<open>ctype.h\<close>, \<open>stdlib.h\<close> and \<open>printf\<close> the sources use.
  \<^item> \<open>Serial\<close>: \<open>sm_async.c\<close>, the bit queue with its wrapping counters (it is a \<open>bit_fifo\<close>, the interface the framing
    relies on) and the deframer. \<open>Ring\<close>: \<open>audio/sm_ring.c\<close>, with the lock.
  \<^item> \<open>Ast_Socket\<close>: connections, resumable reads and complete writes of \<open>sm_ast_socket.c\<close>; the locale \<open>frame_reader\<close> says
    what a caller relies on.
  \<^item> \<open>G711\<close>, \<open>Sip_Parse\<close>, \<open>Rtp_Bridge\<close>, \<open>Sip_Server\<close>: \<open>sip/sm_sip.c\<close>, in this order the codec, the parser of SIP and SDP,
    the RTP side with the playout queue and the clock, and the handlers with the event loop. One record, \<open>sm_sip\<close>, is the C
    structure and what the system gives the server.
  \<^item> \<open>Pppd\<close>: \<open>sm_pppd_spawn\<close> with both halves of the fork and the relay loop of \<open>sm_pppd_shim_main\<close>.
  \<^item> \<open>V22_Tx\<close>, \<open>V22_Rx\<close>: \<open>v22bis_tx.c\<close> and \<open>v22bis_rx.c\<close> on one record, the modem's state. \<open>V22_Clock\<close> has the transmitter's
    timing, \<open>V22_Link\<close> scrambler, slicers and the data link, \<open>V22_Train\<close> the receiver's training. \<open>Filters\<close> holds the five
    tables, \<open>V22_Level\<close> the level of the output with them. \<open>V22_Cb\<close> is the interface between the modem and the user of its
    callbacks, the locale \<open>line_user\<close>.
  \<^item> \<open>Doors\<close>, \<open>Bbs\<close>: the five games of \<open>bbs/doors/\<close> with their registry, and \<open>bbs.c\<close>.
  \<^item> \<open>Call\<close>: \<open>sm_call.c\<close>, one definition for each function or part of a loop. \<open>Call_Inv\<close> has what every step keeps and
    interprets \<open>line_user\<close>; \<open>Call_Run\<close> the invariant over a call; \<open>Call_Path\<close> the answer sequence; \<open>Call_End\<close> the engine after
    V.8 and the audio replies; \<open>Call_Bytes\<close> the bytes between the line and pppd, and the end of a call. \<open>V8\<close> is the wrapper
    \<open>sm_v8.c\<close>.
  \<^item> \<open>Voice\<close>: the caller's voice across the SIP program, the connection and the call.
  \<^item> \<open>Sm_Log\<close>, \<open>Daemon\<close>: \<open>logging/sm_log.c\<close> and the two programs under \<open>main/\<close>.
\<close>

section \<open>How state, effects and loops are modelled\<close>

text \<open>
  A C structure is a record with a field for each C field, a function a definition from state to state, named as in the
  code; a part of a long function has a name of its own, and the functions compose them as the code does. Integers
  have their C width where they wrap or are used bitwise; \<open>int\<close> is \<open>int\<close> elsewhere. Signed overflow, undefined in C,
  is modelled as the machine's wrap where configured values can cause it (\<open>samples_of_ms\<close> in \<open>Call\<close>, the numbers read by
  \<open>atoi\<close>); the counters and sums taken as unbounded stay far below 2^31 in a call, or count bytes and samples. An access outside an array is None, a
  \<open>Fault\<close> output, or the flag \<open>cl_fault\<close> of a call, and theorems say when it cannot happen.

  System calls are inputs: a list of what successive calls return. A list that has run out means
  waiting: \<open>poll\<close> times out, or the process that has no more input is still running, which the loops of the
  server, the call and the daemon report as None or False. A loop that depends on its input recurses on that list, so no fuel is needed;
  the pump of the SIP server takes the list of clock readings, and seven of them are enough whenever the clock stands still.
  The other loops end by a measure (carries of the clock, the bytes still to come from a connection).

  Floating point is the parameter \<open>fp\<close> of the modem, a record of the operations on \<open>float\<close> and \<open>double\<close>, so the theorems on indices,
  timing, training and safety hold for IEEE arithmetic as well. The theorems on levels and decisions instantiate it
  with real numbers: \<open>data_link_roundtrip\<close>, \<open>slice_16_nearest\<close>, \<open>transmit_never_clips\<close>.
\<close>

text \<open>
  Some fields of the records are not the code's: outputs and flags that record effects, and in a call the books
  \<open>cl_taken\<close> and \<open>cl_released\<close>, what was acquired and what was given back, which no operation reads.
\<close>

section \<open>What is shown\<close>

text \<open>
  \<^item> Transport: bytes survive the framing, the bit queue and the playout queue are bounded queues
    whatever their counters, messages of the connection are read in order however the stream is cut, and all of
    them, the relay loses nothing, mu-law codes survive decoding and encoding, and the voice of the caller reaches the modem.
  \<^item> Modem: with noise below half the distance of the points the receiver's bits are the transmitter's; 600 symbols a
    second exactly; the times of the training sequence; the receiver's indices and moves, sample by sample, for any signal; no clipping; the
    slicer's table gives the nearest point.
  \<^item> SIP: the parser reads back well-formed requests and the server's replies, and its fields fit; the server's invariant for any input; INVITE, BYE, and
    what goes wrong: stale bytes behind a header, failed INVITEs counted as calls.
  \<^item> Call: the invariant of a call, the exact answer sequence, the engine after V.8, a reply for each message, the order of bytes,
    that everything acquired is released once (with the exceptions the code makes), the end of a silent call, and that a dead pppd is not noticed.
  \<^item> Board: no menu without a login, the invariant of a session, accounts round trip, the rules of the games.
  \<^item> Programs: the daemon's options and children.
\<close>

section \<open>Not modelled\<close>

text \<open>
  Code that is not in this repository is a parameter or an input: the BinModem engine and spanDSP's V.8 and V.34
  (what they report and the order of their callbacks), SQLite (a record of its functions), pppd. The programs
  under \<open>tools/\<close> and \<open>tests/\<close> replay recordings and simulate callers; they are no part of the running system.

  Left out: messages on stderr, usage texts, hex dumps and traces switched on by environment variables, the contents of the log
  beyond \<open>Sm_Log\<close>, and signal dispositions beyond the results of \<open>waitpid\<close>. The games' \<open>int\<close> does not overflow
  in the model. Processes do not run at the same time: a call and the server meet only in the streams
  between them, which \<open>Voice\<close> composes.
\<close>

end
